(* ===== verification/Pincher_Prelude.thy ===== *)
theory Pincher_Prelude
  imports Main "HOL-Library.Char_ord" "HOL-Library.List_Lexorder" "HOL-Library.Product_Lexorder"
    "HOL-Library.Sublist" "HOL-Library.AList" "HOL-Library.Multiset"
begin

text \<open>
  Shared vocabulary of the development: the fragment of Go's \<^verbatim>\<open>strings\<close> and
  \<^verbatim>\<open>strconv\<close> packages that the modelled code calls, on Go strings as byte lists
  (\<^typ>\<open>string\<close>), and the generic lemmas the components share.  Case folding is the ASCII
  part of \<^verbatim>\<open>strings.ToUpper\<close> / \<^verbatim>\<open>strings.ToLower\<close>: every modelled use compares
  the folded text with an ASCII word or folds an identifier token, which is ASCII.
\<close>

named_theorems go_simps \<open>evaluation rules for the Go string and number helpers\<close>
named_theorems parser_progress \<open>token positions only move forward\<close>

section \<open>Bytes\<close>

abbreviation backslash :: char where "backslash \<equiv> CHR 0x5C"
abbreviation squote :: char where "squote \<equiv> CHR 0x27"
abbreviation dquote :: char where "dquote \<equiv> CHR 0x22"
abbreviation newline :: char where "newline \<equiv> CHR 0x0A"
abbreviation tab :: char where "tab \<equiv> CHR 0x09"
abbreviation creturn :: char where "creturn \<equiv> CHR 0x0D"

definition is_digit :: "char \<Rightarrow> bool" where
  "is_digit c \<longleftrightarrow> CHR ''0'' \<le> c \<and> c \<le> CHR ''9''"

definition is_lower :: "char \<Rightarrow> bool" where
  "is_lower c \<longleftrightarrow> CHR ''a'' \<le> c \<and> c \<le> CHR ''z''"

definition is_upper :: "char \<Rightarrow> bool" where
  "is_upper c \<longleftrightarrow> CHR ''A'' \<le> c \<and> c \<le> CHR ''Z''"

definition is_ident_start :: "char \<Rightarrow> bool" where
  "is_ident_start c \<longleftrightarrow> is_lower c \<or> is_upper c \<or> c = CHR ''_''"

definition is_ident_char :: "char \<Rightarrow> bool" where
  "is_ident_char c \<longleftrightarrow> is_lower c \<or> is_upper c \<or> is_digit c \<or> c = CHR ''_''"

definition upper_char :: "char \<Rightarrow> char" where
  "upper_char c = (if is_lower c then char_of (of_char c - 32 :: nat) else c)"

definition lower_char :: "char \<Rightarrow> char" where
  "lower_char c = (if is_upper c then char_of (of_char c + 32 :: nat) else c)"

lemmas char_class_defs [go_simps] =
  is_digit_def is_lower_def is_upper_def is_ident_start_def is_ident_char_def
  upper_char_def lower_char_def

section \<open>Go strings\<close>

definition to_upper :: "string \<Rightarrow> string" where
  "to_upper s = map upper_char s"

definition to_lower :: "string \<Rightarrow> string" where
  "to_lower s = map lower_char s"

definition has_prefix :: "string \<Rightarrow> string \<Rightarrow> bool" where
  "has_prefix s p \<longleftrightarrow> prefix p s"

definition has_suffix :: "string \<Rightarrow> string \<Rightarrow> bool" where
  "has_suffix s p \<longleftrightarrow> suffix p s"

definition contains :: "string \<Rightarrow> string \<Rightarrow> bool" where
  "contains s t \<longleftrightarrow> sublist t s"

definition contains_any :: "string \<Rightarrow> string \<Rightarrow> bool" where
  "contains_any s chars \<longleftrightarrow> list_ex (\<lambda>c. c \<in> set chars) s"

definition trim_prefix :: "string \<Rightarrow> string \<Rightarrow> string" where
  "trim_prefix s p = (if prefix p s then drop (length p) s else s)"

definition trim_suffix :: "string \<Rightarrow> string \<Rightarrow> string" where
  "trim_suffix s p = (if suffix p s then take (length s - length p) s else s)"

definition is_space :: "char \<Rightarrow> bool" where
  "is_space c \<longleftrightarrow> c = CHR '' '' \<or> (CHR 0x09 \<le> c \<and> c \<le> CHR 0x0D)"

definition trim_space :: "string \<Rightarrow> string" where
  "trim_space s = rev (dropWhile is_space (rev (dropWhile is_space s)))"

text \<open>\<^verbatim>\<open>strings.Cut\<close> at the first occurrence of a byte, if there is one.\<close>

fun cut_byte :: "char \<Rightarrow> string \<Rightarrow> (string \<times> string) option" where
  "cut_byte c [] = None"
| "cut_byte c (x # xs) =
     (if x = c then Some ([], xs)
      else map_option (\<lambda>(a, b). (x # a, b)) (cut_byte c xs))"

text \<open>\<^verbatim>\<open>strings.ReplaceAll\<close> of a one-byte pattern.\<close>

definition replace_byte :: "char \<Rightarrow> string \<Rightarrow> string \<Rightarrow> string" where
  "replace_byte c r s = concat (map (\<lambda>x. if x = c then r else [x]) s)"

fun str_join :: "string \<Rightarrow> string list \<Rightarrow> string" where
  "str_join sep [] = []"
| "str_join sep [x] = x"
| "str_join sep (x # y # ys) = x @ sep @ str_join sep (y # ys)"

text \<open>\<^verbatim>\<open>strings.Split\<close> with the two-byte separator \<^verbatim>\<open>..\<close>.\<close>

fun split_dots :: "string \<Rightarrow> string list" where
  "split_dots [] = [[]]"
| "split_dots [x] = [[x]]"
| "split_dots (x # y # ys) =
     (if x = CHR ''.'' \<and> y = CHR ''.'' then [] # split_dots ys
      else (case split_dots (y # ys) of
              [] \<Rightarrow> [[x]]
            | p # ps \<Rightarrow> (x # p) # ps))"

section \<open>Numbers\<close>

definition digit_char :: "nat \<Rightarrow> char" where
  "digit_char d = char_of (48 + d)"

definition digit_val :: "char \<Rightarrow> nat" where
  "digit_val c = of_char c - 48"

fun show_nat :: "nat \<Rightarrow> string" where
  "show_nat n = (if n < 10 then [digit_char n] else show_nat (n div 10) @ [digit_char (n mod 10)])"

declare show_nat.simps [simp del]

definition itoa :: "int \<Rightarrow> string" where
  "itoa i = (if i < 0 then CHR ''-'' # show_nat (nat (- i)) else show_nat (nat i))"

text \<open>
  \<^verbatim>\<open>strconv.ParseUint\<close> in base 10 and 64 bits: left to right, a byte that is not a digit is
  a syntax error and the digit that overflows is a range error, whichever comes first.
\<close>

datatype num_result = NumOk int | NumSyntax | NumRange

fun parse_uint :: "int \<Rightarrow> string \<Rightarrow> num_result" where
  "parse_uint acc [] = NumOk acc"
| "parse_uint acc (c # cs) =
     (if \<not> is_digit c then NumSyntax
      else if acc * 10 + int (digit_val c) \<ge> 2 ^ 64 then NumRange
      else parse_uint (acc * 10 + int (digit_val c)) cs)"

text \<open>
  \<^verbatim>\<open>strconv.Atoi\<close> on a platform with 64-bit \<^verbatim>\<open>int\<close>: the value and whether an error was
  returned.  A syntax error gives 0, a range error the nearest representable value.
\<close>

definition atoi_signed :: "bool \<Rightarrow> string \<Rightarrow> int \<times> bool" where
  "atoi_signed neg ds =
     (if ds = [] then (0, True)
      else case parse_uint 0 ds of
        NumSyntax \<Rightarrow> (0, True)
      | NumRange \<Rightarrow> (if neg then - (2 ^ 63) else 2 ^ 63 - 1, True)
      | NumOk n \<Rightarrow>
          (if \<not> neg \<and> n \<ge> 2 ^ 63 then (2 ^ 63 - 1, True)
           else if neg \<and> n > 2 ^ 63 then (- (2 ^ 63), True)
           else (if neg then - n else n, False)))"

definition atoi :: "string \<Rightarrow> int \<times> bool" where
  "atoi s = (case s of
      [] \<Rightarrow> (0, True)
    | c # cs \<Rightarrow> if c = CHR ''+'' then atoi_signed False cs
               else if c = CHR ''-'' then atoi_signed True cs
               else atoi_signed False s)"

section \<open>Lemmas on strings and numbers\<close>

lemma digit_val_digit_char: "d < 10 \<Longrightarrow> digit_val (digit_char d) = d"
  by (simp add: digit_val_def digit_char_def)

lemma is_digit_iff: "is_digit c \<longleftrightarrow> 48 \<le> (of_char c :: nat) \<and> (of_char c :: nat) \<le> 57"
  by (simp add: is_digit_def less_eq_char_def)

lemma is_digit_digit_char: "d < 10 \<Longrightarrow> is_digit (digit_char d)"
  by (simp add: is_digit_iff digit_char_def)

lemma digit_val_less: "is_digit c \<Longrightarrow> digit_val c < 10"
  by (auto simp: is_digit_iff digit_val_def)

lemma show_nat_digits: "list_all is_digit (show_nat n)"
proof (induction n rule: show_nat.induct)
  case (1 n)
  then show ?case by (subst show_nat.simps) (simp add: is_digit_digit_char)
qed

lemma show_nat_nonempty [simp]: "show_nat n \<noteq> []"
  by (subst show_nat.simps) simp

lemma parse_uint_append:
  "parse_uint acc (xs @ ys) =
     (case parse_uint acc xs of NumOk n \<Rightarrow> parse_uint n ys | r \<Rightarrow> r)"
  by (induction xs arbitrary: acc) auto

lemma parse_uint_show_nat: "n < 2 ^ 64 \<Longrightarrow> parse_uint 0 (show_nat n) = NumOk (int n)"
proof (induction n rule: show_nat.induct)
  case (1 n)
  show ?case
  proof (cases "n < 10")
    case True
    then show ?thesis
      by (subst show_nat.simps) (simp add: is_digit_digit_char digit_val_digit_char)
  next
    case False
    then have "parse_uint 0 (show_nat (n div 10)) = NumOk (int (n div 10))"
      using 1 by simp
    moreover have "int (n div 10) * 10 + int (n mod 10) = int n"
      by (metis div_mult_mod_eq mult.commute of_nat_add of_nat_mult of_nat_numeral)
    ultimately show ?thesis
      using False \<open>n < 2 ^ 64\<close>
      by (subst show_nat.simps)
        (simp add: parse_uint_append is_digit_digit_char digit_val_digit_char)
  qed
qed

lemma atoi_show_nat:
  assumes "n < 2 ^ 63"
  shows "atoi (show_nat n) = (int n, False)"
proof -
  obtain c cs where s: "show_nat n = c # cs" by (cases "show_nat n") auto
  with show_nat_digits [of n] have "is_digit c" by simp
  then have "c \<noteq> CHR ''+''" "c \<noteq> CHR ''-''" by (auto simp: is_digit_iff)
  with s assms parse_uint_show_nat [of n] show ?thesis
    by (simp add: atoi_def atoi_signed_def)
qed

lemma parse_uint_nonneg: "0 \<le> acc \<Longrightarrow> parse_uint acc s = NumOk n \<Longrightarrow> 0 \<le> n"
proof (induction s arbitrary: acc)
  case (Cons c cs)
  then have "parse_uint (acc * 10 + int (digit_val c)) cs = NumOk n" by (simp split: if_splits)
  moreover have "0 \<le> acc * 10 + int (digit_val c)" using Cons.prems(1) by simp
  ultimately show ?case using Cons.IH by blast
qed simp

lemma atoi_signed_bounds:
  "- (2 ^ 63) \<le> fst (atoi_signed neg s) \<and> fst (atoi_signed neg s) < 2 ^ 63"
proof (cases "parse_uint 0 s")
  case (NumOk n)
  with parse_uint_nonneg [of 0 s n] show ?thesis by (auto simp: atoi_signed_def)
qed (auto simp: atoi_signed_def)

lemma atoi_bounds: "- (2 ^ 63) \<le> fst (atoi s) \<and> fst (atoi s) < 2 ^ 63"
  using atoi_signed_bounds by (auto simp: atoi_def split: list.split)

lemma parse_uint_syntax_iff:
  "\<not> list_all is_digit cs \<Longrightarrow> parse_uint acc cs = NumSyntax \<or> parse_uint acc cs = NumRange"
  by (induction cs arbitrary: acc) auto

lemma cut_byte_Some: "cut_byte c s = Some (a, b) \<Longrightarrow> s = a @ c # b \<and> c \<notin> set a"
  by (induction s arbitrary: a b) (auto split: if_splits)

lemma cut_byte_None: "cut_byte c s = None \<longleftrightarrow> c \<notin> set s"
  by (induction s) auto

lemma cut_byte_append: "c \<notin> set a \<Longrightarrow> cut_byte c (a @ c # b) = Some (a, b)"
  by (induction a) auto

lemma count_list_join:
  "c \<notin> set sep \<Longrightarrow> count_list (str_join sep xs) c = sum_list (map (\<lambda>x. count_list x c) xs)"
  by (induction sep xs rule: str_join.induct) (auto simp: count_list_append)

lemma split_dots_nonempty [simp]: "split_dots s \<noteq> []"
  by (induction s rule: split_dots.induct) (auto split: list.splits)

lemma split_dots_no_dot: "CHR ''.'' \<notin> set s \<Longrightarrow> split_dots s = [s]"
  by (induction s rule: split_dots.induct) auto

lemma split_dots_range:
  "CHR ''.'' \<notin> set a \<Longrightarrow> CHR ''.'' \<notin> set b \<Longrightarrow> split_dots (a @ ''..'' @ b) = [a, b]"
proof (induction a)
  case Nil
  then show ?case by (simp add: split_dots_no_dot)
next
  case (Cons x a)
  then show ?case by (cases a) auto
qed

section \<open>Association lists as Go maps\<close>

lemma update_new: "k \<notin> fst ` set al \<Longrightarrow> AList.update k v al = al @ [(k, v)]"
  by (induction al) auto

lemma map_filter_cong:
  "(\<And>x. x \<in> set xs \<Longrightarrow> f x = g x) \<Longrightarrow> List.map_filter f xs = List.map_filter g xs"
  by (induction xs) (auto simp: map_filter_simps split: option.split)

end
