(* ===== verification/Cypher_AST.thy ===== *)
theory Cypher_AST
  imports Pincher_Prelude
begin

text \<open>
  The data of the pinchQL engine (\<^verbatim>\<open>internal/cypher/engine.go\<close>): tokens, the query AST and
  the WHERE tree.  Go struct fields keep their names; a prefix tells the records apart
  (\<open>tok_\<close>, \<open>c_\<close>, \<open>pat_\<close>, \<open>rv_\<close>, \<open>q_\<close>).  A nil \<^verbatim>\<open>whereExpr\<close> is
  \<^term>\<open>None\<close>.  A Go map is an association list; its order stands for the iteration order of
  a \<^verbatim>\<open>range\<close> loop, which Go leaves open, so every theorem holds for every order.
\<close>

section \<open>Tokens\<close>

datatype tkind = KEYWORD | IDENT | NUMBER | STRING | PUNCT | HOPS | EOF

text \<open>The spelling of a token kind in the source, which orders the kinds in sorted warnings.\<close>

fun kind_str :: "tkind \<Rightarrow> string" where
  "kind_str KEYWORD = ''KEYWORD''"
| "kind_str IDENT = ''IDENT''"
| "kind_str NUMBER = ''NUMBER''"
| "kind_str STRING = ''STRING''"
| "kind_str PUNCT = ''PUNCT''"
| "kind_str HOPS = ''HOPS''"
| "kind_str EOF = ''EOF''"

lemma kind_str_inject [simp]: "kind_str a = kind_str b \<longleftrightarrow> a = b"
  by (cases a; cases b) auto

instantiation tkind :: linorder
begin

definition less_eq_tkind :: "tkind \<Rightarrow> tkind \<Rightarrow> bool" where
  "less_eq_tkind a b \<longleftrightarrow> kind_str a \<le> kind_str b"

definition less_tkind :: "tkind \<Rightarrow> tkind \<Rightarrow> bool" where
  "less_tkind a b \<longleftrightarrow> kind_str a < kind_str b"

instance
  by standard (auto simp: less_eq_tkind_def less_tkind_def order.strict_iff_order)

end

record token =
  tok_kind :: tkind
  tok_value :: string

abbreviation tok :: "tkind \<Rightarrow> string \<Rightarrow> token" where
  "tok k v \<equiv> \<lparr>tok_kind = k, tok_value = v\<rparr>"

abbreviation eof_token :: token where
  "eof_token \<equiv> tok EOF []"

section \<open>Conditions and the WHERE tree\<close>

text \<open>
  \<open>c_valueKind\<close> is \<^term>\<open>None\<close> where the source holds the empty string (no literal).
\<close>

record condition =
  c_variable :: string
  c_property :: string
  c_op :: string
  c_value :: string
  c_inValues :: "string list"
  c_negated :: bool
  c_connector :: string
  c_rhsVariable :: string
  c_rhsProperty :: string
  c_valueKind :: "tkind option"

definition empty_condition :: condition where
  "empty_condition = \<lparr>c_variable = [], c_property = [], c_op = [], c_value = [],
     c_inValues = [], c_negated = False, c_connector = [], c_rhsVariable = [],
     c_rhsProperty = [], c_valueKind = None\<rparr>"

datatype boolop = AND_op | OR_op

datatype whereExpr =
    CondExpr condition
  | BinaryExpr boolop whereExpr whereExpr
  | NotExpr whereExpr

fun boolop_str :: "boolop \<Rightarrow> string" where
  "boolop_str AND_op = ''AND''"
| "boolop_str OR_op = ''OR''"

section \<open>Patterns, projections and queries\<close>

record pattern =
  pat_fromVar :: string
  pat_fromKind :: string
  pat_fromProps :: "(string \<times> string) list"
  pat_edgeVar :: string
  pat_edgeKinds :: "string list"
  pat_minHops :: int
  pat_maxHops :: int
  pat_invertedHops :: bool
  pat_minHopsClamped :: bool
  pat_toVar :: string
  pat_toKind :: string
  pat_toProps :: "(string \<times> string) list"
  pat_directed :: bool

record returnVar =
  rv_variable :: string
  rv_property :: string
  rv_alias :: string
  rv_fn :: string
  rv_distinct :: bool

definition empty_returnVar :: returnVar where
  "empty_returnVar = \<lparr>rv_variable = [], rv_property = [], rv_alias = [], rv_fn = [],
     rv_distinct = False\<rparr>"

record queryAST =
  q_patterns :: "pattern list"
  q_conditions :: "condition list"
  q_where :: "whereExpr option"
  q_returnVars :: "returnVar list"
  q_orderBy :: string
  q_orderDir :: string
  q_limit :: int
  q_distinct :: bool

section \<open>Shape of the WHERE tree\<close>

text \<open>
  \<^verbatim>\<open>collectFlatLeaves\<close>: the leaves and connectors of a left-leaning chain, \<^term>\<open>None\<close> for
  every other shape.
\<close>

fun collectFlatLeaves :: "whereExpr \<Rightarrow> (condition list \<times> boolop list) option" where
  "collectFlatLeaves (CondExpr c) = Some ([c], [])"
| "collectFlatLeaves (BinaryExpr op l r) =
     (case collectFlatLeaves l of
        None \<Rightarrow> None
      | Some (leaves, conns) \<Rightarrow>
          (case r of
             CondExpr rc \<Rightarrow> Some (leaves @ [rc], conns @ [op])
           | _ \<Rightarrow> None))"
| "collectFlatLeaves (NotExpr w) = None"

text \<open>Stamping the connectors: the first leaf gets none, leaf i+1 gets connector i.\<close>

definition stamp :: "string \<Rightarrow> condition \<Rightarrow> condition" where
  "stamp conn c = c\<lparr>c_connector := conn\<rparr>"

fun stamp_all :: "condition list \<Rightarrow> boolop list \<Rightarrow> condition list" where
  "stamp_all (c # cs) (op # ops) = stamp (boolop_str op) c # stamp_all cs ops"
| "stamp_all _ _ = []"

definition flattenWhere :: "whereExpr \<Rightarrow> condition list option" where
  "flattenWhere w =
     (case collectFlatLeaves w of
        None \<Rightarrow> None
      | Some ([], _) \<Rightarrow> Some []
      | Some (c # cs, conns) \<Rightarrow> Some (stamp [] c # stamp_all cs conns))"

fun is_leaf :: "whereExpr \<Rightarrow> bool" where
  "is_leaf (CondExpr _) = True"
| "is_leaf _ = False"

fun and_chain :: "whereExpr \<Rightarrow> bool" where
  "and_chain (CondExpr c) = True"
| "and_chain (BinaryExpr op l r) = (op = AND_op \<and> is_leaf r \<and> and_chain l)"
| "and_chain (NotExpr w) = False"

definition whereIsAndChainOfLeaves :: "whereExpr option \<Rightarrow> bool" where
  "whereIsAndChainOfLeaves w = (case w of None \<Rightarrow> True | Some e \<Rightarrow> and_chain e)"

definition pushdownAllowed :: "queryAST \<Rightarrow> bool" where
  "pushdownAllowed q = whereIsAndChainOfLeaves (q_where q)"

fun and_chain_from :: "whereExpr \<Rightarrow> condition list \<Rightarrow> whereExpr" where
  "and_chain_from w [] = w"
| "and_chain_from w (c # cs) = and_chain_from (BinaryExpr AND_op w (CondExpr c)) cs"

definition andChainFromConds :: "condition list \<Rightarrow> whereExpr option" where
  "andChainFromConds cs =
     (case cs of [] \<Rightarrow> None | c # rest \<Rightarrow> Some (and_chain_from (CondExpr c) rest))"

text \<open>
  The recursive \<^verbatim>\<open>walk\<close> every warning collector runs over the WHERE tree visits exactly these
  conditions, in this order.
\<close>

fun where_leaves :: "whereExpr \<Rightarrow> condition list" where
  "where_leaves (CondExpr c) = [c]"
| "where_leaves (BinaryExpr op l r) = where_leaves l @ where_leaves r"
| "where_leaves (NotExpr w) = where_leaves w"

definition hasAggregation :: "queryAST \<Rightarrow> bool" where
  "hasAggregation q = list_ex (\<lambda>rv. rv_fn rv \<noteq> []) (q_returnVars q)"

section \<open>Lemmas on the WHERE tree\<close>

lemma boolop_str_inject [simp]: "boolop_str a = boolop_str b \<longleftrightarrow> a = b"
  by (cases a; cases b) auto

lemma collectFlatLeaves_lengths:
  "collectFlatLeaves w = Some (leaves, conns) \<Longrightarrow> length leaves = Suc (length conns)"
  by (induction w arbitrary: leaves conns) (auto split: option.splits whereExpr.splits)

lemma collectFlatLeaves_leaves:
  "collectFlatLeaves w = Some (leaves, conns) \<Longrightarrow> leaves = where_leaves w"
  by (induction w arbitrary: leaves conns) (auto split: option.splits whereExpr.splits)

lemma stamp_simps [simp]:
  "c_variable (stamp x c) = c_variable c" "c_property (stamp x c) = c_property c"
  "c_op (stamp x c) = c_op c" "c_value (stamp x c) = c_value c"
  "c_inValues (stamp x c) = c_inValues c" "c_negated (stamp x c) = c_negated c"
  "c_rhsVariable (stamp x c) = c_rhsVariable c" "c_rhsProperty (stamp x c) = c_rhsProperty c"
  "c_valueKind (stamp x c) = c_valueKind c" "c_connector (stamp x c) = x"
  by (simp_all add: stamp_def)

lemma stamp_all_append:
  "length cs = length ops \<Longrightarrow>
     stamp_all (cs @ [c]) (ops @ [op]) = stamp_all cs ops @ [stamp (boolop_str op) c]"
  by (induction cs ops rule: stamp_all.induct) auto

lemma flattenWhere_nonempty: "flattenWhere w \<noteq> Some []"
  by (auto simp: flattenWhere_def dest: collectFlatLeaves_lengths
      split: option.splits list.splits)

text \<open>A flat chain extended by one leaf flattens to the flat list extended by that leaf.\<close>

lemma flattenWhere_Binary:
  "flattenWhere (BinaryExpr op l (CondExpr c)) =
     map_option (\<lambda>cs. cs @ [stamp (boolop_str op) c]) (flattenWhere l)"
proof (cases "collectFlatLeaves l")
  case None
  then show ?thesis by (simp add: flattenWhere_def)
next
  case (Some p)
  obtain leaves conns where p: "p = (leaves, conns)" by (cases p)
  with Some have "length leaves = Suc (length conns)"
    by (auto dest: collectFlatLeaves_lengths)
  with Some p show ?thesis
    by (cases leaves) (auto simp: flattenWhere_def stamp_all_append)
qed

lemma flattenWhere_Binary_not_leaf:
  "\<not> is_leaf r \<Longrightarrow> flattenWhere (BinaryExpr op l r) = None"
  by (cases r) (auto simp: flattenWhere_def split: option.splits)

lemma flattenWhere_Not [simp]: "flattenWhere (NotExpr w) = None"
  by (simp add: flattenWhere_def)

lemma flattenWhere_Cond [simp]: "flattenWhere (CondExpr c) = Some [stamp [] c]"
  by (simp add: flattenWhere_def)

text \<open>Induction over the trees that flatten: a leaf, or a flat chain extended by a leaf.\<close>

lemma flattenWhere_induct [consumes 1, case_names leaf chain]:
  assumes "flattenWhere w = Some cs"
    and "\<And>c. P (CondExpr c) [stamp [] c]"
    and "\<And>op l c cs. flattenWhere l = Some cs \<Longrightarrow> P l cs \<Longrightarrow>
           P (BinaryExpr op l (CondExpr c)) (cs @ [stamp (boolop_str op) c])"
  shows "P w cs"
  using assms(1)
proof (induction w arbitrary: cs)
  case (CondExpr c)
  then show ?case using assms(2) by auto
next
  case (BinaryExpr op l r)
  then obtain c where r: "r = CondExpr c"
    by (cases r) (auto simp: flattenWhere_Binary_not_leaf)
  with BinaryExpr.prems obtain cs' where "flattenWhere l = Some cs'"
    "cs = cs' @ [stamp (boolop_str op) c]"
    by (auto simp: flattenWhere_Binary)
  with r BinaryExpr.IH(1) assms(3) show ?case by simp
next
  case (NotExpr w)
  then show ?case by simp
qed

text \<open>An AND chain of leaves always flattens, and every connector after the first is AND.\<close>

lemma and_chain_flattens: "and_chain w \<Longrightarrow> \<exists>cs. flattenWhere w = Some cs"
proof (induction w)
  case (BinaryExpr op l r)
  then obtain c where "r = CondExpr c" by (cases r) auto
  with BinaryExpr show ?case by (auto simp: flattenWhere_Binary)
qed auto

lemma and_chain_connectors:
  "flattenWhere w = Some cs \<Longrightarrow>
     and_chain w = (\<forall>c \<in> set (tl cs). c_connector c = ''AND'')"
proof (induction w cs rule: flattenWhere_induct)
  case (chain op l c cs)
  moreover have "cs \<noteq> []"
    using chain.hyps flattenWhere_nonempty by (cases cs) auto
  ultimately show ?case by (cases op) auto
qed simp

lemma flattenWhere_leaves:
  "flattenWhere w = Some cs \<Longrightarrow>
     map (stamp []) cs = map (stamp []) (where_leaves w)"
  by (induction w cs rule: flattenWhere_induct) (auto simp: stamp_def)

end
