(* ===== verification/Cypher_Lexer.thy ===== *)
theory Cypher_Lexer
  imports Cypher_AST
begin

text \<open>
  The pinchQL tokenizer (\<^verbatim>\<open>tokenize\<close> and \<^verbatim>\<open>unescapeString\<close> of
  \<^verbatim>\<open>internal/cypher/engine.go\<close>) and the spelling helpers of the parser's error hints.  The
  source scans a string by index and never looks back, so the model recurses on the unread suffix;
  \<^term>\<open>None\<close> is the run-time panic of a slice expression out of range.
\<close>

section \<open>Definitions\<close>

fun unescape_loop :: "string \<Rightarrow> string" where
  "unescape_loop [] = []"
| "unescape_loop [c] = [c]"
| "unescape_loop (c # d # cs) =
     (if c = backslash then
        (if d = backslash \<or> d = dquote \<or> d = squote then d # unescape_loop cs
         else if d = CHR ''n'' then newline # unescape_loop cs
         else if d = CHR ''t'' then tab # unescape_loop cs
         else if d = CHR ''r'' then creturn # unescape_loop cs
         else c # unescape_loop (d # cs))
      else c # unescape_loop (d # cs))"

definition unescapeString :: "string \<Rightarrow> string" where
  "unescapeString s = (if \<not> contains s [backslash] then s else unescape_loop s)"

text \<open>
  The scan of a string literal: how far \<^verbatim>\<open>j\<close> runs past the opening quote.  A backslash skips
  the byte after it without checking that there is one, so the result can exceed the bytes left.
\<close>

fun scan_string :: "char \<Rightarrow> string \<Rightarrow> nat" where
  "scan_string q [] = 0"
| "scan_string q (x # xs) =
     (if x = q then 0
      else if x = backslash then (case xs of [] \<Rightarrow> 2 | y # ys \<Rightarrow> 2 + scan_string q ys)
      else 1 + scan_string q xs)"

definition punct_chars :: string where
  "punct_chars = ''()[]{}:,.*+-><=!~|''"

definition keyword_words :: "string list" where
  "keyword_words = [''MATCH'', ''WHERE'', ''RETURN'', ''ORDER'', ''BY'', ''LIMIT'', ''DISTINCT'',
     ''AND'', ''OR'', ''NOT'', ''CONTAINS'', ''STARTS'', ''ENDS'', ''WITH'', ''ASC'', ''DESC'',
     ''COUNT'', ''IN'', ''IS'', ''NULL'', ''TRUE'', ''FALSE'']"

definition word_token :: "string \<Rightarrow> token" where
  "word_token w = (if to_upper w \<in> set keyword_words then tok KEYWORD (to_upper w) else tok IDENT w)"

definition is_two_char_op :: "char \<Rightarrow> char \<Rightarrow> bool" where
  "is_two_char_op c d \<longleftrightarrow>
     (c = CHR ''<'' \<and> d = CHR ''>'') \<or> (c = CHR ''>'' \<and> d = CHR ''='') \<or>
     (c = CHR ''<'' \<and> d = CHR ''='') \<or> (c = CHR ''='' \<and> d = CHR ''~'')"

text \<open>The digits of a number, with one fractional part when a digit follows the dot.\<close>

definition scan_number :: "string \<Rightarrow> string \<times> string" where
  "scan_number s =
     (let ds = takeWhile is_digit s; rest = dropWhile is_digit s in
      case rest of
        dot # d # _ \<Rightarrow>
          if dot = CHR ''.'' \<and> is_digit d
          then (ds @ dot # takeWhile is_digit (tl rest), dropWhile is_digit (tl rest))
          else (ds, rest)
      | _ \<Rightarrow> (ds, rest))"

definition is_hop_char :: "char \<Rightarrow> bool" where
  "is_hop_char c \<longleftrightarrow> is_digit c \<or> c = CHR ''.''"

definition is_blank :: "char \<Rightarrow> bool" where
  "is_blank c \<longleftrightarrow> c = CHR '' '' \<or> c = tab \<or> c = newline \<or> c = creturn"

lemma scan_number_length:
  assumes "is_digit c"
  shows "length (snd (scan_number (c # cs))) \<le> length cs"
proof -
  define rest where "rest = dropWhile is_digit cs"
  have rest: "length rest \<le> length cs"
    unfolding rest_def by (rule length_dropWhile_le)
  have "length (dropWhile is_digit (tl rest)) \<le> length (tl rest)"
    by (rule length_dropWhile_le)
  with rest have "length (dropWhile is_digit (tl rest)) \<le> length cs" by simp
  moreover have "snd (scan_number (c # cs)) = rest \<or>
      snd (scan_number (c # cs)) = dropWhile is_digit (tl rest)"
    using assms by (auto simp: scan_number_def Let_def rest_def split: list.split)
  ultimately show ?thesis using rest by auto
qed

function tokenize :: "string \<Rightarrow> token list option" where
  "tokenize [] = Some []"
| "tokenize (c # cs) =
     (if is_blank c then tokenize cs
      else if c = squote \<or> c = dquote then
        (let k = scan_string c cs in
         if k > length cs then None
         else map_option (Cons (tok STRING (unescapeString (take k cs)))) (tokenize (drop (Suc k) cs)))
      else if c \<in> set punct_chars then
        (case cs of
           [] \<Rightarrow> (if c = CHR ''*'' then Some [tok HOPS []] else Some [tok PUNCT [c]])
         | d # ds \<Rightarrow>
             (if c = CHR ''-'' \<and> d = CHR ''>'' then
                map_option (Cons (tok PUNCT ''->'')) (tokenize ds)
              else if is_two_char_op c d then
                map_option (Cons (tok PUNCT [c, d])) (tokenize ds)
              else if c = CHR ''*'' then
                map_option (Cons (tok HOPS (takeWhile is_hop_char cs)))
                  (tokenize (dropWhile is_hop_char cs))
              else map_option (Cons (tok PUNCT [c])) (tokenize cs)))
      else if is_digit c then
        map_option (Cons (tok NUMBER (fst (scan_number (c # cs)))))
          (tokenize (snd (scan_number (c # cs))))
      else if is_ident_start c then
        map_option (Cons (word_token (c # takeWhile is_ident_char cs)))
          (tokenize (dropWhile is_ident_char cs))
      else tokenize cs)"
  by pat_completeness auto
termination
  by (relation "measure length")
    (auto simp: less_Suc_eq_le length_dropWhile_le scan_number_length
      intro: le_trans [OF length_dropWhile_le])

declare tokenize.simps(2) [simp del]

section \<open>Specification vocabulary\<close>

text \<open>
  How a client writes a string value as a literal: the quote and the backslash are escaped.
\<close>

definition escape_literal :: "char \<Rightarrow> string \<Rightarrow> string" where
  "escape_literal q s =
     concat (map (\<lambda>c. if c = backslash \<or> c = q then [backslash, c] else [c]) s)"

definition is_number_text :: "string \<Rightarrow> bool" where
  "is_number_text v \<longleftrightarrow>
     (case cut_byte (CHR ''.'') v of
        None \<Rightarrow> v \<noteq> [] \<and> list_all is_digit v
      | Some (a, b) \<Rightarrow> a \<noteq> [] \<and> list_all is_digit a \<and> b \<noteq> [] \<and> list_all is_digit b)"

text \<open>The shape each token kind promises the parser.\<close>

fun wf_token_of :: "tkind \<Rightarrow> string \<Rightarrow> bool" where
  "wf_token_of KEYWORD v = (v \<in> set keyword_words)"
| "wf_token_of IDENT v =
     (v \<noteq> [] \<and> is_ident_start (hd v) \<and> list_all is_ident_char v \<and>
      to_upper v \<notin> set keyword_words)"
| "wf_token_of NUMBER v = is_number_text v"
| "wf_token_of STRING v = True"
| "wf_token_of PUNCT v =
     (v \<in> {''->'', ''<>'', ''>='', ''<='', ''=~''} \<or>
      (\<exists>c \<in> set punct_chars. c \<noteq> CHR ''*'' \<and> v = [c]))"
| "wf_token_of HOPS v = list_all is_hop_char v"
| "wf_token_of EOF v = False"

definition wf_token :: "token \<Rightarrow> bool" where
  "wf_token t = wf_token_of (tok_kind t) (tok_value t)"

section \<open>String literals\<close>

lemma escape_literal_simps [simp]:
  "escape_literal q [] = []"
  "escape_literal q (c # s) =
     (if c = backslash \<or> c = q then backslash # c # escape_literal q s
      else c # escape_literal q s)"
  by (simp_all add: escape_literal_def)

lemma unescape_loop_plain: "c \<noteq> backslash \<Longrightarrow> unescape_loop (c # cs) = c # unescape_loop cs"
  by (cases cs) auto

lemma unescape_loop_id: "backslash \<notin> set s \<Longrightarrow> unescape_loop s = s"
  by (induction s) (auto simp: unescape_loop_plain)

lemma unescapeString_eq: "unescapeString s = unescape_loop s"
proof (cases "backslash \<in> set s")
  case True
  then have "sublist [backslash] s"
    by (auto simp: in_set_conv_decomp sublist_def)
  then show ?thesis by (simp add: unescapeString_def contains_def)
next
  case False
  then show ?thesis by (simp add: unescapeString_def unescape_loop_id)
qed

lemma unescape_escape:
  "q = squote \<or> q = dquote \<Longrightarrow> unescape_loop (escape_literal q s) = s"
  by (induction s) (auto simp: unescape_loop_plain)

lemma scan_string_escape:
  "q \<noteq> backslash \<Longrightarrow>
     scan_string q (escape_literal q s @ q # rest) = length (escape_literal q s)"
  by (induction s) auto

lemma scan_string_overrun:
  "scan_string q cs > length cs \<Longrightarrow> cs \<noteq> [] \<and> last cs = backslash"
proof (induction q cs rule: scan_string.induct)
  case (2 q x xs)
  then show ?case by (cases xs) (auto split: if_splits)
qed simp

lemma scan_string_plain:
  "q \<notin> set s \<Longrightarrow> backslash \<notin> set s \<Longrightarrow> q \<noteq> backslash \<Longrightarrow>
     scan_string q (s @ [backslash]) = length s + 2"
  by (induction s) auto

section \<open>The tokenizer\<close>

lemma tokenize_string:
  "c = squote \<or> c = dquote \<Longrightarrow> tokenize (c # cs) =
     (let k = scan_string c cs in
      if k > length cs then None
      else map_option (Cons (tok STRING (unescapeString (take k cs)))) (tokenize (drop (Suc k) cs)))"
  by (subst tokenize.simps(2)) (auto simp: is_blank_def)

lemma scan_number_suffix:
  assumes "is_digit c"
  shows "suffix (snd (scan_number (c # cs))) cs"
proof -
  have "suffix (dropWhile is_digit (tl (dropWhile is_digit cs))) (dropWhile is_digit cs)"
    by (meson suffix_dropWhile suffix_tl suffix_order.trans)
  then have "suffix (dropWhile is_digit (tl (dropWhile is_digit cs))) cs"
    by (meson suffix_dropWhile suffix_order.trans)
  moreover have "suffix (dropWhile is_digit cs) cs" by (rule suffix_dropWhile)
  ultimately show ?thesis
    using assms by (auto simp: scan_number_def Let_def split: list.split)
qed

lemma last_suffix: "suffix t s \<Longrightarrow> t \<noteq> [] \<Longrightarrow> last t = last s"
  by (auto simp: suffix_def)

lemma scan_number_wf:
  assumes "is_digit c"
  shows "is_number_text (fst (scan_number (c # cs)))"
proof -
  let ?ds = "takeWhile is_digit cs" and ?rest = "dropWhile is_digit cs"
  have dot: "\<not> is_digit (CHR ''.'')" by (simp add: is_digit_iff)
  have nodot: "CHR ''.'' \<notin> set (c # takeWhile is_digit xs)" for xs
    using assms dot by (auto dest: set_takeWhileD)
  have digs: "list_all is_digit (takeWhile is_digit xs)" for xs
    by (auto simp: list_all_iff dest: set_takeWhileD)
  have plain: "is_number_text (c # ?ds)"
    using assms nodot digs
    by (simp add: is_number_text_def cut_byte_None [THEN iffD2] del: cut_byte.simps)
  have frac: "is_number_text ((c # ?ds) @ CHR ''.'' # takeWhile is_digit (d # xs))"
    if "is_digit d" for d xs
    using that assms nodot digs
    by (simp add: is_number_text_def cut_byte_append del: append_Cons cut_byte.simps)
  show ?thesis
    using assms plain frac
    by (auto simp: scan_number_def Let_def split: list.split)
qed

lemma word_token_wf:
  "is_ident_start c \<Longrightarrow> wf_token (word_token (c # takeWhile is_ident_char cs))"
  by (auto simp: wf_token_def word_token_def list_all_iff is_ident_start_def is_ident_char_def
      dest: set_takeWhileD)

text \<open>
  One step of the tokenizer: it overruns a string literal, or emits one well-formed token and
  goes on with a suffix of what is left, or skips a byte.
\<close>

lemma tokenize_step:
  obtains (overrun) "scan_string c cs > length cs" "tokenize (c # cs) = None"
  | (emit) t rest where "suffix rest cs" "wf_token t"
      "tokenize (c # cs) = map_option (Cons t) (tokenize rest)"
  | (skip) "tokenize (c # cs) = tokenize cs"
proof -
  note simps = tokenize.simps(2) [of c cs]
  consider (blank) "is_blank c"
    | (str) "c = squote \<or> c = dquote" "\<not> is_blank c"
    | (punct) "c \<in> set punct_chars" "\<not> is_blank c" "\<not> (c = squote \<or> c = dquote)"
    | (num) "is_digit c" "\<not> is_blank c" "\<not> (c = squote \<or> c = dquote)" "c \<notin> set punct_chars"
    | (word) "is_ident_start c" "\<not> is_blank c" "\<not> (c = squote \<or> c = dquote)"
        "c \<notin> set punct_chars" "\<not> is_digit c"
    | (other) "\<not> is_ident_start c" "\<not> is_blank c" "\<not> (c = squote \<or> c = dquote)"
        "c \<notin> set punct_chars" "\<not> is_digit c"
    by blast
  then show thesis
  proof cases
    case blank
    then show ?thesis by (intro skip) (simp add: simps)
  next
    case str
    show ?thesis
    proof (cases "scan_string c cs > length cs")
      case True
      with str show ?thesis by (intro overrun) (auto simp: tokenize_string)
    next
      case False
      with str have "tokenize (c # cs) =
          map_option (Cons (tok STRING (unescapeString (take (scan_string c cs) cs))))
            (tokenize (drop (Suc (scan_string c cs)) cs))"
        by (simp add: tokenize_string Let_def)
      then show ?thesis by (rule emit [rotated -1]) (simp_all add: suffix_drop wf_token_def)
    qed
  next
    case punct
    show ?thesis
    proof (cases cs)
      case Nil
      with punct have "tokenize (c # cs) =
          map_option (Cons (if c = CHR ''*'' then tok HOPS [] else tok PUNCT [c])) (tokenize [])"
        by (simp add: tokenize.simps(2) [of c "[]"])
      then show ?thesis
        by (rule emit [rotated -1]) (use punct in \<open>auto simp: wf_token_def\<close>)
    next
      case (Cons d ds)
      consider "c = CHR ''-'' \<and> d = CHR ''>''"
        | "\<not> (c = CHR ''-'' \<and> d = CHR ''>'')" "is_two_char_op c d"
        | "\<not> (c = CHR ''-'' \<and> d = CHR ''>'')" "\<not> is_two_char_op c d" "c = CHR ''*''"
        | "\<not> (c = CHR ''-'' \<and> d = CHR ''>'')" "\<not> is_two_char_op c d" "c \<noteq> CHR ''*''"
        by blast
      then show ?thesis
      proof cases
        case 1
        with punct Cons have "tokenize (c # cs) = map_option (Cons (tok PUNCT ''->'')) (tokenize ds)"
          by (simp add: tokenize.simps(2) [of "CHR ''-''"])
        then show ?thesis
          by (rule emit [rotated -1]) (use Cons in \<open>auto simp: wf_token_def suffix_ConsI\<close>)
      next
        case 2
        with punct Cons have "tokenize (c # cs) = map_option (Cons (tok PUNCT [c, d])) (tokenize ds)"
          by (simp add: tokenize.simps(2) [of c "d # ds"])
        then show ?thesis
          by (rule emit [rotated -1])
            (use 2 Cons in \<open>auto simp: wf_token_def suffix_ConsI is_two_char_op_def\<close>)
      next
        case 3
        with punct Cons have "tokenize (c # cs) =
            map_option (Cons (tok HOPS (takeWhile is_hop_char cs))) (tokenize (dropWhile is_hop_char cs))"
          by (simp add: tokenize.simps(2) [of "CHR ''*''" "d # ds"])
        then show ?thesis
          by (rule emit [rotated -1])
            (auto simp: wf_token_def suffix_dropWhile list_all_iff dest: set_takeWhileD)
      next
        case 4
        with punct Cons have "tokenize (c # cs) = map_option (Cons (tok PUNCT [c])) (tokenize cs)"
          by (auto simp: tokenize.simps(2) [of c "d # ds"])
        then show ?thesis
          by (rule emit [rotated -1]) (use 4 punct in \<open>auto simp: wf_token_def\<close>)
      qed
    qed
  next
    case num
    then have "tokenize (c # cs) =
        map_option (Cons (tok NUMBER (fst (scan_number (c # cs))))) (tokenize (snd (scan_number (c # cs))))"
      by (simp add: simps)
    then show ?thesis
      by (rule emit [rotated -1])
        (use num in \<open>simp_all add: wf_token_def scan_number_wf scan_number_suffix\<close>)
  next
    case word
    then have "tokenize (c # cs) =
        map_option (Cons (word_token (c # takeWhile is_ident_char cs))) (tokenize (dropWhile is_ident_char cs))"
      by (simp add: simps)
    then show ?thesis
      by (rule emit [rotated -1])
        (use word in \<open>simp_all add: word_token_wf suffix_dropWhile\<close>)
  next
    case other
    then show ?thesis by (intro skip) (simp add: simps)
  qed
qed

text \<open>
  The tokenizer panics only on a query whose last byte is a backslash: every other text
  tokenizes.
\<close>

theorem tokenize_total:
  assumes "s = [] \<or> last s \<noteq> backslash"
  shows "\<exists>ts. tokenize s = Some ts"
  using assms
proof (induction s rule: length_induct)
  case (1 s)
  show ?case
  proof (cases s)
    case (Cons c cs)
    have keep: "t = [] \<or> last t \<noteq> backslash" if "suffix t cs" for t
      using 1(2) Cons that last_suffix [of t cs] by (cases cs) auto
    have IH: "\<exists>ts. tokenize t = Some ts" if "suffix t cs" for t
      using 1(1) keep [OF that] Cons suffix_length_le [OF that] by auto
    show ?thesis
    proof (cases rule: tokenize_step [where c = c and cs = cs])
      case overrun
      then show ?thesis using scan_string_overrun [of cs c] keep [of cs] by auto
    next
      case (emit t rest)
      then show ?thesis using IH [of rest] Cons by auto
    next
      case skip
      then show ?thesis using IH [of cs] Cons by auto
    qed
  qed simp
qed

theorem tokenize_total_witness: "\<exists>ts. tokenize ''MATCH (n) RETURN n.name'' = Some ts"
  by (rule tokenize_total) simp

text \<open>
  C38. Every token the tokenizer emits has the shape its kind promises, none is an EOF token, and
  there are at most as many tokens as bytes.
\<close>

theorem tokenize_wf:
  assumes "tokenize s = Some ts"
  shows "list_all wf_token ts \<and> length ts \<le> length s"
  using assms
proof (induction s arbitrary: ts rule: length_induct)
  case (1 s)
  show ?case
  proof (cases s)
    case Nil
    with 1 show ?thesis by simp
  next
    case (Cons c cs)
    show ?thesis
    proof (cases rule: tokenize_step [where c = c and cs = cs])
      case overrun
      with 1 Cons show ?thesis by simp
    next
      case (emit t rest)
      then obtain us where us: "tokenize rest = Some us" "ts = t # us"
        using 1 Cons by auto
      have "length rest < length s"
        using emit Cons suffix_length_le [of rest cs] by simp
      with us 1 have "list_all wf_token us \<and> length us \<le> length rest" by blast
      with us emit \<open>length rest < length s\<close> show ?thesis by simp
    next
      case skip
      with 1 Cons show ?thesis by fastforce
    qed
  qed
qed

theorem tokenize_wf_witness:
  "tokenize ''n.x >= 1.5'' =
     Some [tok IDENT ''n'', tok PUNCT ''.'', tok IDENT ''x'', tok PUNCT ''>='', tok NUMBER ''1.5''] \<and>
   list_all wf_token [tok IDENT ''n'', tok PUNCT ''.'', tok IDENT ''x'', tok PUNCT ''>='', tok NUMBER ''1.5'']"
proof -
  have "tokenize ''n.x >= 1.5'' =
      Some [tok IDENT ''n'', tok PUNCT ''.'', tok IDENT ''x'', tok PUNCT ''>='', tok NUMBER ''1.5'']"
    by code_simp
  from this tokenize_wf [OF this] show ?thesis by blast
qed

text \<open>
  Any byte string can be written as a literal: quoting it with either quote character and
  escaping that quote and the backslash tokenizes to one STRING token holding exactly that string.
\<close>

theorem tokenize_literal:
  assumes "q = squote \<or> q = dquote"
  shows "tokenize (q # escape_literal q s @ q # rest) =
    map_option (Cons (tok STRING s)) (tokenize rest)"
proof -
  from assms have "q \<noteq> backslash" by auto
  then have "scan_string q (escape_literal q s @ q # rest) = length (escape_literal q s)"
    by (rule scan_string_escape)
  with assms show ?thesis
    by (simp add: tokenize_string Let_def unescapeString_eq unescape_escape)
qed

theorem tokenize_literal_witness:
  "tokenize (squote # escape_literal squote [CHR ''D'', backslash, squote] @ [squote]) =
     Some [tok STRING [CHR ''D'', backslash, squote]]"
  using tokenize_literal [of squote "[CHR ''D'', backslash, squote]" "[]"] by simp

text \<open>
  A string literal that is left open and ends in a backslash makes the tokenizer panic: the
  scan steps over the byte after the backslash without checking that there is one, and the slice
  \<^verbatim>\<open>s[i+1:j]\<close> ends past the text.
\<close>

theorem tokenize_dangling_escape_panics:
  assumes "q = squote \<or> q = dquote" and "q \<notin> set body" and "backslash \<notin> set body"
  shows "tokenize (q # body @ [backslash]) = None"
proof -
  from assms have "scan_string q (body @ [backslash]) = length body + 2"
    by (intro scan_string_plain) auto
  with assms show ?thesis by (simp add: tokenize_string)
qed

theorem tokenize_dangling_escape_panics_witness:
  "tokenize (squote # ''C:'' @ [backslash]) = None \<and>
   tokenize (''n.path = '' @ squote # ''C:'' @ [backslash]) = None"
proof
  show "tokenize (squote # ''C:'' @ [backslash]) = None"
    by (rule tokenize_dangling_escape_panics) simp_all
  show "tokenize (''n.path = '' @ squote # ''C:'' @ [backslash]) = None" by code_simp
qed

end
