(* ===== verification/Cypher_Vocab.thy ===== *)
theory Cypher_Vocab
  imports Cypher_Lexer
begin

text \<open>
  The fixed vocabulary of pinchQL (\<^verbatim>\<open>internal/cypher/engine.go\<close>): the property whitelist and
  its column types, boolean spellings, aggregate and write keywords, the did-you-mean spelling
  distance, and the variable-length hop range.
\<close>

section \<open>Properties and columns\<close>

text \<open>The cases of \<^verbatim>\<open>cypherPropToCol\<close>'s switch; any other property has no column.\<close>

definition prop_columns :: "(string \<times> string) list" where
  "prop_columns =
     [(''id'', ''id''),
      (''project_id'', ''project_id''), (''project'', ''project_id''),
      (''name'', ''name''),
      (''qualified_name'', ''qualified_name''), (''qn'', ''qualified_name''),
      (''kind'', ''kind''), (''label'', ''kind''),
      (''file_path'', ''file_path''),
      (''language'', ''language''),
      (''start_line'', ''start_line''),
      (''end_line'', ''end_line''),
      (''start_byte'', ''start_byte''),
      (''end_byte'', ''end_byte''),
      (''complexity'', ''complexity''),
      (''extraction_confidence'', ''extraction_confidence''),
      (''confidence'', ''extraction_confidence''),
      (''is_exported'', ''is_exported''),
      (''is_entry_point'', ''is_entry_point''),
      (''is_test'', ''is_test''),
      (''signature'', ''signature''),
      (''return_type'', ''return_type''),
      (''docstring'', ''docstring'')]"

definition cypherPropToCol :: "string \<Rightarrow> string" where
  "cypherPropToCol prop = (case map_of prop_columns prop of Some col \<Rightarrow> col | None \<Rightarrow> [])"

definition isBoolCol :: "string \<Rightarrow> bool" where
  "isBoolCol col \<longleftrightarrow> col \<in> set [''is_exported'', ''is_entry_point'', ''is_test'']"

definition cypherPropType :: "string \<Rightarrow> string" where
  "cypherPropType prop =
     (let col = cypherPropToCol prop in
      if col = [] then []
      else if col \<in> set [''start_line'', ''end_line'', ''start_byte'', ''end_byte'', ''complexity'']
        then ''int''
      else if col = ''extraction_confidence'' then ''real''
      else if isBoolCol col then ''bool''
      else ''text'')"

definition isKnownEdgeProperty :: "string \<Rightarrow> bool" where
  "isKnownEdgeProperty prop \<longleftrightarrow> prop = ''kind'' \<or> prop = ''confidence''"

definition knownEdgeKinds :: "string list" where
  "knownEdgeKinds = [''CALLS'', ''HTTP_CALLS'', ''ASYNC_CALLS'', ''READS'', ''WRITES'',
     ''IMPORTS'', ''REFERENCES'', ''USES_VAR'', ''INCLUDES'', ''LOADS'']"

definition enumValuedProperties :: "string list" where
  "enumValuedProperties = [''kind'', ''label'', ''language'']"

section \<open>Literals\<close>

definition coerceBoolLiteral :: "string \<Rightarrow> string" where
  "coerceBoolLiteral v =
     (if to_lower v = ''true'' then ''1''
      else if to_lower v = ''false'' then ''0'' else v)"

definition boolNorm :: "string \<Rightarrow> bool option" where
  "boolNorm s =
     (if s \<in> set [''1'', ''true'', ''TRUE''] then Some True
      else if s \<in> set [''0'', ''false'', ''FALSE''] then Some False else None)"

definition boolCoerceEqual :: "string \<Rightarrow> string \<Rightarrow> bool" where
  "boolCoerceEqual a b =
     (case (boolNorm a, boolNorm b) of (Some x, Some y) \<Rightarrow> x = y | _ \<Rightarrow> False)"

definition isZeroValuePredicate :: "string \<Rightarrow> string \<Rightarrow> bool" where
  "isZeroValuePredicate col val \<longleftrightarrow> val = [] \<or> (isBoolCol col \<and> val = ''0'')"

definition normalizeConditionValue :: "token \<Rightarrow> string" where
  "normalizeConditionValue t =
     (if tok_kind t = KEYWORD then
        (if tok_value t = ''TRUE'' then ''1''
         else if tok_value t = ''FALSE'' then ''0''
         else if tok_value t = ''NULL'' then []
         else tok_value t)
      else tok_value t)"

definition escapeLikePattern :: "string \<Rightarrow> string" where
  "escapeLikePattern s =
     replace_byte (CHR ''_'') [backslash, CHR ''_'']
       (replace_byte (CHR 0x25) [backslash, CHR 0x25]
         (replace_byte backslash [backslash, backslash] s))"

section \<open>Keywords and spelling hints\<close>

definition isAggFn :: "string \<Rightarrow> bool" where
  "isAggFn t \<longleftrightarrow> to_upper t \<in> set [''COUNT'', ''AVG'', ''MIN'', ''MAX'', ''SUM'']"

definition topLevelClauseKeywords :: "string list" where
  "topLevelClauseKeywords = [''MATCH'', ''WHERE'', ''RETURN'', ''ORDER'', ''LIMIT'', ''WITH'']"

definition isCypherWriteKeyword :: "string \<Rightarrow> bool" where
  "isCypherWriteKeyword t \<longleftrightarrow>
     to_upper t \<in> set [''CREATE'', ''DELETE'', ''DETACH'', ''SET'', ''REMOVE'', ''MERGE'',
       ''DROP'', ''FOREACH'']"

text \<open>
  The two loops of \<^verbatim>\<open>editDistanceAtMost1\<close>: substitutions at equal length, with the running
  count, and one skipped byte of the longer word.
\<close>

fun subst_loop :: "nat \<Rightarrow> string \<Rightarrow> string \<Rightarrow> bool" where
  "subst_loop diff (x # a) (y # b) =
     (if x \<noteq> y then (if Suc diff > 1 then False else subst_loop (Suc diff) a b)
      else subst_loop diff a b)"
| "subst_loop diff _ _ = True"

fun skip_loop :: "bool \<Rightarrow> string \<Rightarrow> string \<Rightarrow> bool" where
  "skip_loop skipped (x # a) (y # b) =
     (if x = y then skip_loop skipped a b
      else if skipped then False
      else skip_loop True (x # a) b)"
| "skip_loop skipped _ _ = True"

definition editDistanceAtMost1 :: "string \<Rightarrow> string \<Rightarrow> bool" where
  "editDistanceAtMost1 a b =
     (if length a = length b then subst_loop 0 a b
      else let (s, l) = (if length a > length b then (b, a) else (a, b)) in
        if length l - length s \<noteq> 1 then False else skip_loop False s l)"

definition nearestClauseKeyword :: "string \<Rightarrow> string" where
  "nearestClauseKeyword t =
     (case find (\<lambda>kw. to_upper t \<noteq> kw \<and> editDistanceAtMost1 (to_upper t) kw)
             topLevelClauseKeywords of
        Some kw \<Rightarrow> kw | None \<Rightarrow> [])"

datatype op_hint = HintLike | HintRegexp | HintStartsWith | HintEndsWith | HintMatches
  | HintArithmetic | HintBetween | HintFunctionCall

definition operatorHint :: "string \<Rightarrow> op_hint option" where
  "operatorHint op =
     (let u = to_upper op in
      if u = ''LIKE'' then Some HintLike
      else if u \<in> set [''REGEXP'', ''RLIKE''] then Some HintRegexp
      else if u = ''STARTS_WITH'' then Some HintStartsWith
      else if u = ''ENDS_WITH'' then Some HintEndsWith
      else if u = ''MATCHES'' then Some HintMatches
      else if u \<in> set [''+'', ''-'', ''*'', ''/''] then Some HintArithmetic
      else if u = ''BETWEEN'' then Some HintBetween
      else if u = ''('' then Some HintFunctionCall
      else None)"

definition isExpressionBoundary :: "token \<Rightarrow> bool" where
  "isExpressionBoundary t \<longleftrightarrow>
     tok_kind t = EOF \<or>
     tok_value t \<in> set ['')'', ''AND'', ''OR'', ''RETURN'', ''ORDER'', ''LIMIT'']"

section \<open>Hop ranges\<close>

text \<open>
  \<^verbatim>\<open>parseHops\<close>: the result is \<open>(min, max, inverted, minClamped)\<close>.  Errors of
  \<^verbatim>\<open>strconv.Atoi\<close> are dropped, so a part that is not a number counts as the value it returns.
\<close>

definition parseHops :: "string \<Rightarrow> int \<times> int \<times> bool \<times> bool" where
  "parseHops s =
     (if s = [] then (1, 1, False, False)
      else
        let parts = split_dots s;
            (mn, mx) = (case parts of
                [a, b] \<Rightarrow> (fst (atoi a), fst (atoi b))
              | [a] \<Rightarrow> (if a \<noteq> [] then (fst (atoi a), fst (atoi a)) else (1, 1))
              | _ \<Rightarrow> (1, 1));
            inverted = (mx < mn);
            (mn, mx) = (if mx < mn then (mx, mn) else (mn, mx));
            minClamped = (mn < 1);
            mn = (if mn < 1 then 1 else mn);
            mx = (if mx < mn then mn else mx)
        in (mn, mx, inverted, minClamped))"

section \<open>Lemmas on the vocabulary\<close>

lemma prop_columns_nonempty: "[] \<notin> snd ` set prop_columns"
  by (simp add: prop_columns_def)

lemma cypherPropToCol_eq_Nil: "cypherPropToCol p = [] \<longleftrightarrow> p \<notin> fst ` set prop_columns"
  using prop_columns_nonempty
  by (force simp: cypherPropToCol_def map_of_eq_None_iff split: option.split dest: map_of_SomeD)

lemma cypherPropToCol_cases:
  "cypherPropToCol p \<noteq> [] \<Longrightarrow> cypherPropToCol p \<in> snd ` set prop_columns"
  by (force simp: cypherPropToCol_def split: option.splits dest: map_of_SomeD)

lemma boolCoerceEqual_sym: "boolCoerceEqual a b = boolCoerceEqual b a"
  by (auto simp: boolCoerceEqual_def split: option.splits)

lemma subst_loop_Suc: "length a = length b \<Longrightarrow> subst_loop (Suc 0) a b \<longleftrightarrow> a = b"
  by (induction a b rule: list_induct2) auto

lemma skip_loop_True: "Suc (length a) > length b \<Longrightarrow> length a = length b \<Longrightarrow>
    skip_loop True a b \<longleftrightarrow> a = b"
proof (induction a arbitrary: b)
  case (Cons x a)
  then show ?case by (cases b) auto
qed simp

text \<open>Two words one edit apart: a common prefix and suffix around at most one byte each.\<close>

definition one_edit :: "string \<Rightarrow> string \<Rightarrow> bool" where
  "one_edit a b \<longleftrightarrow>
     (\<exists>p x y s. a = p @ x @ s \<and> b = p @ y @ s \<and> length x \<le> 1 \<and> length y \<le> 1)"

lemma one_edit_sym: "one_edit a b = one_edit b a"
  unfolding one_edit_def by blast

lemma one_edit_refl [simp]: "one_edit a a"
  unfolding one_edit_def by (metis append_Nil le0 list.size(3))

lemma one_edit_Cons: "one_edit a b \<Longrightarrow> one_edit (x # a) (x # b)"
  unfolding one_edit_def by (metis append_Cons)

lemma one_edit_Cons_same:
  assumes "length a = length b"
  shows "one_edit (x # a) (y # b) \<longleftrightarrow> (if x = y then one_edit a b else a = b)"
proof
  assume "one_edit (x # a) (y # b)"
  then obtain p u v s where *: "x # a = p @ u @ s" "y # b = p @ v @ s"
    "length u \<le> 1" "length v \<le> 1" unfolding one_edit_def by blast
  then have uv: "length u = length v"
    using assms by (metis add_left_cancel add_right_cancel length_Cons length_append)
  show "if x = y then one_edit a b else a = b"
  proof (cases p)
    case Nil
    with * uv show ?thesis
      by (cases u; cases v) auto
  next
    case (Cons c p')
    with * show ?thesis by (auto simp: one_edit_def)
  qed
next
  assume *: "if x = y then one_edit a b else a = b"
  show "one_edit (x # a) (y # b)"
  proof (cases "x = y")
    case True
    with * show ?thesis by (simp add: one_edit_Cons)
  next
    case False
    with * have "x # a = [] @ [x] @ a" "y # b = [] @ [y] @ a" by auto
    then show ?thesis unfolding one_edit_def by (metis le_refl length_Cons list.size(3) One_nat_def)
  qed
qed

lemma subst_loop_one_edit: "length a = length b \<Longrightarrow> subst_loop 0 a b \<longleftrightarrow> one_edit a b"
proof (induction a b rule: list_induct2)
  case Nil
  show ?case by (simp add: one_edit_def)
next
  case (Cons x a y b)
  then show ?case by (auto simp: one_edit_Cons_same subst_loop_Suc)
qed

lemma one_edit_longer:
  assumes "length b = Suc (length a)"
  shows "one_edit a b \<longleftrightarrow> (\<exists>p y s. a = p @ s \<and> b = p @ y # s)"
proof
  assume "one_edit a b"
  then obtain p u v s where *: "a = p @ u @ s" "b = p @ v @ s"
    "length u \<le> 1" "length v \<le> 1" unfolding one_edit_def by blast
  with assms have "length v = Suc (length u)" by simp
  with * obtain y where "u = []" "v = [y]" by (auto simp: length_Suc_conv)
  with * have "a = p @ s \<and> b = p @ y # s" by simp
  then show "\<exists>p y s. a = p @ s \<and> b = p @ y # s" by blast
next
  assume "\<exists>p y s. a = p @ s \<and> b = p @ y # s"
  then show "one_edit a b"
    unfolding one_edit_def by (metis append_Cons append_Nil le_refl length_Cons list.size(3)
        One_nat_def zero_le)
qed

lemma skip_loop_one_edit:
  "length b = Suc (length a) \<Longrightarrow>
     skip_loop False a b \<longleftrightarrow> (\<exists>p y s. a = p @ s \<and> b = p @ y # s)"
proof (induction a arbitrary: b)
  case Nil
  then show ?case by (auto simp: length_Suc_conv)
next
  case (Cons x a)
  then obtain y b' where b: "b = y # b'" by (cases b) auto
  show ?case
  proof (cases "x = y")
    case True
    have "(\<exists>p z s. x # a = p @ s \<and> y # b' = p @ z # s) \<longleftrightarrow>
        (\<exists>p z s. a = p @ s \<and> b' = p @ z # s)" (is "?L = ?R")
    proof
      assume ?L
      then obtain p z s where *: "x # a = p @ s" "y # b' = p @ z # s" by blast
      show ?R
      proof (cases p)
        case Nil
        with * True have "a = [] @ a" "b' = [] @ x # a" by auto
        then show ?thesis by metis
      next
        case (Cons c p')
        with * show ?thesis by auto
      qed
    next
      assume ?R
      with True show ?L by (metis append_Cons)
    qed
    with True b Cons show ?thesis by simp
  next
    case False
    have "(\<exists>p z s. x # a = p @ s \<and> y # b' = p @ z # s) \<longleftrightarrow> b' = x # a" (is "?L = ?R")
    proof
      assume ?L
      then obtain p z s where *: "x # a = p @ s" "y # b' = p @ z # s" by blast
      with False show ?R by (cases p) auto
    next
      assume ?R
      then have "x # a = [] @ x # a" "y # b' = [] @ y # x # a" by auto
      then show ?L by metis
    qed
    with False b Cons.prems show ?thesis by (auto simp: skip_loop_True)
  qed
qed

section \<open>Correctness of the spelling distance and the hop range\<close>

lemma one_edit_lengths: "one_edit a b \<Longrightarrow> length a \<le> Suc (length b)"
  unfolding one_edit_def by auto

text \<open>
  \<^verbatim>\<open>editDistanceAtMost1\<close> decides exactly whether two words differ by at most one
  insertion, deletion or substitution.
\<close>

theorem editDistanceAtMost1_iff: "editDistanceAtMost1 a b \<longleftrightarrow> one_edit a b"
proof (cases "length a" "length b" rule: linorder_cases)
  case less
  then show ?thesis
    using one_edit_lengths [of b a]
    by (cases "length b = Suc (length a)")
      (auto simp: editDistanceAtMost1_def one_edit_longer skip_loop_one_edit one_edit_sym)
next
  case equal
  then show ?thesis by (simp add: editDistanceAtMost1_def subst_loop_one_edit)
next
  case greater
  then show ?thesis
    using one_edit_lengths [of a b] one_edit_sym [of a b]
    by (cases "length a = Suc (length b)")
      (auto simp: editDistanceAtMost1_def one_edit_longer skip_loop_one_edit)
qed

text \<open>
  Whatever hop specification the tokenizer hands over, the parsed range is a usable depth
  range: at least one hop, and the lower bound does not exceed the upper one.
\<close>

theorem parseHops_bounds: "case parseHops s of (mn, mx, _, _) \<Rightarrow> 1 \<le> mn \<and> mn \<le> mx"
  by (auto simp: parseHops_def Let_def split: prod.splits if_splits)

lemma no_dot_show_nat: "CHR ''.'' \<notin> set (show_nat n)"
  using show_nat_digits [of n] by (auto simp: list_all_iff is_digit_iff)

text \<open>
  A range written \<^verbatim>\<open>*a..b\<close> means the hops between the smaller and the larger bound,
  clamped to at least one; the two flags say whether the bounds were swapped and whether the
  clamp applied.
\<close>

theorem parseHops_range:
  assumes "a < 2 ^ 63" and "b < 2 ^ 63"
  shows "parseHops (show_nat a @ ''..'' @ show_nat b) =
    (max 1 (min (int a) (int b)), max 1 (max (int a) (int b)), b < a, min a b = 0)"
proof -
  have "split_dots (show_nat a @ ''..'' @ show_nat b) = [show_nat a, show_nat b]"
    using no_dot_show_nat by (rule split_dots_range) (rule no_dot_show_nat)
  with assms show ?thesis
    by (auto simp: parseHops_def Let_def atoi_show_nat)
qed

theorem parseHops_range_witness: "parseHops (show_nat 3 @ ''..'' @ show_nat 1) = (1, 3, True, False)"
  using parseHops_range [of 3 1] by simp

text \<open>
  A range with an open upper bound, \<^verbatim>\<open>*a..\<close>, is read as \<^verbatim>\<open>*1..a\<close>: the missing
  bound counts as 0, so the bounds are swapped and clamped, and paths longer than \<open>a\<close> are not
  considered at all.
\<close>

lemma parseHops_open_upper:
  assumes "0 < a" and "a < 2 ^ 63"
  shows "parseHops (show_nat a @ ''..'') = (1, int a, True, True)"
proof -
  have "split_dots (show_nat a @ ''..'' @ []) = [show_nat a, []]"
    using no_dot_show_nat by (rule split_dots_range) simp
  with assms show ?thesis
    by (auto simp: parseHops_def Let_def atoi_show_nat atoi_def [of "[]"])
qed

theorem parseHops_open_upper_witness: "parseHops (show_nat 2 @ ''..'') = (1, 2, True, True)"
  using parseHops_open_upper [of 2] by simp

end
