(* ===== verification/Cypher_Parser.thy ===== *)
theory Cypher_Parser
  imports Cypher_Vocab
begin

text \<open>
  The recursive-descent parser of pinchQL (\<^verbatim>\<open>parser\<close>, \<^verbatim>\<open>parseQuery\<close> and below in
  \<^verbatim>\<open>internal/cypher/engine.go\<close>).  The parser state is the token list and a position, passed
  explicitly; a syntax error is a value of \<open>perr\<close>, one constructor per error site with the
  values its message shows.  \<open>re_ok\<close> stands for "\<^verbatim>\<open>regexp.Compile\<close> accepts this pattern".
  The WHERE grammar is mutually recursive; its model takes fuel, and \<open>parseWhere\<close> supplies
  three units per token left and three more, which is proved to be enough.
\<close>

section \<open>Errors and parser state\<close>

datatype perr =
    ErrExpected string token
  | ErrOutboundOnly
  | ErrChainedEdge
  | ErrWhereAfterReturn
  | ErrMultiColumnOrderBy
  | ErrLimitMinus
  | ErrLimitKind token
  | ErrLimitFloat string
  | ErrLimitAtoi string
  | ErrLimitNegative int
  | ErrWithClause
  | ErrWriteKeyword string
  | ErrCommaPatterns
  | ErrDidYouMean string string
  | ErrUnexpected string
  | ErrNoMatch
  | ErrNoReturn
  | ErrCloseParen string
  | ErrRegex string
  | ErrInParens
  | ErrInBracket perr
  | ErrInEmpty
  | ErrInLiteral token
  | ErrInSeparator string
  | ErrNotEquals
  | ErrUnsupportedOp string "op_hint option"
  | ErrNeedsOperator string string string
  | ErrDistinctAggregate string
  | ErrCountDistinctStar
  | ErrCountDistinctVar string
  | ErrUnknownFunction string
  | ErrReturnStar
  | OutOfFuel

record parser =
  p_tokens :: "token list"
  p_pos :: nat

type_synonym 'a parsed = "perr + 'a \<times> parser"

definition peek :: "parser \<Rightarrow> token" where
  "peek p = (if p_pos p \<ge> length (p_tokens p) then eof_token else p_tokens p ! p_pos p)"

abbreviation peek_value :: "parser \<Rightarrow> string" where
  "peek_value p \<equiv> tok_value (peek p)"

abbreviation peek_kind :: "parser \<Rightarrow> tkind" where
  "peek_kind p \<equiv> tok_kind (peek p)"

definition advance :: "parser \<Rightarrow> parser" where
  "advance p = p\<lparr>p_pos := Suc (p_pos p)\<rparr>"

text \<open>\<^verbatim>\<open>next\<close> returns the current token and moves on, past the end too.\<close>

definition next_token :: "parser \<Rightarrow> token \<times> parser" where
  "next_token p = (peek p, advance p)"

definition skip :: "string \<Rightarrow> parser \<Rightarrow> parser" where
  "skip val p = (if peek_value p = val then advance p else p)"

definition expect :: "string \<Rightarrow> parser \<Rightarrow> perr + parser" where
  "expect val p = (if peek_value p \<noteq> val then Inl (ErrExpected val (peek p)) else Inr (advance p))"

text \<open>How many tokens are left: the measure of every loop of the parser.\<close>

definition left :: "parser \<Rightarrow> nat" where
  "left p = length (p_tokens p) - p_pos p"

section \<open>Progress\<close>

definition adv :: "parser \<Rightarrow> parser \<Rightarrow> bool" where
  "adv p p' \<longleftrightarrow> p_tokens p' = p_tokens p \<and> p_pos p \<le> p_pos p'"

definition sadv :: "parser \<Rightarrow> parser \<Rightarrow> bool" where
  "sadv p p' \<longleftrightarrow> p_tokens p' = p_tokens p \<and> p_pos p < p_pos p'"

lemma adv_refl [simp, parser_progress]: "adv p p"
  by (simp add: adv_def)

lemma adv_advance [simp, parser_progress]: "adv p (advance p)" "sadv p (advance p)"
  by (simp_all add: adv_def sadv_def advance_def)

lemma adv_trans [trans]: "adv p q \<Longrightarrow> adv q r \<Longrightarrow> adv p r"
  by (simp add: adv_def)

lemma sadv_trans [trans]: "sadv p q \<Longrightarrow> adv q r \<Longrightarrow> sadv p r" "adv p q \<Longrightarrow> sadv q r \<Longrightarrow> sadv p r"
  by (simp_all add: adv_def sadv_def)

lemma sadv_adv: "sadv p q \<Longrightarrow> adv p q"
  by (simp add: adv_def sadv_def)

lemma adv_skip [simp, parser_progress]: "adv p (skip v p)"
  by (simp add: skip_def)

lemma adv_expect [parser_progress]: "expect v p = Inr p' \<Longrightarrow> sadv p p'"
  by (auto simp: expect_def split: if_splits)

lemma next_token_simps [simp]:
  "fst (next_token p) = peek p" "snd (next_token p) = advance p"
  by (simp_all add: next_token_def)

lemma peek_in_range: "peek_kind p \<noteq> EOF \<or> peek_value p \<noteq> [] \<Longrightarrow> p_pos p < length (p_tokens p)"
  by (auto simp: peek_def split: if_splits)

lemma left_sadv: "sadv p p' \<Longrightarrow> p_pos p < length (p_tokens p) \<Longrightarrow> left p' < left p"
  by (auto simp: sadv_def left_def)

lemma left_adv: "adv p p' \<Longrightarrow> left p' \<le> left p"
  by (auto simp: adv_def left_def)

lemma left_advance: "p_pos p < length (p_tokens p) \<Longrightarrow> left (advance p) < left p"
  by (auto simp: advance_def left_def)

section \<open>Patterns\<close>

function parseProps_loop :: "(string \<times> string) list \<Rightarrow> parser \<Rightarrow> (string \<times> string) list \<times> parser" where
  "parseProps_loop props p =
     (if peek_value p \<noteq> ''}'' \<and> peek_kind p \<noteq> EOF then
        let key = peek_value p;
            p1 = skip '':'' (advance p);
            val = peek_value p1;
            p2 = skip '','' (advance p1)
        in parseProps_loop (AList.update key val props) p2
      else (props, p))"
  by pat_completeness auto

lemma adv_props_step: "sadv p (skip '','' (advance (skip '':'' (advance p))))"
  by (auto simp: skip_def advance_def sadv_def)

termination parseProps_loop
  by (relation "measure (\<lambda>(_, p). left p)")
    (auto intro!: left_sadv adv_props_step peek_in_range)

declare parseProps_loop.simps [simp del]

definition parseProps :: "parser \<Rightarrow> (string \<times> string) list parsed" where
  "parseProps p =
     (let (props, p1) = parseProps_loop [] (skip ''{'' p) in
      case expect ''}'' p1 of Inl e \<Rightarrow> Inl e | Inr p2 \<Rightarrow> Inr (props, p2))"

text \<open>One node, after its opening parenthesis: \<^verbatim>\<open>var:Kind {props})\<close>.\<close>

definition parseNode :: "parser \<Rightarrow> (string \<times> string \<times> (string \<times> string) list) parsed" where
  "parseNode p =
     (let var = peek_value p;
          p1 = advance p;
          (kind, p2) = (if peek_value p1 = '':''
                        then (peek_value (advance p1), advance (advance p1)) else ([], p1))
      in case (if peek_value p2 = ''{'' then parseProps p2 else Inr ([], p2)) of
           Inl e \<Rightarrow> Inl e
         | Inr (props, p3) \<Rightarrow>
             (case expect '')'' p3 of
                Inl e \<Rightarrow> Inl e
              | Inr p4 \<Rightarrow> Inr ((var, kind, props), p4)))"

function parseEdgeKinds :: "string list \<Rightarrow> parser \<Rightarrow> string list \<times> parser" where
  "parseEdgeKinds ks p =
     (if peek_kind p = IDENT then
        let ks' = ks @ [to_upper (peek_value p)]; p1 = advance p in
        if peek_value p1 = ''|'' then parseEdgeKinds ks' (advance p1) else (ks', p1)
      else (ks, p))"
  by pat_completeness auto

lemma sadv_advance2: "sadv p (advance (advance p))"
  by (simp add: sadv_def advance_def)

termination parseEdgeKinds
  by (relation "measure (\<lambda>(_, p). left p)")
    (auto intro!: left_sadv sadv_advance2 peek_in_range)

declare parseEdgeKinds.simps [simp del]

text \<open>The bracketed part of an edge, after \<^verbatim>\<open>[\<close>: variable, kinds, hops, \<^verbatim>\<open>]\<close>.\<close>

definition parseEdgeDetail :: "pattern \<Rightarrow> parser \<Rightarrow> pattern parsed" where
  "parseEdgeDetail pat p =
     (let (pat, p) = (if peek_kind p = IDENT
            then (pat\<lparr>pat_edgeVar := peek_value p\<rparr>, advance p) else (pat, p));
          (pat, p) = (if peek_value p = '':''
            then (let (ks, p') = parseEdgeKinds (pat_edgeKinds pat) (advance p)
                  in (pat\<lparr>pat_edgeKinds := ks\<rparr>, p'))
            else (pat, p));
          (pat, p) = (if peek_kind p = HOPS
            then (let (mn, mx, inv, cl) = parseHops (peek_value p)
                  in (pat\<lparr>pat_minHops := mn, pat_maxHops := mx, pat_invertedHops := inv,
                        pat_minHopsClamped := cl\<rparr>, advance p))
            else (pat, p))
      in case expect '']'' p of Inl e \<Rightarrow> Inl e | Inr p' \<Rightarrow> Inr (pat, p'))"

text \<open>The arrow after the bracket: \<^verbatim>\<open>->\<close>, \<^verbatim>\<open>- >\<close>, nothing, or an error.\<close>

definition parseArrow :: "pattern \<Rightarrow> parser \<Rightarrow> pattern parsed" where
  "parseArrow pat p =
     (if peek_value p = ''->'' then Inr (pat\<lparr>pat_directed := True\<rparr>, advance p)
      else if peek_value p = ''-'' then
        (let p1 = advance p in
         if peek_value p1 = ''>'' then Inr (pat\<lparr>pat_directed := True\<rparr>, advance p1)
         else Inl ErrOutboundOnly)
      else Inr (pat, p))"

definition parseTarget :: "pattern \<Rightarrow> parser \<Rightarrow> pattern parsed" where
  "parseTarget pat p =
     (if peek_value p = ''('' then
        (case parseNode (advance p) of
           Inl e \<Rightarrow> Inl e
         | Inr ((v, k, ps), p') \<Rightarrow>
             Inr (pat\<lparr>pat_toVar := v, pat_toKind := k, pat_toProps := ps\<rparr>, p'))
      else Inr (pat, p))"

definition empty_pattern :: pattern where
  "empty_pattern = \<lparr>pat_fromVar = [], pat_fromKind = [], pat_fromProps = [], pat_edgeVar = [],
     pat_edgeKinds = [], pat_minHops = 1, pat_maxHops = 1, pat_invertedHops = False,
     pat_minHopsClamped = False, pat_toVar = [], pat_toKind = [], pat_toProps = [],
     pat_directed = True\<rparr>"

definition parsePattern :: "parser \<Rightarrow> pattern parsed" where
  "parsePattern p =
     (case parseNode (skip ''('' p) of
        Inl e \<Rightarrow> Inl e
      | Inr ((v, k, ps), p1) \<Rightarrow>
          (let pat = empty_pattern\<lparr>pat_fromVar := v, pat_fromKind := k, pat_fromProps := ps\<rparr> in
           if peek_value p1 = ''-'' \<or> peek_value p1 = ''<'' then
             (let p2 = advance p1 in
              case (if peek_value p2 = ''['' then parseEdgeDetail pat (advance p2)
                    else Inr (pat, p2)) of
                Inl e \<Rightarrow> Inl e
              | Inr (pat', p3) \<Rightarrow>
                  (case parseArrow pat' p3 of
                     Inl e \<Rightarrow> Inl e
                   | Inr (pat'', p4) \<Rightarrow> parseTarget pat'' p4))
           else Inr (pat, p1)))"

section \<open>Conditions\<close>

definition read_value :: "string \<Rightarrow> condition \<Rightarrow> parser \<Rightarrow> condition \<times> parser" where
  "read_value op c p =
     (c\<lparr>c_op := op, c_value := normalizeConditionValue (peek p),
        c_valueKind := Some (peek_kind p)\<rparr>, advance p)"

definition is_in_literal :: "tkind \<Rightarrow> bool" where
  "is_in_literal k \<longleftrightarrow> k = STRING \<or> k = NUMBER \<or> k = KEYWORD \<or> k = IDENT"

function parseInList :: "condition \<Rightarrow> parser \<Rightarrow> condition parsed" where
  "parseInList c p =
     (let t = peek p; p1 = advance p in
      if \<not> is_in_literal (tok_kind t) then Inl (ErrInLiteral t)
      else
        let c' = c\<lparr>c_inValues := c_inValues c @ [normalizeConditionValue t],
                   c_valueKind := (if c_valueKind c = None then Some (tok_kind t)
                                   else c_valueKind c)\<rparr>;
            nx = peek_value p1
        in if nx = '','' then parseInList c' (advance p1)
           else if nx = '']'' then Inr (c', advance p1)
           else Inl (ErrInSeparator nx))"
  by pat_completeness auto
termination parseInList
  by (relation "measure (\<lambda>(_, p). left p)")
    (auto intro!: left_sadv sadv_advance2 peek_in_range simp: is_in_literal_def)

declare parseInList.simps [simp del]

definition comparison_ops :: "string list" where
  "comparison_ops = [''='', ''<>'', ''>'', ''<'', ''>='', ''<='']"

definition parseIn :: "condition \<Rightarrow> parser \<Rightarrow> condition parsed" where
  "parseIn c p =
     (if peek_value p = ''('' then Inl ErrInParens
      else case expect ''['' p of
        Inl e \<Rightarrow> Inl (ErrInBracket e)
      | Inr p1 \<Rightarrow>
          (if peek_value p1 = '']'' then Inl ErrInEmpty
           else parseInList (c\<lparr>c_op := ''IN''\<rparr>) p1))"

definition parseIs :: "condition \<Rightarrow> parser \<Rightarrow> condition parsed" where
  "parseIs c p =
     (if peek_value p = ''NOT''
      then Inr (c\<lparr>c_op := ''IS NOT NULL'', c_value := []\<rparr>, skip ''NULL'' (advance p))
      else Inr (c\<lparr>c_op := ''IS NULL'', c_value := []\<rparr>, skip ''NULL'' p))"

definition parseNoOperator :: "condition \<Rightarrow> parser \<Rightarrow> condition parsed" where
  "parseNoOperator c p =
     (let op = peek_value p in
      if c_property c \<noteq> [] \<and> isExpressionBoundary (peek p) then
        (if isBoolCol (cypherPropToCol (c_property c))
         then Inr (c\<lparr>c_op := ''='', c_value := ''1''\<rparr>, p)
         else Inl (ErrNeedsOperator (c_variable c) (c_property c) op))
      else Inl (ErrUnsupportedOp op (operatorHint op)))"

definition parseComparison :: "condition \<Rightarrow> parser \<Rightarrow> condition parsed" where
  "parseComparison c p =
     (let (c1, p1) = read_value (peek_value p) c (advance p) in
      if peek_value p1 = ''.'' then
        Inr (c1\<lparr>c_rhsVariable := c_value c1, c_rhsProperty := peek_value (advance p1),
               c_value := [], c_valueKind := None\<rparr>, advance (advance p1))
      else Inr (c1, p1))"

definition parseOneCondition :: "(string \<Rightarrow> bool) \<Rightarrow> parser \<Rightarrow> condition parsed" where
  "parseOneCondition re_ok p0 =
     (let c = empty_condition\<lparr>c_variable := peek_value p0\<rparr>;
          p1 = advance p0;
          (c, p) = (if peek_value p1 = ''.''
            then (c\<lparr>c_property := peek_value (advance p1)\<rparr>, advance (advance p1)) else (c, p1));
          op = peek_value p
      in
      if op \<in> set comparison_ops then parseComparison c p
      else if op = ''=~'' then
        (let (c1, p') = read_value op c (advance p) in
         if re_ok (c_value c1) then Inr (c1, p') else Inl (ErrRegex (c_value c1)))
      else if op = ''CONTAINS'' then Inr (read_value ''CONTAINS'' c (advance p))
      else if op = ''STARTS'' then Inr (read_value ''STARTS WITH'' c (skip ''WITH'' (advance p)))
      else if op = ''ENDS'' then Inr (read_value ''ENDS WITH'' c (skip ''WITH'' (advance p)))
      else if op = ''IS'' then parseIs c (advance p)
      else if op = ''IN'' then parseIn c (advance p)
      else if op = ''!'' then
        (if Suc (p_pos p) < length (p_tokens p) \<and> tok_value (p_tokens p ! Suc (p_pos p)) = ''=''
         then Inl ErrNotEquals else Inl (ErrUnsupportedOp op None))
      else parseNoOperator c p)"

section \<open>WHERE expressions\<close>

text \<open>
  \<^verbatim>\<open>parseFactor\<close> is split at its optional NOT: the atom is a parenthesised expression or a
  leaf condition.
\<close>

fun parseOrExpr :: "(string \<Rightarrow> bool) \<Rightarrow> nat \<Rightarrow> parser \<Rightarrow> whereExpr parsed"
  and parseOr_loop :: "(string \<Rightarrow> bool) \<Rightarrow> nat \<Rightarrow> whereExpr \<Rightarrow> parser \<Rightarrow> whereExpr parsed"
  and parseAndExpr :: "(string \<Rightarrow> bool) \<Rightarrow> nat \<Rightarrow> parser \<Rightarrow> whereExpr parsed"
  and parseAnd_loop :: "(string \<Rightarrow> bool) \<Rightarrow> nat \<Rightarrow> whereExpr \<Rightarrow> parser \<Rightarrow> whereExpr parsed"
  and parseFactor :: "(string \<Rightarrow> bool) \<Rightarrow> nat \<Rightarrow> parser \<Rightarrow> whereExpr parsed" where
  "parseOrExpr re_ok 0 p = Inl OutOfFuel"
| "parseOrExpr re_ok (Suc n) p =
     (case parseAndExpr re_ok n p of
        Inl e \<Rightarrow> Inl e
      | Inr (l, p1) \<Rightarrow> parseOr_loop re_ok n l p1)"
| "parseOr_loop re_ok 0 l p = Inl OutOfFuel"
| "parseOr_loop re_ok (Suc n) l p =
     (if peek_value p = ''OR'' then
        (case parseAndExpr re_ok n (advance p) of
           Inl e \<Rightarrow> Inl e
         | Inr (r, p1) \<Rightarrow> parseOr_loop re_ok n (BinaryExpr OR_op l r) p1)
      else Inr (l, p))"
| "parseAndExpr re_ok 0 p = Inl OutOfFuel"
| "parseAndExpr re_ok (Suc n) p =
     (case parseFactor re_ok n p of
        Inl e \<Rightarrow> Inl e
      | Inr (l, p1) \<Rightarrow> parseAnd_loop re_ok n l p1)"
| "parseAnd_loop re_ok 0 l p = Inl OutOfFuel"
| "parseAnd_loop re_ok (Suc n) l p =
     (if peek_value p = ''AND'' then
        (case parseFactor re_ok n (advance p) of
           Inl e \<Rightarrow> Inl e
         | Inr (r, p1) \<Rightarrow> parseAnd_loop re_ok n (BinaryExpr AND_op l r) p1)
      else Inr (l, p))"
| "parseFactor re_ok 0 p = Inl OutOfFuel"
| "parseFactor re_ok (Suc n) p0 =
     (let negated = (peek_value p0 = ''NOT'');
          p = (if negated then advance p0 else p0)
      in if peek_value p = ''('' then
           (case parseOrExpr re_ok n (advance p) of
              Inl e \<Rightarrow> Inl e
            | Inr (inner, p1) \<Rightarrow>
                (if peek_value p1 \<noteq> '')'' then Inl (ErrCloseParen (peek_value p1))
                 else Inr (if negated then NotExpr inner else inner, advance p1)))
         else
           (case parseOneCondition re_ok p of
              Inl e \<Rightarrow> Inl e
            | Inr (c, p1) \<Rightarrow> Inr (CondExpr (c\<lparr>c_negated := negated\<rparr>), p1)))"

definition parseWhere :: "(string \<Rightarrow> bool) \<Rightarrow> parser \<Rightarrow> whereExpr parsed" where
  "parseWhere re_ok p = parseOrExpr re_ok (3 * left p + 3) p"

section \<open>Progress of the sub-parsers\<close>

lemma adv_parseProps_loop [parser_progress]: "adv p (snd (parseProps_loop props p))"
proof (induction props p rule: parseProps_loop.induct)
  case (1 props p)
  show ?case
  proof (cases "peek_value p \<noteq> ''}'' \<and> peek_kind p \<noteq> EOF")
    case True
    then have "parseProps_loop props p =
        parseProps_loop (AList.update (peek_value p) (peek_value (skip '':'' (advance p))) props)
          (skip '','' (advance (skip '':'' (advance p))))"
      by (subst parseProps_loop.simps) (simp add: Let_def)
    with 1 [OF True refl refl refl refl]
    have "adv (skip '','' (advance (skip '':'' (advance p)))) (snd (parseProps_loop props p))"
      by simp
    with adv_props_step [of p] show ?thesis by (blast intro: sadv_trans sadv_adv)
  next
    case False
    then show ?thesis by (subst parseProps_loop.simps) auto
  qed
qed

lemma adv_parseProps [parser_progress]: "parseProps p = Inr (props, p') \<Longrightarrow> sadv p p'"
  using adv_parseProps_loop [of "skip ''{'' p" "[]"]
  by (auto simp: parseProps_def split: prod.splits sum.splits
      intro: sadv_trans(2) [OF adv_trans [OF adv_skip]] dest!: adv_expect)

lemma adv_parseNode [parser_progress]:
  assumes "parseNode p = Inr (r, p')"
  shows "sadv p p'"
proof -
  define p1 where "p1 = advance p"
  define p2 where "p2 = (if peek_value p1 = '':'' then advance (advance p1) else p1)"
  have 12: "adv p p2" by (simp add: p2_def p1_def adv_def advance_def)
  from assms obtain props p3 where
    3: "(if peek_value p2 = ''{'' then parseProps p2 else Inr ([], p2)) = Inr (props, p3)"
    and 4: "expect '')'' p3 = Inr p'"
    unfolding parseNode_def p2_def p1_def
    by (auto simp: Let_def split: sum.splits prod.splits if_splits)
  from 3 have "adv p2 p3" by (auto split: if_splits dest: adv_parseProps sadv_adv)
  with 12 adv_expect [OF 4] show ?thesis by (blast intro: sadv_trans adv_trans)
qed

lemma adv_parseEdgeKinds [parser_progress]: "adv p (snd (parseEdgeKinds ks p))"
proof (induction ks p rule: parseEdgeKinds.induct)
  case (1 ks p)
  show ?case
  proof (cases "peek_kind p = IDENT \<and> peek_value (advance p) = ''|''")
    case True
    then have "parseEdgeKinds ks p =
        parseEdgeKinds (ks @ [to_upper (peek_value p)]) (advance (advance p))"
      by (subst parseEdgeKinds.simps) (simp add: Let_def)
    with True 1 have "adv (advance (advance p)) (snd (parseEdgeKinds ks p))" by simp
    then show ?thesis by (blast intro: adv_trans sadv_adv sadv_advance2)
  next
    case False
    then show ?thesis by (subst parseEdgeKinds.simps) (auto simp: Let_def)
  qed
qed

lemma adv_if_advance: "adv p (if b then advance p else p)"
  by simp

lemma adv_parseEdgeDetail [parser_progress]:
  assumes "parseEdgeDetail pat p = Inr (pat', p')"
  shows "sadv p p'"
proof -
  define p1 where "p1 = (if peek_kind p = IDENT then advance p else p)"
  define ks where "ks = pat_edgeKinds (if peek_kind p = IDENT then pat\<lparr>pat_edgeVar := peek_value p\<rparr> else pat)"
  define p2 where "p2 = (if peek_value p1 = '':'' then snd (parseEdgeKinds ks (advance p1)) else p1)"
  define p3 where "p3 = (if peek_kind p2 = HOPS then advance p2 else p2)"
  have "adv p p1" "adv p2 p3" by (simp_all add: p1_def p3_def)
  moreover have "adv p1 p2"
    using adv_parseEdgeKinds [of "advance p1" ks]
    by (auto simp: p2_def intro: adv_trans [OF adv_advance(1)])
  moreover from assms have "expect '']'' p3 = Inr p'"
    unfolding parseEdgeDetail_def p3_def p2_def p1_def ks_def
    by (auto simp: Let_def split: sum.splits prod.splits if_splits)
  ultimately show ?thesis by (meson adv_expect adv_trans sadv_trans(2))
qed

lemma adv_parseArrow [parser_progress]: "parseArrow pat p = Inr (pat', p') \<Longrightarrow> adv p p'"
  by (auto simp: parseArrow_def Let_def adv_def advance_def split: if_splits)

lemma adv_parseTarget [parser_progress]: "parseTarget pat p = Inr (pat', p') \<Longrightarrow> adv p p'"
  by (auto simp: parseTarget_def split: if_splits sum.splits
      dest!: adv_parseNode intro: sadv_adv sadv_trans(2) [OF adv_advance(1)])

lemma adv_parsePattern [parser_progress]:
  assumes "parsePattern p = Inr (pat, p')"
  shows "sadv p p'"
proof -
  from assms obtain v k ps p1 where node: "parseNode (skip ''('' p) = Inr ((v, k, ps), p1)"
    by (auto simp: parsePattern_def split: sum.splits)
  then have 1: "sadv p p1" by (blast intro: sadv_trans adv_skip dest: adv_parseNode)
  have "adv p1 p'"
  proof (cases "peek_value p1 = ''-'' \<or> peek_value p1 = ''<''")
    case True
    define pat0 where "pat0 = empty_pattern\<lparr>pat_fromVar := v, pat_fromKind := k, pat_fromProps := ps\<rparr>"
    define p2 where "p2 = advance p1"
    from assms node True obtain pat1 p3 pat2 p4 where
      *: "(if peek_value p2 = ''['' then parseEdgeDetail pat0 (advance p2) else Inr (pat0, p2)) = Inr (pat1, p3)"
      "parseArrow pat1 p3 = Inr (pat2, p4)" "parseTarget pat2 p4 = Inr (pat, p')"
      unfolding parsePattern_def p2_def pat0_def by (auto simp: Let_def split: sum.splits)
    have "adv p2 p3"
      using *(1) by (auto split: if_splits dest!: adv_parseEdgeDetail
          intro: sadv_adv sadv_trans(2) [OF adv_advance(1)])
    with *(2,3) show ?thesis
      by (metis adv_advance(1) adv_parseArrow adv_parseTarget adv_trans p2_def)
  next
    case False
    with assms node show ?thesis by (auto simp: parsePattern_def Let_def)
  qed
  with 1 show ?thesis by (rule sadv_trans)
qed

lemma adv_parseInList [parser_progress]: "parseInList c p = Inr (c', p') \<Longrightarrow> sadv p p'"
proof (induction c p rule: parseInList.induct)
  case (1 c p)
  from "1.prems" have lit: "is_in_literal (peek_kind p)"
    by (subst (asm) parseInList.simps) (auto simp: Let_def split: if_splits)
  show ?case
  proof (cases "peek_value (advance p) = '',''")
    case True
    with lit "1.prems" obtain c'' where "parseInList c'' (advance (advance p)) = Inr (c', p')"
      and "c'' = c\<lparr>c_inValues := c_inValues c @ [normalizeConditionValue (peek p)],
                   c_valueKind := (if c_valueKind c = None then Some (peek_kind p)
                                   else c_valueKind c)\<rparr>"
      by (subst (asm) parseInList.simps) (auto simp: Let_def)
    with 1 lit True have "sadv (advance (advance p)) p'" by simp
    with sadv_advance2 [of p] show ?thesis by (blast intro: sadv_trans sadv_adv)
  next
    case False
    with lit "1.prems" sadv_advance2 [of p] show ?thesis
      by (subst (asm) parseInList.simps) (auto simp: Let_def split: if_splits)
  qed
qed

lemma adv_read_value [parser_progress]: "read_value op c p = (c', p') \<Longrightarrow> sadv p p'"
  by (auto simp: read_value_def)

lemma adv_parseIn [parser_progress]: "parseIn c p = Inr (c', p') \<Longrightarrow> sadv p p'"
  by (auto simp: parseIn_def split: if_splits sum.splits dest!: adv_expect adv_parseInList
      intro: sadv_trans(2) sadv_adv)

lemma adv_parseIs [parser_progress]: "parseIs c p = Inr (c', p') \<Longrightarrow> adv p p'"
  by (auto simp: parseIs_def split: if_splits intro: adv_trans [OF adv_advance(1)])

lemma adv_parseComparison [parser_progress]: "parseComparison c p = Inr (c', p') \<Longrightarrow> sadv p p'"
  by (auto simp: parseComparison_def read_value_def Let_def sadv_def advance_def split: if_splits)

lemma adv_parseNoOperator [parser_progress]: "parseNoOperator c p = Inr (c', p') \<Longrightarrow> p' = p"
  by (auto simp: parseNoOperator_def Let_def split: if_splits)

text \<open>The part of \<^const>\<open>parseOneCondition\<close> after the variable and the property.\<close>

lemma parseOneCondition_cases:
  assumes "parseOneCondition re_ok p0 = Inr (c', p')"
  obtains (step) c p where "sadv p0 p"
    "parseComparison c p = Inr (c', p') \<or>
     (\<exists>op q. adv p q \<and> read_value op c q = (c', p')) \<or>
     parseIs c (advance p) = Inr (c', p') \<or> parseIn c (advance p) = Inr (c', p') \<or>
     parseNoOperator c p = Inr (c', p')"
proof -
  define p1 where "p1 = advance p0"
  define c p where
    "c = (if peek_value p1 = ''.'' then empty_condition\<lparr>c_variable := peek_value p0,
              c_property := peek_value (advance p1)\<rparr> else empty_condition\<lparr>c_variable := peek_value p0\<rparr>)"
    and "p = (if peek_value p1 = ''.'' then advance (advance p1) else p1)"
  have "sadv p0 p" by (simp add: p_def p1_def sadv_def advance_def)
  moreover have "adv p (advance p)" "adv p (skip ''WITH'' (advance p))"
    by (auto intro: adv_trans [OF adv_advance(1)])
  then have "parseComparison c p = Inr (c', p') \<or>
     (\<exists>op q. adv p q \<and> read_value op c q = (c', p')) \<or>
     parseIs c (advance p) = Inr (c', p') \<or> parseIn c (advance p) = Inr (c', p') \<or>
     parseNoOperator c p = Inr (c', p')"
    using assms unfolding parseOneCondition_def c_def p_def p1_def
    by (auto simp: Let_def split: if_splits prod.splits)
  ultimately show thesis by (rule step)
qed

lemma adv_parseOneCondition [parser_progress]:
  assumes "parseOneCondition re_ok p0 = Inr (c', p')"
  shows "sadv p0 p'"
  using assms
proof (cases rule: parseOneCondition_cases)
  case (step c p)
  then have "adv p p'"
    by (auto dest: adv_parseComparison adv_read_value adv_parseIs adv_parseIn adv_parseNoOperator
        intro: sadv_adv adv_trans [OF adv_advance(1)] adv_trans)
  with step show ?thesis by (blast intro: sadv_trans)
qed

text \<open>The two loops that join operands make progress by the same argument.\<close>

lemma adv_layer_loop:
  assumes "(if b then (case operand (advance p) of Inl e \<Rightarrow> Inl e | Inr (r, p1) \<Rightarrow> loop (f r) p1)
          else Inr (l, p)) = Inr (e, p')"
    and "\<And>p e p'. operand p = Inr (e, p') \<Longrightarrow> sadv p p'"
    and "\<And>l p e p'. loop l p = Inr (e, p') \<Longrightarrow> adv p p'"
  shows "adv p p'"
proof (cases b)
  case True
  with assms(1) have "sadv (advance p) p'"
    by (auto split: sum.splits dest!: assms(2,3) intro: sadv_trans)
  then show ?thesis by (blast intro: sadv_adv sadv_trans adv_advance)
qed (use assms(1) in auto)

lemma adv_factor:
  assumes "\<And>p e p'. parseOrExpr re n p = Inr (e, p') \<Longrightarrow> sadv p p'"
    and "parseFactor re (Suc n) p0 = Inr (e, p')"
  shows "sadv p0 p'"
proof -
  define p where "p = (if peek_value p0 = ''NOT'' then advance p0 else p0)"
  have "adv p0 p" by (simp add: p_def)
  moreover have "sadv p p'"
  proof (cases "peek_value p = ''(''")
    case True
    with assms(2) obtain inner p1 where "parseOrExpr re n (advance p) = Inr (inner, p1)"
      "p' = advance p1" by (auto simp: Let_def p_def [symmetric] split: sum.splits if_splits)
    then have "sadv (advance p) p'" using assms(1) by (blast intro: sadv_trans adv_advance)
    then show ?thesis by (blast intro: sadv_trans adv_advance)
  next
    case False
    with assms(2) obtain c where "parseOneCondition re p = Inr (c, p')"
      by (auto simp: Let_def p_def [symmetric] split: sum.splits)
    then show ?thesis by (rule adv_parseOneCondition)
  qed
  ultimately show ?thesis by (rule sadv_trans(2))
qed

lemma adv_where:
  "(\<forall>p e p'. parseOrExpr re n p = Inr (e, p') \<longrightarrow> sadv p p') \<and>
   (\<forall>l p e p'. parseOr_loop re n l p = Inr (e, p') \<longrightarrow> adv p p') \<and>
   (\<forall>p e p'. parseAndExpr re n p = Inr (e, p') \<longrightarrow> sadv p p') \<and>
   (\<forall>l p e p'. parseAnd_loop re n l p = Inr (e, p') \<longrightarrow> adv p p') \<and>
   (\<forall>p e p'. parseFactor re n p = Inr (e, p') \<longrightarrow> sadv p p')"
proof (induction n)
  case (Suc n)
  then have IH: "\<And>p e p'. parseOrExpr re n p = Inr (e, p') \<Longrightarrow> sadv p p'"
    "\<And>l p e p'. parseOr_loop re n l p = Inr (e, p') \<Longrightarrow> adv p p'"
    "\<And>p e p'. parseAndExpr re n p = Inr (e, p') \<Longrightarrow> sadv p p'"
    "\<And>l p e p'. parseAnd_loop re n l p = Inr (e, p') \<Longrightarrow> adv p p'"
    "\<And>p e p'. parseFactor re n p = Inr (e, p') \<Longrightarrow> sadv p p'" by blast+
  have "sadv p p'" if "parseOrExpr re (Suc n) p = Inr (e, p')" for p e p'
    using that unfolding parseOrExpr.simps
    by (auto split: sum.splits dest!: IH(3,2) intro: sadv_trans)
  moreover have "adv p p'" if "parseOr_loop re (Suc n) l p = Inr (e, p')" for l p e p'
    using that unfolding parseOr_loop.simps 
    by (rule adv_layer_loop [where loop = "parseOr_loop re n"]) (blast dest: IH)+
  moreover have "sadv p p'" if "parseAndExpr re (Suc n) p = Inr (e, p')" for p e p'
    using that unfolding parseAndExpr.simps
    by (auto split: sum.splits dest!: IH(5,4) intro: sadv_trans)
  moreover have "adv p p'" if "parseAnd_loop re (Suc n) l p = Inr (e, p')" for l p e p'
    using that unfolding parseAnd_loop.simps 
    by (rule adv_layer_loop [where loop = "parseAnd_loop re n"]) (blast dest: IH)+
  moreover have "sadv p p'" if "parseFactor re (Suc n) p = Inr (e, p')" for p e p'
    by (rule adv_factor [OF _ that]) (rule IH(1))
  ultimately show ?case by blast
qed simp

lemmas adv_parseOrExpr = adv_where [THEN conjunct1, rule_format]

lemma adv_parseWhere [parser_progress]: "parseWhere re p = Inr (e, p') \<Longrightarrow> sadv p p'"
  unfolding parseWhere_def by (rule adv_parseOrExpr)

section \<open>RETURN\<close>

text \<open>
  An aggregate projection after its opening parenthesis: the DISTINCT modifier, the argument
  (\<^verbatim>\<open>*\<close> is an empty HOPS token), the three DISTINCT restrictions, the closing parenthesis.
\<close>

definition parseAggregate :: "string \<Rightarrow> parser \<Rightarrow> returnVar parsed" where
  "parseAggregate fn p =
     (let distinct = (peek_kind p = KEYWORD \<and> peek_value p = ''DISTINCT'') in
      if distinct \<and> fn \<noteq> ''COUNT'' then Inl (ErrDistinctAggregate fn)
      else
        let p1 = (if distinct then advance p else p);
            (var, prop, p2) =
              (if peek_kind p1 = HOPS \<and> peek_value p1 = [] then (''*'', [], advance p1)
               else if peek_value (advance p1) = ''.''
                 then (peek_value p1, peek_value (advance (advance p1)),
                       advance (advance (advance p1)))
               else (peek_value p1, [], advance p1));
            rv = empty_returnVar\<lparr>rv_fn := fn, rv_distinct := distinct, rv_variable := var,
                   rv_property := prop\<rparr>
        in if distinct \<and> var = ''*'' then Inl ErrCountDistinctStar
           else if distinct \<and> prop = [] then Inl (ErrCountDistinctVar var)
           else case expect '')'' p2 of Inl e \<Rightarrow> Inl e | Inr p3 \<Rightarrow> Inr (rv, p3))"

definition parsePlainReturn :: "parser \<Rightarrow> returnVar parsed" where
  "parsePlainReturn p =
     (let t = peek p; p1 = advance p in
      if peek_value p1 = ''('' then Inl (ErrUnknownFunction (tok_value t))
      else if tok_kind t = HOPS \<or> tok_value t = [] then Inl ErrReturnStar
      else if peek_value p1 = ''.''
        then Inr (empty_returnVar\<lparr>rv_variable := tok_value t,
                    rv_property := peek_value (advance p1)\<rparr>, advance (advance p1))
      else Inr (empty_returnVar\<lparr>rv_variable := tok_value t\<rparr>, p1))"

definition parseReturnItem :: "parser \<Rightarrow> returnVar parsed" where
  "parseReturnItem p =
     (case (if isAggFn (peek_value p)
            then parseAggregate (to_upper (peek_value p)) (skip ''('' (advance p))
            else parsePlainReturn p) of
        Inl e \<Rightarrow> Inl e
      | Inr (rv, p1) \<Rightarrow>
          (if peek_value p1 = ''AS''
           then Inr (rv\<lparr>rv_alias := peek_value (advance p1)\<rparr>, advance (advance p1))
           else Inr (rv, p1)))"

lemma adv_parseAggregate [parser_progress]:
  "parseAggregate fn p = Inr (rv, p') \<Longrightarrow> sadv p p'"
  by (auto simp: parseAggregate_def Let_def expect_def sadv_def advance_def split: if_splits sum.splits)

lemma adv_parsePlainReturn [parser_progress]: "parsePlainReturn p = Inr (rv, p') \<Longrightarrow> sadv p p'"
  by (auto simp: parsePlainReturn_def Let_def sadv_def advance_def split: if_splits)

lemma adv_parseReturnItem [parser_progress]:
  assumes "parseReturnItem p = Inr (rv, p')"
  shows "sadv p p'"
proof -
  from assms obtain rv1 p1 where
    1: "(if isAggFn (peek_value p)
         then parseAggregate (to_upper (peek_value p)) (skip ''('' (advance p))
         else parsePlainReturn p) = Inr (rv1, p1)" and "adv p1 p'"
    by (auto simp: parseReturnItem_def adv_def advance_def split: sum.splits if_splits)
  moreover from 1 have "sadv p p1"
    by (auto split: if_splits dest!: adv_parseAggregate adv_parsePlainReturn
        intro: sadv_trans(2) [OF adv_trans [OF adv_advance(1) adv_skip]])
  ultimately show ?thesis by (blast intro: sadv_trans)
qed

definition ends_return :: "string \<Rightarrow> bool" where
  "ends_return v \<longleftrightarrow> v \<in> set [''WHERE'', ''ORDER'', ''LIMIT'', ''MATCH'']"

lemma left_comma: "sadv p q \<Longrightarrow> peek_value q = '','' \<Longrightarrow> left (advance q) < left p"
  by (rule less_le_trans [OF left_advance left_adv]) (auto intro: peek_in_range sadv_adv)

function parseReturn :: "returnVar list \<Rightarrow> parser \<Rightarrow> returnVar list parsed" where
  "parseReturn vars p =
     (case parseReturnItem p of
        Inl e \<Rightarrow> Inl e
      | Inr (rv, p1) \<Rightarrow>
          (let vars' = vars @ [rv] in
           if peek_value p1 \<noteq> '','' then Inr (vars', p1)
           else if ends_return (peek_value (advance p1)) then Inr (vars', advance p1)
           else parseReturn vars' (advance p1)))"
  by pat_completeness auto
termination parseReturn
  by (relation "measure (\<lambda>(_, p). left p)")
    (auto intro!: left_comma dest!: adv_parseReturnItem)

declare parseReturn.simps [simp del]

lemma adv_parseReturn [parser_progress]: "parseReturn vars p = Inr (rvs, p') \<Longrightarrow> sadv p p'"
proof (induction vars p rule: parseReturn.induct)
  case (1 vars p)
  from "1.prems" obtain rv p1 where item: "parseReturnItem p = Inr (rv, p1)"
    by (subst (asm) parseReturn.simps) (auto split: sum.splits)
  then have p1: "sadv p p1" by (rule adv_parseReturnItem)
  then have p2: "sadv p (advance p1)" by (blast intro: sadv_trans adv_advance)
  show ?case
  proof (cases "peek_value p1 = '','' \<and> \<not> ends_return (peek_value (advance p1))")
    case True
    with item "1.prems" have "parseReturn (vars @ [rv]) (advance p1) = Inr (rvs, p')"
      by (subst (asm) parseReturn.simps) (simp add: Let_def)
    with 1 True item have "sadv (advance p1) p'" by auto
    with p2 show ?thesis by (blast intro: sadv_trans sadv_adv)
  next
    case False
    with item "1.prems" p1 p2 show ?thesis
      by (subst (asm) parseReturn.simps) (auto simp: Let_def split: if_splits)
  qed
qed

section \<open>Clauses\<close>

record qstate =
  qs_q :: queryAST
  qs_seenReturn :: bool

definition empty_query :: queryAST where
  "empty_query = \<lparr>q_patterns = [], q_conditions = [], q_where = None, q_returnVars = [],
     q_orderBy = [], q_orderDir = [], q_limit = - 1, q_distinct = False\<rparr>"

text \<open>Each clause parser starts after its keyword, which \<open>parseClause\<close> has consumed.\<close>

definition clauseMatch :: "qstate \<Rightarrow> parser \<Rightarrow> qstate parsed" where
  "clauseMatch st p =
     (case parsePattern p of
        Inl e \<Rightarrow> Inl e
      | Inr (pat, p1) \<Rightarrow>
          (if peek_value p1 = ''-'' \<or> peek_value p1 = ''<'' then Inl ErrChainedEdge
           else Inr (st\<lparr>qs_q := (qs_q st)\<lparr>q_patterns := q_patterns (qs_q st) @ [pat]\<rparr>\<rparr>, p1)))"

definition add_where :: "whereExpr \<Rightarrow> queryAST \<Rightarrow> queryAST" where
  "add_where e q =
     (let w = (case q_where q of None \<Rightarrow> e | Some w0 \<Rightarrow> BinaryExpr AND_op w0 e) in
      q\<lparr>q_where := Some w,
        q_conditions := (case flattenWhere w of Some flat \<Rightarrow> flat | None \<Rightarrow> [])\<rparr>)"

definition clauseWhere :: "(string \<Rightarrow> bool) \<Rightarrow> qstate \<Rightarrow> parser \<Rightarrow> qstate parsed" where
  "clauseWhere re_ok st p =
     (case parseWhere re_ok p of
        Inl e \<Rightarrow> Inl e
      | Inr (e, p1) \<Rightarrow> Inr (st\<lparr>qs_q := add_where e (qs_q st)\<rparr>, p1))"

definition clauseReturn :: "qstate \<Rightarrow> parser \<Rightarrow> qstate parsed" where
  "clauseReturn st p =
     (let dist = (peek_value p = ''DISTINCT'');
          q = (if dist then (qs_q st)\<lparr>q_distinct := True\<rparr> else qs_q st);
          p1 = (if dist then advance p else p)
      in case parseReturn [] p1 of
           Inl e \<Rightarrow> Inl e
         | Inr (vars, p2) \<Rightarrow>
             Inr (\<lparr>qs_q = q\<lparr>q_returnVars := vars\<rparr>, qs_seenReturn = True\<rparr>, p2))"

text \<open>The sort key after ORDER BY: \<^verbatim>\<open>FN(arg)\<close>, \<^verbatim>\<open>var.prop\<close> or a bare name.\<close>

definition dotted :: "parser \<Rightarrow> string \<times> parser" where
  "dotted p =
     (let v = peek_value p; p1 = advance p in
      if peek_value p1 = ''.''
      then (v @ ''.'' @ peek_value (advance p1), advance (advance p1)) else (v, p1))"

definition parseOrderKey :: "parser \<Rightarrow> string parsed" where
  "parseOrderKey p =
     (if isAggFn (peek_value p) then
        (let fn = to_upper (peek_value p);
             p1 = skip ''('' (advance p);
             (v, p2) = (if peek_kind p1 = HOPS \<and> peek_value p1 = [] then (''*'', advance p1)
                        else dotted p1)
         in case expect '')'' p2 of
              Inl e \<Rightarrow> Inl e
            | Inr p3 \<Rightarrow> Inr (fn @ ''('' @ v @ '')'', p3))
      else Inr (dotted p))"

definition clauseOrder :: "qstate \<Rightarrow> parser \<Rightarrow> qstate parsed" where
  "clauseOrder st p =
     (case parseOrderKey (skip ''BY'' p) of
        Inl e \<Rightarrow> Inl e
      | Inr (key, p1) \<Rightarrow>
          (let q = (qs_q st)\<lparr>q_orderBy := key\<rparr>;
               (q, p2) = (if peek_value p1 = ''DESC'' then (q\<lparr>q_orderDir := ''DESC''\<rparr>, advance p1)
                          else if peek_value p1 = ''ASC'' then (q, advance p1) else (q, p1))
           in if peek_value p2 = '','' then Inl ErrMultiColumnOrderBy
              else Inr (st\<lparr>qs_q := q\<rparr>, p2)))"

definition clauseLimit :: "qstate \<Rightarrow> parser \<Rightarrow> qstate parsed" where
  "clauseLimit st p =
     (let t = peek p in
      if tok_value t = ''-'' then Inl ErrLimitMinus
      else if tok_kind t \<noteq> NUMBER then Inl (ErrLimitKind t)
      else if contains_any (tok_value t) ''.eE'' then Inl (ErrLimitFloat (tok_value t))
      else let (n, err) = atoi (tok_value t) in
        if err then Inl (ErrLimitAtoi (tok_value t))
        else if n < 0 then Inl (ErrLimitNegative n)
        else Inr (st\<lparr>qs_q := (qs_q st)\<lparr>q_limit := n\<rparr>\<rparr>, advance p))"

definition clauseUnknown :: "string \<Rightarrow> perr" where
  "clauseUnknown bad =
     (if isCypherWriteKeyword bad then ErrWriteKeyword bad
      else if bad = '','' then ErrCommaPatterns
      else if nearestClauseKeyword bad \<noteq> [] then ErrDidYouMean bad (nearestClauseKeyword bad)
      else ErrUnexpected bad)"

definition parseClause :: "(string \<Rightarrow> bool) \<Rightarrow> qstate \<Rightarrow> parser \<Rightarrow> qstate parsed" where
  "parseClause re_ok st p =
     (let v = peek_value p in
      if v = ''MATCH'' then clauseMatch st (advance p)
      else if v = ''WHERE'' then
        (if qs_seenReturn st then Inl ErrWhereAfterReturn else clauseWhere re_ok st (advance p))
      else if v = ''RETURN'' then clauseReturn st (advance p)
      else if v = ''ORDER'' then clauseOrder st (advance p)
      else if v = ''LIMIT'' then clauseLimit st (advance p)
      else if v = ''WITH'' then Inl ErrWithClause
      else Inl (clauseUnknown v))"

lemma adv_clauseMatch [parser_progress]: "clauseMatch st p = Inr (st', p') \<Longrightarrow> sadv p p'"
  by (auto simp: clauseMatch_def split: sum.splits if_splits dest: adv_parsePattern)

lemma adv_clauseWhere [parser_progress]: "clauseWhere re st p = Inr (st', p') \<Longrightarrow> sadv p p'"
  by (auto simp: clauseWhere_def split: sum.splits dest: adv_parseWhere)

lemma adv_clauseReturn [parser_progress]: "clauseReturn st p = Inr (st', p') \<Longrightarrow> sadv p p'"
  by (auto simp: clauseReturn_def Let_def split: sum.splits if_splits
      dest!: adv_parseReturn intro: sadv_trans(2) [OF adv_advance(1)])

lemma adv_dotted: "dotted p = (v, p') \<Longrightarrow> sadv p p'"
  by (auto simp: dotted_def Let_def sadv_def advance_def split: if_splits)

lemma adv_parseOrderKey [parser_progress]: "parseOrderKey p = Inr (k, p') \<Longrightarrow> sadv p p'"
  by (auto simp: parseOrderKey_def Let_def split: sum.splits prod.splits if_splits
      dest!: adv_dotted adv_expect sadv_adv
      intro: sadv_trans(2) adv_trans sadv_trans(1) [OF adv_advance(2)] adv_skip adv_advance)

lemma adv_clauseOrder [parser_progress]: "clauseOrder st p = Inr (st', p') \<Longrightarrow> sadv p p'"
  by (auto simp: clauseOrder_def Let_def split: sum.splits if_splits
      dest!: adv_parseOrderKey sadv_trans(2) [OF adv_skip]
      intro: sadv_trans(1) [OF _ adv_advance(1)])

lemma adv_clauseLimit [parser_progress]: "clauseLimit st p = Inr (st', p') \<Longrightarrow> sadv p p'"
  by (auto simp: clauseLimit_def Let_def split: if_splits prod.splits)

lemma adv_parseClause [parser_progress]:
  assumes "parseClause re st p = Inr (st', p')"
  shows "sadv p p'"
proof -
  from assms have "sadv (advance p) p'"
    unfolding parseClause_def Let_def
    by (auto split: if_splits dest: adv_clauseMatch adv_clauseWhere adv_clauseReturn
        adv_clauseOrder adv_clauseLimit)
  then show ?thesis by (blast intro: sadv_trans adv_advance)
qed

section \<open>Queries\<close>

function parseQuery_loop :: "(string \<Rightarrow> bool) \<Rightarrow> qstate \<Rightarrow> parser \<Rightarrow> perr + queryAST" where
  "parseQuery_loop re_ok st p =
     (if p_pos p < length (p_tokens p) then
        (case parseClause re_ok st p of
           Inl e \<Rightarrow> Inl e
         | Inr (st', p') \<Rightarrow> parseQuery_loop re_ok st' p')
      else Inr (qs_q st))"
  by pat_completeness auto
termination parseQuery_loop
  by (relation "measure (\<lambda>(_, _, p). left p)") (auto intro!: left_sadv dest: adv_parseClause)

declare parseQuery_loop.simps [simp del]

definition parseQuery :: "(string \<Rightarrow> bool) \<Rightarrow> parser \<Rightarrow> perr + queryAST" where
  "parseQuery re_ok p =
     (case parseQuery_loop re_ok \<lparr>qs_q = empty_query, qs_seenReturn = False\<rparr> p of
        Inl e \<Rightarrow> Inl e
      | Inr q \<Rightarrow>
          (if q_patterns q = [] then Inl ErrNoMatch
           else if q_returnVars q = [] then Inl ErrNoReturn
           else Inr q))"

definition parse :: "(string \<Rightarrow> bool) \<Rightarrow> string \<Rightarrow> (perr + queryAST) option" where
  "parse re_ok query =
     map_option (\<lambda>ts. parseQuery re_ok \<lparr>p_tokens = ts, p_pos = 0\<rparr>) (tokenize query)"

end
