(* ===== verification/Cypher_Roundtrip.thy ===== *)
theory Cypher_Roundtrip
  imports Cypher_Parser_Props
begin

text \<open>
  Printing a WHERE tree as tokens, with the fewest parentheses the grammar allows, and parsing it
  back.  The round trip pins down precedence (AND binds tighter than OR), associativity (both to
  the left), the two meanings of NOT and every operator of \<^const>\<open>parseOneCondition\<close>.
\<close>

section \<open>Printing\<close>

definition value_token :: "condition \<Rightarrow> string \<Rightarrow> token" where
  "value_token c v = tok (case c_valueKind c of Some k \<Rightarrow> k | None \<Rightarrow> STRING) v"

fun print_list :: "condition \<Rightarrow> string list \<Rightarrow> token list" where
  "print_list c [] = []"
| "print_list c [v] = [value_token c v, tok PUNCT '']'']"
| "print_list c (v # w # vs) = [value_token c v, tok PUNCT '',''] @ print_list c (w # vs)"

definition print_op :: "condition \<Rightarrow> token list" where
  "print_op c =
     (if c_op c = ''STARTS WITH''
        then [tok KEYWORD ''STARTS'', tok KEYWORD ''WITH'', value_token c (c_value c)]
      else if c_op c = ''ENDS WITH''
        then [tok KEYWORD ''ENDS'', tok KEYWORD ''WITH'', value_token c (c_value c)]
      else if c_op c = ''CONTAINS'' then [tok KEYWORD ''CONTAINS'', value_token c (c_value c)]
      else if c_op c = ''IS NULL'' then [tok KEYWORD ''IS'', tok KEYWORD ''NULL'']
      else if c_op c = ''IS NOT NULL''
        then [tok KEYWORD ''IS'', tok KEYWORD ''NOT'', tok KEYWORD ''NULL'']
      else if c_op c = ''IN''
        then [tok KEYWORD ''IN'', tok PUNCT ''[''] @ print_list c (c_inValues c)
      else if c_rhsVariable c \<noteq> []
        then [tok PUNCT (c_op c), tok IDENT (c_rhsVariable c), tok PUNCT ''.'',
              tok IDENT (c_rhsProperty c)]
      else [tok PUNCT (c_op c), value_token c (c_value c)])"

definition print_cond :: "condition \<Rightarrow> token list" where
  "print_cond c =
     [tok IDENT (c_variable c), tok PUNCT ''.'', tok IDENT (c_property c)] @ print_op c"

definition parens :: "bool \<Rightarrow> token list \<Rightarrow> token list" where
  "parens b ts = (if b then [tok PUNCT ''(''] @ ts @ [tok PUNCT '')''] else ts)"

text \<open>Level 0 is the operand of nothing, 1 an operand of OR, 2 a right operand of AND.\<close>

fun print_where :: "nat \<Rightarrow> whereExpr \<Rightarrow> token list" where
  "print_where l (CondExpr c) = (if c_negated c then [tok KEYWORD ''NOT''] else []) @ print_cond c"
| "print_where l (NotExpr e) = [tok KEYWORD ''NOT''] @ parens True (print_where 0 e)"
| "print_where l (BinaryExpr OR_op a b) =
     parens (l > 0) (print_where 0 a @ [tok KEYWORD ''OR''] @ print_where 1 b)"
| "print_where l (BinaryExpr AND_op a b) =
     parens (l > 1) (print_where 1 a @ [tok KEYWORD ''AND''] @ print_where 2 b)"

text \<open>
  The conditions the parser can build from identifiers and literals: an operand of a plain literal
  kind, a reference to another property, a NULL test, or a list.
\<close>

definition literal_kind :: "tkind option \<Rightarrow> bool" where
  "literal_kind k \<longleftrightarrow> k \<in> set [Some STRING, Some NUMBER, Some IDENT]"

definition no_rhs :: "condition \<Rightarrow> bool" where
  "no_rhs c \<longleftrightarrow> c_rhsVariable c = [] \<and> c_rhsProperty c = []"

definition printable_cond :: "(string \<Rightarrow> bool) \<Rightarrow> condition \<Rightarrow> bool" where
  "printable_cond re c \<longleftrightarrow>
     c_variable c \<noteq> ''NOT'' \<and> c_variable c \<noteq> ''('' \<and> c_connector c = [] \<and>
     (if c_op c = ''IN''
      then c_inValues c \<noteq> [] \<and> hd (c_inValues c) \<noteq> '']'' \<and> literal_kind (c_valueKind c) \<and>
           no_rhs c \<and> c_value c = []
      else c_inValues c = [] \<and>
        (if c_op c \<in> set [''IS NULL'', ''IS NOT NULL'']
         then no_rhs c \<and> c_valueKind c = None \<and> c_value c = []
         else if c_op c \<in> set [''=~'', ''CONTAINS'', ''STARTS WITH'', ''ENDS WITH'']
         then no_rhs c \<and> literal_kind (c_valueKind c) \<and> (c_op c = ''=~'' \<longrightarrow> re (c_value c))
         else c_op c \<in> set comparison_ops \<and>
           (if c_rhsVariable c \<noteq> [] then c_value c = [] \<and> c_valueKind c = None
            else no_rhs c \<and> literal_kind (c_valueKind c))))"

definition printable :: "(string \<Rightarrow> bool) \<Rightarrow> whereExpr \<Rightarrow> bool" where
  "printable re w = list_all (printable_cond re) (where_leaves w)"

lemma printable_simps [simp]:
  "printable re (CondExpr c) = printable_cond re c"
  "printable re (BinaryExpr op a b) = (printable re a \<and> printable re b)"
  "printable re (NotExpr a) = printable re a"
  by (auto simp: printable_def)

section \<open>The unread tokens\<close>

definition unread :: "parser \<Rightarrow> token list" where
  "unread p = drop (p_pos p) (p_tokens p)"

definition advances :: "nat \<Rightarrow> parser \<Rightarrow> parser" where
  "advances n p = p\<lparr>p_pos := p_pos p + n\<rparr>"

lemma peek_unread: "peek p = (case unread p of [] \<Rightarrow> eof_token | t # _ \<Rightarrow> t)"
  by (auto simp: peek_def unread_def drop_eq_Nil hd_drop_conv_nth [symmetric] split: list.split)

lemma unread_advance [simp]: "unread (advance p) = tl (unread p)"
  by (simp add: unread_def advance_def drop_Suc tl_drop)

lemma unread_advances [simp]: "unread (advances n p) = drop n (unread p)"
  by (simp add: unread_def advances_def add.commute)

lemma advance_advances [simp]: "advance (advances n p) = advances (Suc n) p"
  "advances n (advance p) = advances (Suc n) p"
  by (simp_all add: advance_def advances_def)

lemma advance_conv: "advance p = advances 1 p"
  by (simp add: advance_def advances_def)

lemma advances_add [simp]: "advances m (advances n p) = advances (n + m) p"
  by (simp add: advances_def)

lemma peek_Cons: "unread p = t # ts \<Longrightarrow> peek p = t"
  by (simp add: peek_unread)

section \<open>Leaf conditions\<close>

definition stops :: "string list \<Rightarrow> token list \<Rightarrow> bool" where
  "stops vs ts = (case ts of [] \<Rightarrow> True | t # _ \<Rightarrow> tok_value t \<notin> set vs)"

lemma value_token_simps [simp]:
  "literal_kind (c_valueKind c) \<Longrightarrow> normalizeConditionValue (value_token c v) = v"
  "tok_value (value_token c v) = v"
  "literal_kind (c_valueKind c) \<Longrightarrow> Some (tok_kind (value_token c v)) = c_valueKind c"
  "literal_kind (c_valueKind c) \<Longrightarrow> is_in_literal (tok_kind (value_token c v))"
  by (auto simp: literal_kind_def value_token_def normalizeConditionValue_def is_in_literal_def)

lemma parseInList_print:
  assumes "literal_kind (c_valueKind c)" "vs \<noteq> []"
    and "unread p = print_list c vs @ rest"
    and "c_valueKind d = None \<or> c_valueKind d = c_valueKind c"
  shows "parseInList d p = Inr (d\<lparr>c_inValues := c_inValues d @ vs, c_valueKind := c_valueKind c\<rparr>,
           advances (length (print_list c vs)) p)"
  using assms
proof (induction c vs arbitrary: d p rule: print_list.induct)
  case (2 c v)
  then have "peek p = value_token c v" "peek (advance p) = tok PUNCT '']''"
    by (auto simp: peek_unread)
  with 2 show ?case
    by (subst parseInList.simps) (auto simp: Let_def advance_conv literal_kind_def)
next
  case (3 c v w vs)
  let ?d = "d\<lparr>c_inValues := c_inValues d @ [v], c_valueKind := c_valueKind c\<rparr>"
  have p: "peek p = value_token c v" "peek (advance p) = tok PUNCT '',''"
    using 3 by (auto simp: peek_unread)
  have "unread (advances 2 p) = print_list c (w # vs) @ rest" using 3 by simp
  with 3 have "parseInList ?d (advances 2 p) = Inr (?d\<lparr>c_inValues := c_inValues ?d @ w # vs,
      c_valueKind := c_valueKind c\<rparr>, advances (length (print_list c (w # vs))) (advances 2 p))"
    by (intro "3.IH") auto
  with p 3 show ?case
    by (subst parseInList.simps) (auto simp: Let_def advance_conv literal_kind_def)
qed simp

text \<open>The switch of \<^const>\<open>parseOneCondition\<close> once variable and property are read.\<close>

lemma parseOneCondition_head:
  assumes "unread p = [tok IDENT v, tok PUNCT ''.'', tok IDENT pr] @ t # rest"
  defines "c \<equiv> empty_condition\<lparr>c_variable := v, c_property := pr\<rparr>"
    and "q \<equiv> advances 3 p"
  shows "tok_value t \<in> set comparison_ops \<Longrightarrow> parseOneCondition re p = parseComparison c q"
    and "tok_value t = ''=~'' \<Longrightarrow> re (c_value (fst (read_value ''=~'' c (advance q)))) \<Longrightarrow>
      parseOneCondition re p = Inr (read_value ''=~'' c (advance q))"
    and "tok_value t = ''CONTAINS'' \<Longrightarrow>
      parseOneCondition re p = Inr (read_value ''CONTAINS'' c (advance q))"
    and "tok_value t = ''STARTS'' \<Longrightarrow>
      parseOneCondition re p = Inr (read_value ''STARTS WITH'' c (skip ''WITH'' (advance q)))"
    and "tok_value t = ''ENDS'' \<Longrightarrow>
      parseOneCondition re p = Inr (read_value ''ENDS WITH'' c (skip ''WITH'' (advance q)))"
    and "tok_value t = ''IS'' \<Longrightarrow> parseOneCondition re p = parseIs c (advance q)"
    and "tok_value t = ''IN'' \<Longrightarrow> parseOneCondition re p = parseIn c (advance q)"
proof -
  have pk: "peek_value p = v" "peek_value (advance p) = ''.''" "peek_value (advance (advance p)) = pr"
    "peek q = t"
    using assms(1) by (auto simp: peek_unread q_def numeral_3_eq_3)
  have q: "advance (advance (advance p)) = q"
    by (simp add: q_def advance_conv numeral_3_eq_3)
  note [simp] = parseOneCondition_def Let_def pk q c_def [symmetric] comparison_ops_def
  show "parseOneCondition re p = parseComparison c q" if "tok_value t \<in> set comparison_ops"
    using that by simp
  show "parseOneCondition re p = Inr (read_value ''=~'' c (advance q))"
    if "tok_value t = ''=~''" "re (c_value (fst (read_value ''=~'' c (advance q))))"
    using that by (auto split: prod.split)
qed (simp_all add: parseOneCondition_def Let_def comparison_ops_def c_def q_def assms(1) peek_unread advance_conv numeral_3_eq_3)

lemma condition_eqI:
  fixes c d :: condition
  assumes "c_variable c = c_variable d" "c_property c = c_property d" "c_op c = c_op d"
    "c_value c = c_value d" "c_inValues c = c_inValues d" "c_negated c = c_negated d"
    "c_connector c = c_connector d" "c_rhsVariable c = c_rhsVariable d"
    "c_rhsProperty c = c_rhsProperty d" "c_valueKind c = c_valueKind d"
  shows "c = d"
  using assms by (cases c; cases d) simp

lemmas print_leaf = read_value_def parseIs_def parseComparison_def skip_def print_op_def
  no_rhs_def printable_cond_def peek_unread advance_conv numeral_eq_Suc Let_def

lemma parseOneCondition_print:
  assumes pr: "printable_cond re c"
    and un: "unread p = print_cond c @ rest" and st: "stops [''.''] rest"
  shows "parseOneCondition re p =
    Inr (c\<lparr>c_negated := False\<rparr>, advances (length (print_cond c)) p)"
proof -
  define c0 where "c0 = empty_condition\<lparr>c_variable := c_variable c, c_property := c_property c\<rparr>"
  define q where "q = advances 3 p"
  obtain t ts where op: "print_op c = t # ts" by (cases "print_op c") (auto simp: print_op_def split: if_splits)
  have un': "unread p = [tok IDENT (c_variable c), tok PUNCT ''.'', tok IDENT (c_property c)] @ t # (ts @ rest)"
    using un op by (simp add: print_cond_def)
  note head = parseOneCondition_head [OF un', folded c0_def q_def]
  have uq: "unread q = print_op c @ rest" using un' op by (simp add: q_def numeral_3_eq_3)
  have len: "length (print_cond c) = 3 + length (print_op c)" by (simp add: print_cond_def)
  have adv: "advances (length (print_cond c)) p = advances (length (print_op c)) q"
    by (simp add: q_def len)
  have c0: "c_negated c0 = False" "c_connector c0 = []" "c_rhsVariable c0 = []"
    "c_rhsProperty c0 = []" "c_inValues c0 = []" "c_value c0 = []" "c_valueKind c0 = None"
    "c_variable c0 = c_variable c" "c_property c0 = c_property c"
    by (simp_all add: c0_def empty_condition_def)
  note conn = pr [unfolded printable_cond_def, THEN conjunct2, THEN conjunct2, THEN conjunct1]
  consider (in_list) "c_op c = ''IN''" | (isnull) "c_op c = ''IS NULL''"
    | (notnull) "c_op c = ''IS NOT NULL''" | (regex) "c_op c = ''=~''"
    | (cont) "c_op c = ''CONTAINS''" | (starts) "c_op c = ''STARTS WITH''"
    | (ends) "c_op c = ''ENDS WITH''"
    | (rhs) "c_op c \<in> set comparison_ops" "c_rhsVariable c \<noteq> []"
    | (cmp) "c_op c \<in> set comparison_ops" "c_rhsVariable c = []"
    using pr by (auto simp: printable_cond_def split: if_splits)
  then show ?thesis
  proof cases
    case in_list
    have "unread (advance q) = tok PUNCT ''['' # print_list c (c_inValues c) @ rest"
      using uq in_list by (simp add: print_op_def)
    moreover from pr in_list have l: "c_inValues c \<noteq> []" "hd (c_inValues c) \<noteq> '']''"
      "literal_kind (c_valueKind c)" "no_rhs c" "c_value c = []"
      by (auto simp: printable_cond_def)
    moreover have "peek_value (advance (advance q)) \<noteq> '']''"
      using uq in_list l by (cases "c_inValues c" rule: remdups_adj.cases) (auto simp: print_op_def peek_unread)
    ultimately show ?thesis
      using head(7) op in_list conn
        parseInList_print [of c "c_inValues c" "advance (advance q)" rest "c0\<lparr>c_op := ''IN''\<rparr>"]
      by (auto simp: parseIn_def expect_def peek_Cons print_op_def adv c0 no_rhs_def
          intro!: condition_eqI)
  next
    case isnull
    then show ?thesis
      using head(6) op pr conn uq by (auto simp: adv c0 print_leaf intro!: condition_eqI)
  next
    case notnull
    then show ?thesis
      using head(6) op pr conn uq by (auto simp: adv c0 print_leaf intro!: condition_eqI)
  next
    case regex
    then show ?thesis
      using head(2) [of re] op pr conn uq by (auto simp: adv c0 print_leaf intro!: condition_eqI)
  next
    case cont
    then show ?thesis
      using head(3) op pr conn uq by (auto simp: adv c0 print_leaf intro!: condition_eqI)
  next
    case starts
    then show ?thesis
      using head(4) op pr conn uq by (auto simp: adv c0 print_leaf intro!: condition_eqI)
  next
    case ends
    then show ?thesis
      using head(5) op pr conn uq by (auto simp: adv c0 print_leaf intro!: condition_eqI)
  next
    case rhs
    then show ?thesis
      using head(1) op pr conn uq
      by (auto simp: adv c0 print_leaf comparison_ops_def normalizeConditionValue_def
          intro!: condition_eqI)
  next
    case cmp
    then show ?thesis
      using head(1) op pr conn uq st
      by (auto simp: adv c0 print_leaf comparison_ops_def stops_def split: list.splits intro!: condition_eqI)
  qed
qed

section \<open>Derivations without fuel\<close>

text \<open>Some amount of fuel gives the result; by stability every larger amount does.\<close>

definition derOr :: "(string \<Rightarrow> bool) \<Rightarrow> parser \<Rightarrow> whereExpr \<times> parser \<Rightarrow> bool" where
  "derOr re p r \<longleftrightarrow> (\<exists>n. parseOrExpr re n p = Inr r)"

definition derOrLoop :: "(string \<Rightarrow> bool) \<Rightarrow> whereExpr \<Rightarrow> parser \<Rightarrow> whereExpr \<times> parser \<Rightarrow> bool" where
  "derOrLoop re l p r \<longleftrightarrow> (\<exists>n. parseOr_loop re n l p = Inr r)"

definition derAnd :: "(string \<Rightarrow> bool) \<Rightarrow> parser \<Rightarrow> whereExpr \<times> parser \<Rightarrow> bool" where
  "derAnd re p r \<longleftrightarrow> (\<exists>n. parseAndExpr re n p = Inr r)"

definition derAndLoop :: "(string \<Rightarrow> bool) \<Rightarrow> whereExpr \<Rightarrow> parser \<Rightarrow> whereExpr \<times> parser \<Rightarrow> bool" where
  "derAndLoop re l p r \<longleftrightarrow> (\<exists>n. parseAnd_loop re n l p = Inr r)"

definition derFactor :: "(string \<Rightarrow> bool) \<Rightarrow> parser \<Rightarrow> whereExpr \<times> parser \<Rightarrow> bool" where
  "derFactor re p r \<longleftrightarrow> (\<exists>n. parseFactor re n p = Inr r)"

lemma fuel_mono:
  assumes "n \<le> m"
  shows "parseOrExpr re n p = Inr r \<Longrightarrow> parseOrExpr re m p = Inr r"
    and "parseOr_loop re n l p = Inr r \<Longrightarrow> parseOr_loop re m l p = Inr r"
    and "parseAndExpr re n p = Inr r \<Longrightarrow> parseAndExpr re m p = Inr r"
    and "parseAnd_loop re n l p = Inr r \<Longrightarrow> parseAnd_loop re m l p = Inr r"
    and "parseFactor re n p = Inr r \<Longrightarrow> parseFactor re m p = Inr r"
  using fuel_agreeD [OF fuel_agree [OF assms]] by simp_all

lemma derOr_intro:
  assumes "derAnd re p (l, p1)" "derOrLoop re l p1 r"
  shows "derOr re p r"
proof -
  obtain n m where "parseAndExpr re n p = Inr (l, p1)" "parseOr_loop re m l p1 = Inr r"
    using assms unfolding derAnd_def derOrLoop_def by blast
  then have "parseAndExpr re (max n m) p = Inr (l, p1)" "parseOr_loop re (max n m) l p1 = Inr r"
    by (auto intro: fuel_mono(2,3) [rotated])
  then have "parseOrExpr re (Suc (max n m)) p = Inr r" by simp
  then show ?thesis unfolding derOr_def by blast
qed

lemma derAnd_intro:
  assumes "derFactor re p (l, p1)" "derAndLoop re l p1 r"
  shows "derAnd re p r"
proof -
  obtain n m where "parseFactor re n p = Inr (l, p1)" "parseAnd_loop re m l p1 = Inr r"
    using assms unfolding derFactor_def derAndLoop_def by blast
  then have "parseFactor re (max n m) p = Inr (l, p1)" "parseAnd_loop re (max n m) l p1 = Inr r"
    by (auto intro: fuel_mono(4,5) [rotated])
  then have "parseAndExpr re (Suc (max n m)) p = Inr r" by simp
  then show ?thesis unfolding derAnd_def by blast
qed

lemma derOrLoop_step:
  assumes "peek_value p = ''OR''" "derAnd re (advance p) (b, p1)"
    "derOrLoop re (BinaryExpr OR_op l b) p1 r"
  shows "derOrLoop re l p r"
proof -
  obtain n m where "parseAndExpr re n (advance p) = Inr (b, p1)"
    "parseOr_loop re m (BinaryExpr OR_op l b) p1 = Inr r"
    using assms unfolding derAnd_def derOrLoop_def by blast
  then have "parseAndExpr re (max n m) (advance p) = Inr (b, p1)"
    "parseOr_loop re (max n m) (BinaryExpr OR_op l b) p1 = Inr r"
    by (auto intro: fuel_mono(2,3) [rotated])
  with assms(1) have "parseOr_loop re (Suc (max n m)) l p = Inr r" by simp
  then show ?thesis unfolding derOrLoop_def by blast
qed

lemma derAndLoop_step:
  assumes "peek_value p = ''AND''" "derFactor re (advance p) (b, p1)"
    "derAndLoop re (BinaryExpr AND_op l b) p1 r"
  shows "derAndLoop re l p r"
proof -
  obtain n m where "parseFactor re n (advance p) = Inr (b, p1)"
    "parseAnd_loop re m (BinaryExpr AND_op l b) p1 = Inr r"
    using assms unfolding derFactor_def derAndLoop_def by blast
  then have "parseFactor re (max n m) (advance p) = Inr (b, p1)"
    "parseAnd_loop re (max n m) (BinaryExpr AND_op l b) p1 = Inr r"
    by (auto intro: fuel_mono(4,5) [rotated])
  with assms(1) have "parseAnd_loop re (Suc (max n m)) l p = Inr r" by simp
  then show ?thesis unfolding derAndLoop_def by blast
qed

lemma der_stop:
  "peek_value p \<noteq> ''OR'' \<Longrightarrow> derOrLoop re l p (l, p)"
  "peek_value p \<noteq> ''AND'' \<Longrightarrow> derAndLoop re l p (l, p)"
  unfolding derOrLoop_def derAndLoop_def by (auto intro: exI [of _ 1])

lemma derFactor_paren:
  assumes "peek_value p = ''(''" "derOr re (advance p) (e, p1)" "peek_value p1 = '')''"
  shows "derFactor re p (e, advance p1)"
proof -
  obtain n where "parseOrExpr re n (advance p) = Inr (e, p1)"
    using assms unfolding derOr_def by blast
  with assms have "parseFactor re (Suc n) p = Inr (e, advance p1)" by simp
  then show ?thesis unfolding derFactor_def by blast
qed

lemma derFactor_not:
  assumes "peek_value p = ''NOT''" "peek_value (advance p) = ''(''"
    "derOr re (advance (advance p)) (e, p1)" "peek_value p1 = '')''"
  shows "derFactor re p (NotExpr e, advance p1)"
proof -
  obtain n where "parseOrExpr re n (advance (advance p)) = Inr (e, p1)"
    using assms unfolding derOr_def by blast
  with assms have "parseFactor re (Suc n) p = Inr (NotExpr e, advance p1)" by simp
  then show ?thesis unfolding derFactor_def by blast
qed

lemma derFactor_cond:
  assumes "printable_cond re c" "stops [''.''] rest"
    and "unread p = print_where l (CondExpr c) @ rest"
  shows "derFactor re p (CondExpr c, advances (length (print_where l (CondExpr c))) p)"
proof -
  define q where "q = (if c_negated c then advance p else p)"
  have q: "unread q = print_cond c @ rest" using assms(3) by (auto simp: q_def)
  from q have pk: "peek_value q = c_variable c" by (simp add: peek_unread print_cond_def)
  then have pk': "peek_value q \<noteq> ''NOT''" "peek_value q \<noteq> ''(''"
    using assms(1) by (auto simp: printable_cond_def)
  have neg: "(peek_value p = ''NOT'') = c_negated c"
    using assms(3) pk' by (auto simp: q_def peek_unread)
  have adv: "advances (length (print_where l (CondExpr c))) p = advances (length (print_cond c)) q"
    by (simp add: q_def advance_conv)
  have "parseFactor re (Suc 0) p = Inr (CondExpr c, advances (length (print_cond c)) q)"
    using parseOneCondition_print [OF assms(1) q assms(2)] pk'
    by (simp add: Let_def neg q_def [symmetric])
  then show ?thesis unfolding derFactor_def adv by blast
qed

section \<open>The round trip\<close>

text \<open>What each level derives from a printed tree, given what stands after it.\<close>

definition printedOr :: "(string \<Rightarrow> bool) \<Rightarrow> whereExpr \<Rightarrow> bool" where
  "printedOr re e \<longleftrightarrow>
     (\<forall>p rest r. unread p = print_where 0 e @ rest \<longrightarrow> stops [''.'', ''AND''] rest \<longrightarrow>
        derOrLoop re e (advances (length (print_where 0 e)) p) r \<longrightarrow> derOr re p r)"

definition printedAnd :: "(string \<Rightarrow> bool) \<Rightarrow> whereExpr \<Rightarrow> bool" where
  "printedAnd re e \<longleftrightarrow>
     (\<forall>p rest r. unread p = print_where 1 e @ rest \<longrightarrow> stops [''.''] rest \<longrightarrow>
        derAndLoop re e (advances (length (print_where 1 e)) p) r \<longrightarrow> derAnd re p r)"

definition printedFactor :: "(string \<Rightarrow> bool) \<Rightarrow> whereExpr \<Rightarrow> bool" where
  "printedFactor re e \<longleftrightarrow>
     (\<forall>p rest. unread p = print_where 2 e @ rest \<longrightarrow> stops [''.''] rest \<longrightarrow>
        derFactor re p (e, advances (length (print_where 2 e)) p))"

lemma stops_peek: "unread p = rest \<Longrightarrow> stops vs rest \<Longrightarrow> v \<in> set vs \<Longrightarrow> v \<noteq> [] \<Longrightarrow> peek_value p \<noteq> v"
  by (auto simp: stops_def peek_unread split: list.splits)

lemma stops_mono: "stops vs ts \<Longrightarrow> set ws \<subseteq> set vs \<Longrightarrow> stops ws ts"
  by (auto simp: stops_def split: list.splits)

text \<open>A tree whose printed form is the same at two levels climbs from the inner one.\<close>

lemma printedAnd_from_factor:
  assumes "printedFactor re e" "print_where 1 e = print_where 2 e"
  shows "printedAnd re e"
  using assms unfolding printedAnd_def printedFactor_def by (metis derAnd_intro)

lemma derAnd_whole:
  assumes "printedAnd re e" "unread p = print_where 1 e @ rest" "stops [''.'', ''AND''] rest"
  shows "derAnd re p (e, advances (length (print_where 1 e)) p)"
proof -
  have "unread (advances (length (print_where 1 e)) p) = rest" using assms(2) by simp
  then have "peek_value (advances (length (print_where 1 e)) p) \<noteq> ''AND''"
    by (rule stops_peek [OF _ assms(3)]) simp_all
  then have "derAndLoop re e (advances (length (print_where 1 e)) p)
      (e, advances (length (print_where 1 e)) p)" by (rule der_stop)
  moreover have "stops [''.''] rest" using assms(3) by (rule stops_mono) auto
  ultimately show ?thesis using assms(1,2) unfolding printedAnd_def by blast
qed

lemma printedOr_from_and:
  assumes "printedAnd re e" "print_where 0 e = print_where 1 e"
  shows "printedOr re e"
  unfolding printedOr_def assms(2) using derAnd_whole [OF assms(1)] derOr_intro by blast

text \<open>A tree in parentheses, alone or after NOT.\<close>

lemma derOr_closed:
  assumes "printedOr re e" "unread p = print_where 0 e @ tok PUNCT '')'' # rest"
  shows "derOr re p (e, advances (length (print_where 0 e)) p)"
    and "peek_value (advances (length (print_where 0 e)) p) = '')''"
proof -
  let ?q = "advances (length (print_where 0 e)) p"
  show q: "peek_value ?q = '')''" using assms(2) by (simp add: peek_unread)
  then have "derOrLoop re e ?q (e, ?q)" by (intro der_stop) simp
  moreover have "stops [''.'', ''AND''] (tok PUNCT '')'' # rest)" by (simp add: stops_def)
  ultimately show "derOr re p (e, ?q)" using assms unfolding printedOr_def by blast
qed

lemma printedFactor_parens:
  assumes "printedOr re e" "print_where 2 e = parens True (print_where 0 e)"
  shows "printedFactor re e"
  unfolding printedFactor_def
proof (intro allI impI)
  fix p rest
  assume un: "unread p = print_where 2 e @ rest"
  then have "unread (advance p) = print_where 0 e @ tok PUNCT '')'' # rest"
    by (simp add: assms(2) parens_def)
  note inner = derOr_closed [OF assms(1) this]
  have "peek_value p = ''(''" using un by (simp add: assms(2) peek_unread parens_def)
  from derFactor_paren [OF this inner] show "derFactor re p (e, advances (length (print_where 2 e)) p)"
    by (simp add: assms(2) parens_def)
qed

lemma printedFactor_not:
  assumes "printedOr re e"
  shows "printedFactor re (NotExpr e)"
  unfolding printedFactor_def
proof (intro allI impI)
  fix p rest
  assume un: "unread p = print_where 2 (NotExpr e) @ rest"
  then have "unread (advance (advance p)) = print_where 0 e @ tok PUNCT '')'' # rest"
    by (simp add: parens_def)
  note inner = derOr_closed [OF assms this]
  have "peek_value p = ''NOT''" "peek_value (advance p) = ''(''"
    using un by (simp_all add: peek_unread parens_def)
  from derFactor_not [OF this inner]
  show "derFactor re p (NotExpr e, advances (length (print_where 2 (NotExpr e))) p)"
    by (simp add: parens_def)
qed

text \<open>The two binary operators at the level that prints them without parentheses.\<close>

lemma printedOr_or:
  assumes a: "printedOr re a" and b: "printedAnd re b"
  shows "printedOr re (BinaryExpr OR_op a b)" (is "printedOr re ?e")
  unfolding printedOr_def
proof (intro allI impI)
  let ?ta = "print_where 0 a" and ?tb = "print_where 1 b"
  fix p rest r
  assume "unread p = print_where 0 ?e @ rest" and st: "stops [''.'', ''AND''] rest"
    and loop: "derOrLoop re ?e (advances (length (print_where 0 ?e)) p) r"
  then have un: "unread p = ?ta @ tok KEYWORD ''OR'' # ?tb @ rest" by (simp add: parens_def)
  define q where "q = advances (length ?ta) p"
  have qu: "unread q = tok KEYWORD ''OR'' # ?tb @ rest" using un by (simp add: q_def)
  then have "unread (advance q) = ?tb @ rest" by simp
  from derAnd_whole [OF b this st]
  have operand: "derAnd re (advance q) (b, advances (length (print_where 0 ?e)) p)"
    by (simp add: q_def parens_def)
  have "derOrLoop re a q r"
    by (rule derOrLoop_step [OF _ operand loop]) (simp add: peek_Cons [OF qu])
  moreover have "stops [''.'', ''AND''] (tok KEYWORD ''OR'' # ?tb @ rest)" by (simp add: stops_def)
  ultimately show "derOr re p r" using a un unfolding printedOr_def q_def by blast
qed

lemma printedAnd_and:
  assumes a: "printedAnd re a" and b: "printedFactor re b"
  shows "printedAnd re (BinaryExpr AND_op a b)" (is "printedAnd re ?e")
  unfolding printedAnd_def
proof (intro allI impI)
  let ?ta = "print_where 1 a" and ?tb = "print_where 2 b"
  fix p rest r
  assume "unread p = print_where 1 ?e @ rest" and st: "stops [''.''] rest"
    and loop: "derAndLoop re ?e (advances (length (print_where 1 ?e)) p) r"
  then have un: "unread p = ?ta @ tok KEYWORD ''AND'' # ?tb @ rest" by (simp add: parens_def)
  define q where "q = advances (length ?ta) p"
  have qu: "unread q = tok KEYWORD ''AND'' # ?tb @ rest" using un by (simp add: q_def)
  then have "unread (advance q) = ?tb @ rest" by simp
  with b st have "derFactor re (advance q) (b, advances (length ?tb) (advance q))"
    unfolding printedFactor_def by blast
  then have operand: "derFactor re (advance q) (b, advances (length (print_where 1 ?e)) p)"
    by (simp add: q_def parens_def)
  have "derAndLoop re a q r"
    by (rule derAndLoop_step [OF _ operand loop]) (simp add: peek_Cons [OF qu])
  moreover have "stops [''.''] (tok KEYWORD ''AND'' # ?tb @ rest)" by (simp add: stops_def)
  ultimately show "derAnd re p r" using a un unfolding printedAnd_def q_def by blast
qed

lemma printed_all: "printable re e \<Longrightarrow> printedOr re e \<and> printedAnd re e \<and> printedFactor re e"
proof (induction e)
  case (CondExpr c)
  then have "printedFactor re (CondExpr c)"
    unfolding printedFactor_def by (metis derFactor_cond printable_simps(1))
  then show ?case by (simp add: printedOr_from_and printedAnd_from_factor)
next
  case (BinaryExpr op a b)
  show ?case
  proof (cases op)
    case AND_op
    with BinaryExpr have "printedAnd re (BinaryExpr op a b)" by (auto intro: printedAnd_and)
    moreover from this AND_op have "printedOr re (BinaryExpr op a b)"
      by (auto intro: printedOr_from_and simp: parens_def)
    ultimately show ?thesis using AND_op by (auto intro: printedFactor_parens simp: parens_def)
  next
    case OR_op
    with BinaryExpr have "printedOr re (BinaryExpr op a b)" by (auto intro: printedOr_or)
    moreover from this OR_op have "printedFactor re (BinaryExpr op a b)"
      by (auto intro: printedFactor_parens simp: parens_def)
    ultimately show ?thesis using OR_op by (auto intro: printedAnd_from_factor simp: parens_def)
  qed
next
  case (NotExpr e)
  then have "printedFactor re (NotExpr e)" by (auto intro: printedFactor_not)
  then show ?case by (simp add: printedOr_from_and printedAnd_from_factor)
qed

text \<open>
  C37. Printing a WHERE tree with the fewest parentheses and parsing the tokens back gives the same
  tree and stops right after it, whatever follows that cannot continue the expression: AND binds
  tighter than OR, both associate to the left, NOT before a parenthesis negates the group and NOT
  before a leaf negates the leaf, and every operator keeps its operands.
\<close>

theorem parseWhere_roundtrip:
  assumes "printable re e" and "unread p = print_where 0 e @ rest"
    and "stops [''.'', ''AND'', ''OR''] rest"
  shows "parseWhere re p = Inr (e, advances (length (print_where 0 e)) p)"
proof -
  let ?q = "advances (length (print_where 0 e)) p"
  have "unread ?q = rest" using assms(2) by simp
  then have "peek_value ?q \<noteq> ''OR''" by (rule stops_peek [OF _ assms(3)]) simp_all
  then have "derOrLoop re e ?q (e, ?q)" by (rule der_stop)
  moreover have "stops [''.'', ''AND''] rest" using assms(3) by (rule stops_mono) auto
  ultimately have "derOr re p (e, ?q)"
    using printed_all [OF assms(1)] assms(2) unfolding printedOr_def by blast
  then obtain n where "parseOrExpr re n p = Inr (e, ?q)" unfolding derOr_def by blast
  then have "parseOrExpr re (3 * left p + 3 + n) p = Inr (e, ?q)" by (rule fuel_mono(1) [rotated]) simp
  with parseWhere_fuel [of re p n] show ?thesis by simp
qed

theorem parseWhere_roundtrip_witness:
  "let leaf = \<lambda>v. CondExpr (empty_condition\<lparr>c_variable := ''n'', c_property := ''name'', c_op := ''='',
         c_value := v, c_valueKind := Some STRING\<rparr>);
       e = BinaryExpr AND_op (BinaryExpr OR_op (leaf ''a'') (leaf ''b'')) (NotExpr (leaf ''c''));
       ts = print_where 0 e
   in parseWhere (\<lambda>_. True) \<lparr>p_tokens = ts @ [tok KEYWORD ''RETURN''], p_pos = 0\<rparr> =
        Inr (e, \<lparr>p_tokens = ts @ [tok KEYWORD ''RETURN''], p_pos = length ts\<rparr>) \<and> length ts = 22"
proof -
  define leaf where "leaf v = CondExpr (empty_condition\<lparr>c_variable := ''n'', c_property := ''name'',
      c_op := ''='', c_value := v, c_valueKind := Some STRING\<rparr>)" for v
  define e where "e = BinaryExpr AND_op (BinaryExpr OR_op (leaf ''a'') (leaf ''b'')) (NotExpr (leaf ''c''))"
  have "printable (\<lambda>_. True) e"
    by (simp add: e_def leaf_def printable_cond_def empty_condition_def literal_kind_def no_rhs_def
        comparison_ops_def)
  moreover have "length (print_where 0 e) = 22"
    by (simp add: e_def leaf_def print_cond_def print_op_def parens_def empty_condition_def)
  ultimately show ?thesis
    using parseWhere_roundtrip [of "\<lambda>_. True" e
        "\<lparr>p_tokens = print_where 0 e @ [tok KEYWORD ''RETURN''], p_pos = 0\<rparr>" "[tok KEYWORD ''RETURN'']"]
    unfolding Let_def leaf_def [symmetric] e_def [symmetric]
    by (simp add: unread_def advances_def stops_def)
qed

end
