(* ===== verification/Go_Values.thy ===== *)
theory Go_Values
  imports Pincher_Prelude
begin

text \<open>
  Dynamically typed values of the query engine: Go's \<^verbatim>\<open>any\<close> as far as a projected row can
  hold it, \<^verbatim>\<open>fmt.Sprint\<close> of such a value, and rows (\<^verbatim>\<open>map[string]any\<close>) as
  association lists.  64-bit floating point numbers and compiled regular expressions are type
  parameters; \<open>golib\<close> collects the operations of Go's \<^verbatim>\<open>strconv\<close>, \<^verbatim>\<open>fmt\<close> and
  \<^verbatim>\<open>regexp\<close> packages on them, so every theorem holds whatever they compute.
\<close>

section \<open>Values\<close>

datatype 'f any =
    is_nil: ANil
  | AStr string
  | AInt int
  | ABool bool
  | AFlt 'f
  | AMap "(string \<times> 'f any) list"

record ('f, 'r) golib =
  gl_parseFloat :: "string \<Rightarrow> 'f option"
  gl_fmtFloat :: "'f \<Rightarrow> string"
  gl_ofInt :: "int \<Rightarrow> 'f"
  gl_add :: "'f \<Rightarrow> 'f \<Rightarrow> 'f"
  gl_div :: "'f \<Rightarrow> 'f \<Rightarrow> 'f"
  gl_lt :: "'f \<Rightarrow> 'f \<Rightarrow> bool"
  gl_le :: "'f \<Rightarrow> 'f \<Rightarrow> bool"
  gl_compile :: "string \<Rightarrow> 'r option"
  gl_match :: "'r \<Rightarrow> string \<Rightarrow> bool"

text \<open>
  \<^verbatim>\<open>fmt.Sprint\<close>: nil prints as \<^verbatim>\<open><nil>\<close>, a map prints its entries in key order.
\<close>

fun insert_entry :: "string \<times> string \<Rightarrow> (string \<times> string) list \<Rightarrow> (string \<times> string) list" where
  "insert_entry e [] = [e]"
| "insert_entry e (x # xs) = (if fst e \<le> fst x then e # x # xs else x # insert_entry e xs)"

definition sort_entries :: "(string \<times> string) list \<Rightarrow> (string \<times> string) list" where
  "sort_entries es = foldr insert_entry es []"

fun sprint :: "('f, 'r) golib \<Rightarrow> 'f any \<Rightarrow> string" where
  "sprint lib ANil = ''<nil>''"
| "sprint lib (AStr s) = s"
| "sprint lib (AInt i) = itoa i"
| "sprint lib (ABool b) = (if b then ''true'' else ''false'')"
| "sprint lib (AFlt f) = gl_fmtFloat lib f"
| "sprint lib (AMap es) =
     ''map['' @ str_join '' ''
       (map (\<lambda>(k, v). k @ '':'' @ v) (sort_entries (map (\<lambda>(k, v). (k, sprint lib v)) es))) @ '']''"

text \<open>
  A library on integers, where a pattern matches the texts that contain it: the instance on which
  witnesses are evaluated.
\<close>

definition int_lib :: "(int, string) golib" where
  "int_lib = \<lparr>gl_parseFloat = (\<lambda>s. if snd (atoi s) then None else Some (fst (atoi s))),
     gl_fmtFloat = itoa, gl_ofInt = id, gl_add = (+), gl_div = (div), gl_lt = (<), gl_le = (\<le>),
     gl_compile = Some, gl_match = (\<lambda>p s. contains s p)\<rparr>"

section \<open>Rows\<close>

type_synonym 'f row = "(string \<times> 'f any) list"

text \<open>Reading a missing key of a Go map of interface values gives nil.\<close>

definition row_get :: "'f row \<Rightarrow> string \<Rightarrow> 'f any" where
  "row_get row k = (case map_of row k of None \<Rightarrow> ANil | Some v \<Rightarrow> v)"

lemma row_get_update [simp]:
  "row_get (AList.update k v row) k' = (if k = k' then v else row_get row k')"
  by (simp add: row_get_def update_conv)

lemma row_get_Nil [simp]: "row_get [] k = ANil"
  by (simp add: row_get_def)

text \<open>Map assignment and lookup, as every component that builds or reads rows relies on them.\<close>

locale go_map =
  fixes get :: "'m \<Rightarrow> 'k \<Rightarrow> 'v" and put :: "'k \<Rightarrow> 'v \<Rightarrow> 'm \<Rightarrow> 'm"
    and none :: 'm and zero :: 'v
  assumes get_none: "get none k = zero"
    and get_put: "get (put k v m) k' = (if k = k' then v else get m k')"
begin

definition put_all :: "('k \<times> 'v) list \<Rightarrow> 'm \<Rightarrow> 'm" where
  "put_all es m = foldl (\<lambda>m (k, v). put k v m) m es"

lemma get_put_all_other: "k \<notin> fst ` set es \<Longrightarrow> get (put_all es m) k = get m k"
  by (induction es arbitrary: m) (auto simp: put_all_def get_put)

lemma get_put_all_last:
  "k \<notin> fst ` set es' \<Longrightarrow> get (put_all (es @ (k, v) # es') m) k = v"
  using get_put_all_other [of k es' "put k v (put_all es m)"]
  by (simp add: put_all_def get_put)

lemma get_put_all_distinct:
  "distinct (map fst es) \<Longrightarrow> (k, v) \<in> set es \<Longrightarrow> get (put_all es m) k = v"
proof (induction es arbitrary: m)
  case (Cons e es)
  then show ?case
    using get_put_all_other [of k es] by (auto simp: put_all_def get_put image_iff)
qed simp

end

interpretation row_map: go_map row_get AList.update "[]" ANil
  by unfold_locales simp_all

end
