(* ===== verification/Cypher_Eval.thy ===== *)
theory Cypher_Eval
  imports Cypher_Vocab Go_Values
begin

text \<open>
  In-process evaluation of WHERE (\<^verbatim>\<open>evalCondition\<close>, \<^verbatim>\<open>matchesWhere\<close>,
  \<^verbatim>\<open>matchesConditions\<close> and \<^verbatim>\<open>matchesInlineProps\<close> of
  \<^verbatim>\<open>internal/cypher/engine.go\<close>).  Evaluation fills a cache of compiled regular expressions
  as it goes, so every evaluator takes the cache (\<^term>\<open>None\<close> for a nil map) and returns it with
  the verdict.  The theorems: the cache never changes a verdict, the flat condition list and the
  WHERE tree agree, and equality and inequality partition the rows.
\<close>

section \<open>Definitions\<close>

type_synonym 'r cache = "(string \<rightharpoonup> 'r) option"

definition cond_key :: "condition \<Rightarrow> string" where
  "cond_key c = c_variable c @ ''.'' @ c_property c"

text \<open>The \<^verbatim>\<open>=~\<close> case: look in the cache, compile on a miss, store what compiled.\<close>

definition regex_match ::
    "('f, 'r) golib \<Rightarrow> string \<Rightarrow> string \<Rightarrow> 'r cache \<Rightarrow> bool \<times> 'r cache" where
  "regex_match lib pat actual cache =
     (case (case cache of None \<Rightarrow> None | Some mp \<Rightarrow> mp pat) of
        Some re \<Rightarrow> (gl_match lib re actual, cache)
      | None \<Rightarrow>
          (case gl_compile lib pat of
             None \<Rightarrow> (False, cache)
           | Some re \<Rightarrow>
               (gl_match lib re actual, map_option (\<lambda>mp. mp(pat \<mapsto> re)) cache)))"

text \<open>A NULL row satisfies equality with the empty string, and with false on a boolean column.\<close>

definition zero_rhs :: "condition \<Rightarrow> bool" where
  "zero_rhs c \<longleftrightarrow>
     c_value c = [] \<or>
     isBoolCol (cypherPropToCol (c_property c)) \<and> (c_value c = ''false'' \<or> c_value c = ''0'')"

definition eval_eq :: "'f any \<Rightarrow> string \<Rightarrow> condition \<Rightarrow> bool" where
  "eval_eq raw actual c =
     (if (is_nil raw \<or> actual = ''<nil>'') \<and> zero_rhs c then True
      else if actual = c_value c then True
      else boolCoerceEqual actual (c_value c))"

definition eval_neq :: "'f any \<Rightarrow> string \<Rightarrow> condition \<Rightarrow> bool" where
  "eval_neq raw actual c =
     (if is_nil raw \<or> actual = ''<nil>'' then \<not> zero_rhs c
      else if actual = c_value c then False
      else \<not> boolCoerceEqual actual (c_value c))"

definition eval_in :: "'f any \<Rightarrow> string \<Rightarrow> condition \<Rightarrow> bool" where
  "eval_in raw actual c =
     (if is_nil raw then False
      else list_ex (\<lambda>v. actual = v \<or> boolCoerceEqual actual v) (c_inValues c))"

definition eval_ordered :: "('f, 'r) golib \<Rightarrow> string \<Rightarrow> condition \<Rightarrow> bool" where
  "eval_ordered lib actual c =
     (case (gl_parseFloat lib actual, gl_parseFloat lib (c_value c)) of
        (Some an, Some bn) \<Rightarrow>
          (if c_op c = ''>'' then gl_lt lib bn an
           else if c_op c = ''<'' then gl_lt lib an bn
           else if c_op c = ''>='' then gl_le lib bn an
           else gl_le lib an bn)
      | _ \<Rightarrow> False)"

definition evalCondition ::
    "('f, 'r) golib \<Rightarrow> 'f row \<Rightarrow> condition \<Rightarrow> 'r cache \<Rightarrow> bool \<times> 'r cache" where
  "evalCondition lib row c cache =
     (if c_rhsProperty c \<noteq> [] then (True, cache)
      else
        let raw = row_get row (cond_key c); actual = sprint lib raw; op = c_op c in
        if op = ''='' then (eval_eq raw actual c, cache)
        else if op = ''<>'' then (eval_neq raw actual c, cache)
        else if op = ''=~'' then regex_match lib (c_value c) actual cache
        else if op = ''CONTAINS'' then (contains actual (c_value c), cache)
        else if op = ''STARTS WITH'' then (has_prefix actual (c_value c), cache)
        else if op = ''ENDS WITH'' then (has_suffix actual (c_value c), cache)
        else if op = ''IS NULL''
          then (is_nil raw \<or> actual = [] \<or> actual = ''<nil>'', cache)
        else if op = ''IS NOT NULL''
          then (\<not> is_nil raw \<and> actual \<noteq> [] \<and> actual \<noteq> ''<nil>'', cache)
        else if op = ''IN'' then (eval_in raw actual c, cache)
        else if op \<in> set [''>'', ''<'', ''>='', ''<=''] then (eval_ordered lib actual c, cache)
        else (False, cache))"

text \<open>The three \<^verbatim>\<open>eval\<close> methods; AND and OR short-circuit, so the right side may not run.\<close>

fun eval_where ::
    "('f, 'r) golib \<Rightarrow> 'f row \<Rightarrow> whereExpr \<Rightarrow> 'r cache \<Rightarrow> bool \<times> 'r cache" where
  "eval_where lib row (CondExpr c) cache =
     (let (r, cache') = evalCondition lib row c cache in
      (if c_negated c then \<not> r else r, cache'))"
| "eval_where lib row (BinaryExpr op l r) cache =
     (let (b, cache') = eval_where lib row l cache in
      if op = OR_op then (if b then (True, cache') else eval_where lib row r cache')
      else (if b then eval_where lib row r cache' else (False, cache')))"
| "eval_where lib row (NotExpr w) cache =
     (let (b, cache') = eval_where lib row w cache in (\<not> b, cache'))"

definition matchesWhere ::
    "('f, 'r) golib \<Rightarrow> 'f row \<Rightarrow> whereExpr option \<Rightarrow> 'r cache \<Rightarrow> bool \<times> 'r cache" where
  "matchesWhere lib row w cache =
     (case w of None \<Rightarrow> (True, cache) | Some e \<Rightarrow> eval_where lib row e cache)"

fun matches_loop ::
    "('f, 'r) golib \<Rightarrow> 'f row \<Rightarrow> bool \<Rightarrow> condition list \<Rightarrow> 'r cache \<Rightarrow> bool \<times> 'r cache" where
  "matches_loop lib row result [] cache = (result, cache)"
| "matches_loop lib row result (c # cs) cache =
     (let (m, cache') = evalCondition lib row c cache;
          matched = (if c_negated c then \<not> m else m)
      in matches_loop lib row
           (if c_connector c = ''OR'' then result \<or> matched else result \<and> matched) cs cache')"

definition matchesConditionsWithCache ::
    "('f, 'r) golib \<Rightarrow> 'f row \<Rightarrow> condition list \<Rightarrow> 'r cache \<Rightarrow> bool \<times> 'r cache" where
  "matchesConditionsWithCache lib row conds cache =
     (case conds of
        [] \<Rightarrow> (True, cache)
      | c # cs \<Rightarrow>
          (let (r, cache') = evalCondition lib row c cache in
           matches_loop lib row (if c_negated c then \<not> r else r) cs cache'))"

definition matchesConditions :: "('f, 'r) golib \<Rightarrow> 'f row \<Rightarrow> condition list \<Rightarrow> bool" where
  "matchesConditions lib row conds = fst (matchesConditionsWithCache lib row conds None)"

definition matchesInlineProps ::
    "('f, 'r) golib \<Rightarrow> 'f row \<Rightarrow> string \<Rightarrow> (string \<times> string) list \<Rightarrow> bool" where
  "matchesInlineProps lib row var props =
     list_all (\<lambda>(k, want).
       let col = cypherPropToCol k; got = sprint lib (row_get row (var @ ''.'' @ k)) in
       col \<noteq> [] \<and> (if isBoolCol col then boolCoerceEqual got want else got = want)) props"

section \<open>The cache is transparent\<close>

text \<open>What a condition and a tree mean, without the cache.\<close>

definition cond_holds :: "('f, 'r) golib \<Rightarrow> 'f row \<Rightarrow> condition \<Rightarrow> bool" where
  "cond_holds lib row c = (fst (evalCondition lib row c None) \<noteq> c_negated c)"

fun where_holds :: "('f, 'r) golib \<Rightarrow> 'f row \<Rightarrow> whereExpr \<Rightarrow> bool" where
  "where_holds lib row (CondExpr c) = cond_holds lib row c"
| "where_holds lib row (BinaryExpr OR_op l r) = (where_holds lib row l \<or> where_holds lib row r)"
| "where_holds lib row (BinaryExpr AND_op l r) = (where_holds lib row l \<and> where_holds lib row r)"
| "where_holds lib row (NotExpr w) = (\<not> where_holds lib row w)"

text \<open>Every cached entry is what compiling its pattern gives.\<close>

definition cache_ok :: "('f, 'r) golib \<Rightarrow> 'r cache \<Rightarrow> bool" where
  "cache_ok lib cache \<longleftrightarrow>
     (\<forall>mp p re. cache = Some mp \<longrightarrow> mp p = Some re \<longrightarrow> gl_compile lib p = Some re)"

lemma cache_ok_None [simp]: "cache_ok lib None"
  by (simp add: cache_ok_def)

lemma cache_ok_empty [simp]: "cache_ok lib (Some Map.empty)"
  by (simp add: cache_ok_def)

lemma regex_match_cache:
  assumes "cache_ok lib cache"
  shows "fst (regex_match lib p s cache) = fst (regex_match lib p s None) \<and>
    cache_ok lib (snd (regex_match lib p s cache))"
  using assms by (auto simp: regex_match_def cache_ok_def split: option.splits)

lemma evalCondition_cache:
  assumes "cache_ok lib cache"
  shows "fst (evalCondition lib row c cache) = fst (evalCondition lib row c None)"
    and "cache_ok lib (snd (evalCondition lib row c cache))"
  using assms regex_match_cache [OF assms] by (simp_all add: evalCondition_def Let_def)

lemma eval_where_cache:
  assumes "cache_ok lib cache"
  shows "fst (eval_where lib row w cache) = where_holds lib row w \<and>
    cache_ok lib (snd (eval_where lib row w cache))"
  using assms
proof (induction w arbitrary: cache)
  case (CondExpr c)
  then show ?case
    using evalCondition_cache [OF CondExpr, of row c]
    by (auto simp: cond_holds_def split: prod.split)
next
  case (BinaryExpr op l r)
  obtain b cache' where l: "eval_where lib row l cache = (b, cache')" by fastforce
  with BinaryExpr.IH(1) [OF BinaryExpr.prems] have "b = where_holds lib row l" "cache_ok lib cache'"
    by auto
  with l BinaryExpr.IH(2) [of cache'] show ?case by (cases op) auto
next
  case (NotExpr w)
  show ?case using NotExpr.IH [OF NotExpr.prems] by (auto split: prod.split)
qed

text \<open>
  Filtering with a shared cache of compiled regular expressions gives every row the verdict
  it would get with no cache, and leaves the cache consistent for the next row.
\<close>

theorem matchesWhere_cache_transparent:
  assumes "cache_ok lib cache"
  shows "fst (matchesWhere lib row w cache) = fst (matchesWhere lib row w None) \<and>
    cache_ok lib (snd (matchesWhere lib row w cache))"
  using assms eval_where_cache [OF assms] eval_where_cache [of lib None]
  by (simp add: matchesWhere_def split: option.split)

theorem matchesWhere_cache_transparent_witness:
  "let c = empty_condition\<lparr>c_variable := ''n'', c_property := ''name'', c_op := ''=~'', c_value := ''ab''\<rparr>;
       cache = Some [''ab'' \<mapsto> ''ab'']; row = [(''n.name'', AStr ''cab'')]
   in fst (matchesWhere int_lib row (Some (CondExpr c)) cache) =
        fst (matchesWhere int_lib row (Some (CondExpr c)) None) \<and>
      cache_ok int_lib (snd (matchesWhere int_lib row (Some (CondExpr c)) cache))"
  unfolding Let_def
  by (rule matchesWhere_cache_transparent) (simp add: cache_ok_def int_lib_def)

section \<open>Flat list and tree agree\<close>

lemma matches_loop_append:
  "matches_loop lib row b (cs @ ds) cache =
     (let (b', cache') = matches_loop lib row b cs cache in matches_loop lib row b' ds cache')"
  by (induction cs arbitrary: b cache) (auto simp: Let_def split: prod.split)

lemma matchesConditions_append:
  assumes "cs \<noteq> []"
  shows "matchesConditionsWithCache lib row (cs @ [c]) cache =
    (let (b, cache') = matchesConditionsWithCache lib row cs cache in
     matches_loop lib row b [c] cache')"
  using assms
  by (cases cs) (auto simp: matchesConditionsWithCache_def matches_loop_append Let_def
      split: prod.split)

lemma eval_stamp_simps [simp]:
  "cond_key (stamp x c) = cond_key c" "zero_rhs (stamp x c) = zero_rhs c"
  "eval_eq raw s (stamp x c) = eval_eq raw s c" "eval_neq raw s (stamp x c) = eval_neq raw s c"
  "eval_in raw s (stamp x c) = eval_in raw s c"
  "eval_ordered lib s (stamp x c) = eval_ordered lib s c"
  by (simp_all only: cond_key_def zero_rhs_def eval_eq_def eval_neq_def eval_in_def
      eval_ordered_def stamp_simps)

lemma evalCondition_stamp [simp]: "evalCondition lib row (stamp x c) = evalCondition lib row c"
  by (intro ext) (simp only: evalCondition_def Let_def stamp_simps eval_stamp_simps)

lemma evalCondition_None: "snd (evalCondition lib row c None) = None"
  by (auto simp: evalCondition_def Let_def regex_match_def split: option.split)

lemma matchesConditions_nil_cache: "snd (matchesConditionsWithCache lib row cs None) = None"
proof -
  have "snd (matches_loop lib row b ds None) = None" for b ds
  proof (induction ds arbitrary: b)
    case (Cons c ds)
    then show ?case
      using evalCondition_None [of lib row c] by (auto split: prod.split)
  qed simp
  then show ?thesis
    using evalCondition_None [of lib row "hd cs"]
    by (cases cs) (auto simp: matchesConditionsWithCache_def split: prod.split)
qed

lemma flat_holds: "flattenWhere w = Some cs \<Longrightarrow> matchesConditions lib row cs = where_holds lib row w"
proof (induction w cs rule: flattenWhere_induct)
  case (leaf c)
  show ?case
    by (auto simp: matchesConditions_def matchesConditionsWithCache_def cond_holds_def
        split: prod.split)
next
  case (chain op l c cs)
  then have "cs \<noteq> []" using flattenWhere_nonempty by auto
  then have "matchesConditions lib row (cs @ [stamp (boolop_str op) c]) =
      (if op = OR_op then matchesConditions lib row cs \<or> cond_holds lib row c
       else matchesConditions lib row cs \<and> cond_holds lib row c)"
    using matchesConditions_nil_cache [of lib row cs]
    by (cases op) (auto simp: matchesConditions_def matchesConditions_append cond_holds_def
        split: prod.split)
  with chain.IH show ?case by (cases op) auto
qed

text \<open>
  When the WHERE tree flattens, walking the flat list left to right with its connectors gives
  the same verdict as evaluating the tree, for every row.
\<close>

theorem matchesConditions_eq_matchesWhere:
  assumes "flattenWhere w = Some cs"
  shows "matchesConditions lib row cs = fst (matchesWhere lib row (Some w) None)"
  using flat_holds [OF assms] eval_where_cache [of lib None] by (simp add: matchesWhere_def)

theorem matchesConditions_eq_matchesWhere_witness:
  "let c = empty_condition\<lparr>c_variable := ''n'', c_property := ''name'', c_op := ''='', c_value := ''x''\<rparr>;
       d = c\<lparr>c_value := ''y''\<rparr>; w = BinaryExpr OR_op (CondExpr c) (CondExpr d);
       row = [(''n.name'', AStr ''y'')]
   in matchesConditions int_lib row [c, stamp ''OR'' d] = fst (matchesWhere int_lib row (Some w) None)"
  unfolding Let_def
  by (rule matchesConditions_eq_matchesWhere)
    (simp add: flattenWhere_Binary, simp add: stamp_def empty_condition_def)

section \<open>Residual filters\<close>

lemma and_chain_from_holds:
  "where_holds lib row (and_chain_from w cs) =
     (where_holds lib row w \<and> list_all (cond_holds lib row) cs)"
  by (induction w cs rule: and_chain_from.induct) auto

text \<open>
  The residual filter built from the conditions that were not pushed to SQL holds exactly when
  each of them holds; with none left every row passes.
\<close>

lemma andChainFromConds_sound:
  "fst (matchesWhere lib row (andChainFromConds cs) None) = list_all (cond_holds lib row) cs"
  using eval_where_cache [of lib None]
  by (cases cs) (auto simp: andChainFromConds_def matchesWhere_def and_chain_from_holds)

section \<open>Equality, inequality and NULL\<close>

text \<open>
  For every row and every literal other than the text \<^verbatim>\<open><nil>\<close>, exactly one of
  \<^verbatim>\<open>col = lit\<close> and \<^verbatim>\<open>col <> lit\<close> holds, NULL rows included; and exactly one of
  IS NULL and IS NOT NULL holds.
\<close>

theorem eq_neq_partition:
  assumes "c_rhsProperty c = []" and "c_value c \<noteq> ''<nil>''"
  shows "fst (evalCondition lib row (c\<lparr>c_op := ''<>''\<rparr>) cache) =
      (\<not> fst (evalCondition lib row (c\<lparr>c_op := ''=''\<rparr>) cache)) \<and>
    fst (evalCondition lib row (c\<lparr>c_op := ''IS NOT NULL''\<rparr>) cache) =
      (\<not> fst (evalCondition lib row (c\<lparr>c_op := ''IS NULL''\<rparr>) cache))"
proof -
  have "\<not> boolCoerceEqual ''<nil>'' v" for v by (simp add: boolCoerceEqual_def boolNorm_def)
  moreover have "sprint lib raw = ''<nil>''" if "is_nil raw" for raw using that by (cases raw) auto
  ultimately show ?thesis
    using assms
    by (auto simp: evalCondition_def Let_def eval_eq_def eval_neq_def zero_rhs_def cond_key_def)
qed

theorem eq_neq_partition_witness:
  "let c = empty_condition\<lparr>c_variable := ''n'', c_property := ''docstring''\<rparr>;
       row = [(''n.docstring'', ANil)]
   in fst (evalCondition int_lib row (c\<lparr>c_op := ''<>''\<rparr>) None) =
      (\<not> fst (evalCondition int_lib row (c\<lparr>c_op := ''=''\<rparr>) None))"
  using eq_neq_partition [of "empty_condition\<lparr>c_variable := ''n'', c_property := ''docstring''\<rparr>"
      int_lib "[(''n.docstring'', ANil)]" None]
  by (simp add: empty_condition_def)

text \<open>
  The text \<^verbatim>\<open><nil>\<close> is the exception: a NULL property satisfies both equality and
  inequality with it, because NULL is compared by the way it prints.
\<close>

lemma nil_text_overlap:
  assumes "row_get row (cond_key c) = ANil" and "c_rhsProperty c = []" and "c_value c = ''<nil>''"
  shows "fst (evalCondition lib row (c\<lparr>c_op := ''=''\<rparr>) cache) \<and>
    fst (evalCondition lib row (c\<lparr>c_op := ''<>''\<rparr>) cache)"
  using assms
  by (simp add: evalCondition_def Let_def eval_eq_def eval_neq_def zero_rhs_def cond_key_def)

theorem nil_text_overlap_witness:
  "let c = empty_condition\<lparr>c_variable := ''n'', c_property := ''docstring'', c_value := ''<nil>''\<rparr>
   in fst (evalCondition int_lib [] (c\<lparr>c_op := ''=''\<rparr>) None) \<and>
      fst (evalCondition int_lib [] (c\<lparr>c_op := ''<>''\<rparr>) None)"
  unfolding Let_def by (rule nil_text_overlap) (simp_all add: empty_condition_def)

end
