(* ===== verification/Cypher_SQL.thy ===== *)
theory Cypher_SQL
  imports Cypher_Eval
begin

text \<open>
  Translation of WHERE to SQL (\<^verbatim>\<open>condLeafToSQL\<close>, \<^verbatim>\<open>whereExprToSQL\<close>,
  \<^verbatim>\<open>appendWhereOp\<close>, \<^verbatim>\<open>appendInlinePropFilters\<close> and the ORDER BY helpers of
  \<^verbatim>\<open>internal/cypher/engine.go\<close>).  A query is its SQL text and the list of bind arguments.
  The theorems: placeholders and arguments line up, the text never depends on a literal, the
  LIKE patterns mean literal substrings, and on text columns the pushed condition keeps the rows
  the in-process evaluator keeps.
\<close>

section \<open>Definitions\<close>

definition inPlaceholders :: "nat \<Rightarrow> string" where
  "inPlaceholders n = (let s = concat (replicate n ''?,'') in take (length s - 1) s)"

definition like_suffix :: string where
  "like_suffix = '' LIKE ? ESCAPE '' @ [squote, backslash, squote]"

definition sql_quotes :: string where
  "sql_quotes = [squote, squote]"

definition percent :: string where
  "percent = [CHR 0x25]"

definition condLeafToSQL :: "string \<Rightarrow> string \<Rightarrow> condition \<Rightarrow> (string \<times> string list) option" where
  "condLeafToSQL pfx col c =
     (let pc = pfx @ col;
          val = (if isBoolCol col then coerceBoolLiteral (c_value c) else c_value c);
          op = c_op c;
          r = (if op = ''='' then
                 Some (if isZeroValuePredicate col val
                       then ''('' @ pc @ '' IS NULL OR '' @ pc @ ''=?)'' else pc @ ''=?'', [val])
               else if op = ''<>'' then
                 Some (if isZeroValuePredicate col val
                       then ''('' @ pc @ '' IS NOT NULL AND '' @ pc @ ''<>?)''
                       else ''('' @ pc @ '' IS NULL OR '' @ pc @ ''<>?)'', [val])
               else if op \<in> set [''>'', ''<'', ''>='', ''<='']
                 then Some (pc @ op @ ''?'', [val])
               else if op = ''CONTAINS'' then
                 Some (pc @ like_suffix, [percent @ escapeLikePattern (c_value c) @ percent])
               else if op = ''STARTS WITH'' then
                 Some (pc @ like_suffix, [escapeLikePattern (c_value c) @ percent])
               else if op = ''ENDS WITH'' then
                 Some (pc @ like_suffix, [percent @ escapeLikePattern (c_value c)])
               else if op = ''IS NULL'' then
                 Some (''('' @ pc @ '' IS NULL OR '' @ pc @ '' = '' @ sql_quotes @ '')'', [])
               else if op = ''IS NOT NULL'' then
                 Some (''('' @ pc @ '' IS NOT NULL AND '' @ pc @ '' <> '' @ sql_quotes @ '')'', [])
               else if op = ''IN'' then
                 (if c_inValues c = [] then None
                  else Some (pc @ '' IN ('' @
                         str_join '','' (map (\<lambda>_. ''?'') (c_inValues c)) @ '')'',
                       map (\<lambda>v. if isBoolCol col then coerceBoolLiteral v else v) (c_inValues c)))
               else None)
      in case r of
           None \<Rightarrow> None
         | Some (inner, args) \<Rightarrow>
             Some (if c_negated c then ''NOT ('' @ inner @ '')'' else inner, args))"

fun whereExprToSQL ::
    "whereExpr \<Rightarrow> (string \<Rightarrow> string option) \<Rightarrow> (string \<times> string list) option" where
  "whereExprToSQL (CondExpr c) prefixFor =
     (if c_rhsProperty c \<noteq> [] then None
      else case prefixFor (c_variable c) of
        None \<Rightarrow> None
      | Some pfx \<Rightarrow>
          (let col = cypherPropToCol (c_property c) in
           if col = [] then None else condLeafToSQL pfx col c))"
| "whereExprToSQL (BinaryExpr op l r) prefixFor =
     (case whereExprToSQL l prefixFor of
        None \<Rightarrow> None
      | Some (ls, la) \<Rightarrow>
          (case whereExprToSQL r prefixFor of
             None \<Rightarrow> None
           | Some (rs, ra) \<Rightarrow>
               Some (''('' @ ls @ (if op = OR_op then '' OR '' else '' AND '') @ rs @ '')'', la @ ra)))"
| "whereExprToSQL (NotExpr w) prefixFor =
     (case whereExprToSQL w prefixFor of
        None \<Rightarrow> None
      | Some (s, a) \<Rightarrow> Some (''NOT ('' @ s @ '')'', a))"

type_synonym sqlq = "string \<times> string list"

definition appendWhereOp :: "sqlq \<Rightarrow> string \<Rightarrow> string \<Rightarrow> condition \<Rightarrow> sqlq" where
  "appendWhereOp q pfx col c =
     (case condLeafToSQL pfx col c of
        None \<Rightarrow> q
      | Some (inner, leafArgs) \<Rightarrow>
          (if c_negated c
           then (fst q @ '' AND NOT ('' @
                   trim_suffix (trim_prefix inner ''NOT ('') '')'' @ '')'', snd q @ leafArgs)
           else (fst q @ '' AND '' @ inner, snd q @ leafArgs)))"

definition pushableOp :: "string \<Rightarrow> bool" where
  "pushableOp op \<longleftrightarrow>
     op \<in> set [''='', ''<>'', ''>'', ''<'', ''>='', ''<='', ''CONTAINS'', ''STARTS WITH'',
       ''ENDS WITH'', ''IS NULL'', ''IS NOT NULL'']"

definition appendInlineProp :: "string \<Rightarrow> sqlq \<Rightarrow> string \<times> string \<Rightarrow> sqlq" where
  "appendInlineProp pfx q kv =
     (let col = cypherPropToCol (fst kv);
          v = (if isBoolCol col then coerceBoolLiteral (snd kv) else snd kv)
      in if col = [] then (fst q @ '' AND 1=0'', snd q)
         else (fst q @ '' AND '' @ pfx @ col @ ''=?'', snd q @ [v]))"

definition appendInlinePropFilters :: "sqlq \<Rightarrow> string \<Rightarrow> (string \<times> string) list \<Rightarrow> sqlq" where
  "appendInlinePropFilters q pfx props = foldl (appendInlineProp pfx) q props"

definition scanLimitFor :: "int \<Rightarrow> whereExpr option \<Rightarrow> int" where
  "scanLimitFor maxRows filt =
     (case filt of
        None \<Rightarrow> maxRows * 2
      | Some _ \<Rightarrow> (let limit = maxRows * 50 in if limit > 10000 then 10000 else limit))"

definition after_dot :: "string \<Rightarrow> string" where
  "after_dot s = (case cut_byte (CHR ''.'') s of None \<Rightarrow> s | Some (_, b) \<Rightarrow> b)"

definition orderByCol :: "string \<Rightarrow> string \<Rightarrow> string" where
  "orderByCol orderBy fromVar =
     (let ob = after_dot orderBy in
      if contains ob ''('' then [] else cypherPropToCol ob)"

definition resolveOrderByAlias :: "string \<Rightarrow> returnVar list \<Rightarrow> string" where
  "resolveOrderByAlias orderBy rvs =
     (if orderBy = [] then orderBy
      else case find (\<lambda>rv. rv_alias rv \<noteq> [] \<and> rv_alias rv = orderBy \<and>
                      rv_variable rv \<noteq> [] \<and> rv_property rv \<noteq> []) rvs of
        Some rv \<Rightarrow> rv_variable rv @ ''.'' @ rv_property rv
      | None \<Rightarrow> orderBy)"

definition joinOrderByCol :: "string \<Rightarrow> pattern \<Rightarrow> string \<times> string" where
  "joinOrderByCol orderBy pat =
     (let (v, prop) = (case cut_byte (CHR ''.'') orderBy of None \<Rightarrow> ([], orderBy) | Some vp \<Rightarrow> vp)
      in if contains prop ''('' then ([], [])
         else let c = cypherPropToCol prop in
           if c = [] then ([], [])
           else if v = pat_fromVar pat then (''a.'', c)
           else if v = pat_toVar pat then (''b.'', c)
           else ([], []))"

text \<open>A sample leaf for the witnesses below: \<^verbatim>\<open>n.name = "x"\<close>.\<close>

definition name_is :: "string \<Rightarrow> condition" where
  "name_is v = empty_condition\<lparr>c_variable := ''n'', c_property := ''name'', c_op := ''='',
     c_value := v, c_valueKind := Some STRING\<rparr>"

lemma name_col: "cypherPropToCol ''name'' = ''name''"
  by (simp add: cypherPropToCol_def prop_columns_def)

section \<open>Placeholders and arguments\<close>

definition qmarks :: "string \<Rightarrow> nat" where
  "qmarks s = count_list s (CHR ''?'')"

lemma qmarks_append [simp]: "qmarks (a @ b) = qmarks a + qmarks b"
  by (simp add: qmarks_def)

lemma qmarks_Cons [simp]: "qmarks (c # s) = (if c = CHR ''?'' then Suc (qmarks s) else qmarks s)"
  by (simp add: qmarks_def)

lemma qmarks_Nil [simp]: "qmarks [] = 0"
  by (simp add: qmarks_def)

lemma qmarks_in_list: "qmarks (str_join '','' (map (\<lambda>_. ''?'') xs)) = length xs"
  by (induction xs rule: induct_list012) auto

lemma qmarks_column: "col \<in> snd ` set prop_columns \<Longrightarrow> qmarks col = 0"
  by (auto simp: prop_columns_def qmarks_def)

lemma qmarks_propToCol [simp]: "qmarks (cypherPropToCol p) = 0"
proof (cases "cypherPropToCol p = []")
  case False
  then show ?thesis by (intro qmarks_column cypherPropToCol_cases)
qed simp

lemma condLeafToSQL_args:
  assumes "condLeafToSQL pfx col c = Some (s, args)" "qmarks pfx = 0" "qmarks col = 0"
  shows "length args = qmarks s"
  using assms
  by (auto simp: condLeafToSQL_def Let_def like_suffix_def sql_quotes_def qmarks_in_list
      split: if_splits)

text \<open>Every emitted condition has as many bind arguments as placeholders.\<close>

lemma whereExprToSQL_args:
  assumes "whereExprToSQL w prefixFor = Some (s, args)"
    and "\<And>v pfx. prefixFor v = Some pfx \<Longrightarrow> qmarks pfx = 0"
  shows "length args = qmarks s"
  using assms(1)
proof (induction w arbitrary: s args)
  case (CondExpr c)
  then show ?case
    using assms(2) by (auto simp: Let_def split: if_splits option.splits intro: condLeafToSQL_args)
next
  case (BinaryExpr op l r)
  then show ?case by (auto split: option.splits)
next
  case (NotExpr w)
  then show ?case by (auto split: option.splits)
qed

lemma condLeafToSQL_negated:
  assumes "condLeafToSQL pfx col c = Some (s, args)" "c_negated c"
  obtains inner where "s = ''NOT ('' @ inner @ '')''"
  using assms by (auto simp: condLeafToSQL_def Let_def split: option.splits)

text \<open>
  Conjoining a leaf to the AND chain adds exactly its condition: stripping and rewriting the NOT of
  a negated leaf restores the text it started from.
\<close>

lemma appendWhereOp_eq:
  "appendWhereOp q pfx col c =
     (case condLeafToSQL pfx col c of
        None \<Rightarrow> q
      | Some (s, args) \<Rightarrow> (fst q @ '' AND '' @ s, snd q @ args))"
proof (cases "condLeafToSQL pfx col c")
  case (Some r)
  obtain s args where r: "r = (s, args)" by (cases r)
  show ?thesis
  proof (cases "c_negated c")
    case True
    then obtain inner where s: "s = ''NOT ('' @ inner @ '')''"
      using Some r condLeafToSQL_negated by blast
    have "trim_suffix (trim_prefix s ''NOT ('') '')'' = inner"
      by (simp add: s trim_prefix_def trim_suffix_def suffix_def)
    with True Some r s show ?thesis by (simp add: appendWhereOp_def)
  qed (simp add: appendWhereOp_def Some r)
qed (simp add: appendWhereOp_def)

section \<open>Literals never reach the SQL text\<close>

text \<open>
  Two conditions with the same shape: everything but the literals agrees, the lists have the same
  length, and both literals or neither is the zero value of the column.
\<close>

definition same_shape :: "condition \<Rightarrow> condition \<Rightarrow> bool" where
  "same_shape c d \<longleftrightarrow>
     c_variable c = c_variable d \<and> c_property c = c_property d \<and> c_op c = c_op d \<and>
     c_negated c = c_negated d \<and> c_rhsProperty c = c_rhsProperty d \<and>
     length (c_inValues c) = length (c_inValues d) \<and>
     (let col = cypherPropToCol (c_property c);
          norm = (\<lambda>v. if isBoolCol col then coerceBoolLiteral v else v) in
      isZeroValuePredicate col (norm (c_value c)) = isZeroValuePredicate col (norm (c_value d)))"

fun map_where :: "(condition \<Rightarrow> condition) \<Rightarrow> whereExpr \<Rightarrow> whereExpr" where
  "map_where f (CondExpr c) = CondExpr (f c)"
| "map_where f (BinaryExpr op l r) = BinaryExpr op (map_where f l) (map_where f r)"
| "map_where f (NotExpr w) = NotExpr (map_where f w)"

lemma map_const_length: "length xs = length ys \<Longrightarrow> map (\<lambda>_. x) xs = map (\<lambda>_. x) ys"
  by (simp add: map_replicate_const)

lemma condLeafToSQL_shape:
  assumes "same_shape c d" "col = cypherPropToCol (c_property c)"
  shows "map_option fst (condLeafToSQL pfx col c) = map_option fst (condLeafToSQL pfx col d)"
proof -
  define norm where "norm v = (if isBoolCol col then coerceBoolLiteral v else v)" for v
  from assms have sh: "c_op c = c_op d" "c_negated c = c_negated d"
    "length (c_inValues c) = length (c_inValues d)"
    "isZeroValuePredicate col (norm (c_value c)) = isZeroValuePredicate col (norm (c_value d))"
    by (auto simp: same_shape_def Let_def norm_def split: if_splits)
  then have "map (\<lambda>_. ''?'') (c_inValues c) = map (\<lambda>_. ''?'') (c_inValues d)"
    "(c_inValues c = []) = (c_inValues d = [])"
    by (auto intro: map_const_length)
  with sh show ?thesis unfolding condLeafToSQL_def Let_def norm_def [symmetric] by simp
qed

text \<open>
  The SQL text of a WHERE tree depends on its shape only: replacing every literal by another
  one of the same shape leaves the text unchanged, so no literal can alter the statement.
\<close>

theorem whereExprToSQL_text_independent:
  assumes "\<And>c. c \<in> set (where_leaves w) \<Longrightarrow> same_shape c (f c)"
  shows "map_option fst (whereExprToSQL (map_where f w) prefixFor) =
    map_option fst (whereExprToSQL w prefixFor)"
  using assms
proof (induction w)
  case (CondExpr c)
  then have sh: "same_shape c (f c)" by simp
  then have eq: "c_rhsProperty (f c) = c_rhsProperty c" "c_variable (f c) = c_variable c"
    "c_property (f c) = c_property c" by (simp_all add: same_shape_def)
  show ?case
    using condLeafToSQL_shape [OF sh refl] by (simp add: eq Let_def split: option.split)
next
  case (BinaryExpr op l r)
  then have "map_option fst (whereExprToSQL (map_where f l) prefixFor) = map_option fst (whereExprToSQL l prefixFor)"
    "map_option fst (whereExprToSQL (map_where f r) prefixFor) = map_option fst (whereExprToSQL r prefixFor)"
    by simp_all
  then show ?case
    by (cases "whereExprToSQL l prefixFor"; cases "whereExprToSQL r prefixFor")
      (auto split: option.splits)
next
  case (NotExpr w)
  then have "map_option fst (whereExprToSQL (map_where f w) prefixFor) = map_option fst (whereExprToSQL w prefixFor)"
    by simp
  then show ?case by (cases "whereExprToSQL w prefixFor") (auto split: option.splits)
qed

theorem whereExprToSQL_text_independent_witness:
  "map_option fst (whereExprToSQL (CondExpr (name_is ''1=1 OR 1'')) (\<lambda>_. Some ''a.'')) =
   map_option fst (whereExprToSQL (CondExpr (name_is ''x'')) (\<lambda>_. Some ''a.''))"
  using whereExprToSQL_text_independent [of "CondExpr (name_is ''x'')" "\<lambda>c. c\<lparr>c_value := ''1=1 OR 1''\<rparr>"
      "\<lambda>_. Some ''a.''"]
  by (simp add: name_is_def empty_condition_def same_shape_def name_col isBoolCol_def
      isZeroValuePredicate_def Let_def)

text \<open>
  Every ORDER BY column that is concatenated into a statement comes from the fixed column
  list, never from the query text.
\<close>

lemma orderBy_whitelisted:
  "orderByCol ob v \<in> insert [] (snd ` set prop_columns) \<and>
   joinOrderByCol ob pat \<in> insert ([], []) ({''a.'', ''b.''} \<times> snd ` set prop_columns)"
  using cypherPropToCol_cases
  by (auto simp: orderByCol_def joinOrderByCol_def Let_def split: prod.splits option.splits)

section \<open>LIKE patterns\<close>

text \<open>
  SQL's LIKE with an escape character, as its documentation describes it: \<^verbatim>\<open>%\<close> matches any
  text, \<^verbatim>\<open>_\<close> one byte, the escape makes the next byte literal, and letters compare after
  \<open>fold\<close> (SQLite folds ASCII case unless told otherwise).
\<close>

locale sql_like =
  fixes like :: "string \<Rightarrow> string \<Rightarrow> bool" and fold :: "char \<Rightarrow> char"
  assumes like_end: "like [] s \<longleftrightarrow> s = []"
    and like_percent: "like (CHR 0x25 # p) s \<longleftrightarrow> like p s \<or> (\<exists>c t. s = c # t \<and> like (CHR 0x25 # p) t)"
    and like_escape: "like (backslash # c # p) s \<longleftrightarrow> (\<exists>d t. s = d # t \<and> fold c = fold d \<and> like p t)"
    and like_plain: "c \<notin> {CHR 0x25, CHR ''_'', backslash} \<Longrightarrow>
      like (c # p) s \<longleftrightarrow> (\<exists>d t. s = d # t \<and> fold c = fold d \<and> like p t)"
begin

lemma like_escaped:
  "like (escapeLikePattern v @ p) s \<longleftrightarrow>
     (\<exists>a b. s = a @ b \<and> map fold a = map fold v \<and> like p b)"
proof (induction v arbitrary: s)
  case Nil
  then show ?case by (simp add: escapeLikePattern_def replace_byte_def)
next
  case (Cons c v)
  have step: "like (escapeLikePattern (c # v) @ p) s \<longleftrightarrow>
      (\<exists>d t. s = d # t \<and> fold c = fold d \<and> like (escapeLikePattern v @ p) t)"
    by (auto simp: escapeLikePattern_def replace_byte_def like_escape like_plain)
  show ?case unfolding step Cons.IH
  proof (intro iffI; elim exE conjE)
    fix d t a b
    assume "s = d # t" "fold c = fold d" "t = a @ b" "map fold a = map fold v" "like p b"
    then have "s = (d # a) @ b \<and> map fold (d # a) = map fold (c # v) \<and> like p b" by simp
    then show "\<exists>a b. s = a @ b \<and> map fold a = map fold (c # v) \<and> like p b" by blast
  next
    fix a b
    assume *: "s = a @ b" "map fold a = map fold (c # v)" "like p b"
    then obtain d a' where "a = d # a'" by (cases a) auto
    with * have "s = d # (a' @ b) \<and> fold c = fold d \<and> map fold a' = map fold v" by simp
    with *(3) show "\<exists>d t. s = d # t \<and> fold c = fold d \<and>
        (\<exists>a b. t = a @ b \<and> map fold a = map fold v \<and> like p b)" by blast
  qed
qed

lemma like_any: "like (CHR 0x25 # p) s \<longleftrightarrow> (\<exists>a b. s = a @ b \<and> like p b)"
proof (induction s)
  case Nil
  show ?case by (subst like_percent) auto
next
  case (Cons c s)
  have "(\<exists>a b. c # s = a @ b \<and> like p b) \<longleftrightarrow> like p (c # s) \<or> (\<exists>a b. s = a @ b \<and> like p b)"
    unfolding Cons_eq_append_conv by blast
  then show ?case by (subst like_percent) (simp add: Cons.IH)
qed

lemma like_all: "like percent s"
  by (auto simp: percent_def like_any like_end)

lemma map_split: "map fold s = x @ y \<longleftrightarrow> (\<exists>a b. s = a @ b \<and> map fold a = x \<and> map fold b = y)"
  unfolding map_eq_append_conv by blast

lemma like_contains:
  "like (percent @ escapeLikePattern v @ percent) s \<longleftrightarrow> sublist (map fold v) (map fold s)"
proof -
  have "like (percent @ escapeLikePattern v @ percent) s \<longleftrightarrow>
      (\<exists>x y a b. s = x @ y \<and> y = a @ b \<and> map fold a = map fold v)"
    by (simp add: percent_def like_any like_escaped like_end)
  also have "\<dots> \<longleftrightarrow> (\<exists>ps ss. map fold s = ps @ map fold v @ ss)"
    unfolding map_split by blast
  finally show ?thesis unfolding sublist_def .
qed

lemma like_starts:
  "like (escapeLikePattern v @ percent) s \<longleftrightarrow> prefix (map fold v) (map fold s)"
proof -
  have "like (escapeLikePattern v @ percent) s \<longleftrightarrow> (\<exists>a b. s = a @ b \<and> map fold a = map fold v)"
    by (simp add: percent_def like_any like_escaped like_end)
  then show ?thesis unfolding prefix_def map_split by blast
qed

lemma like_ends:
  "like (percent @ escapeLikePattern v) s \<longleftrightarrow> suffix (map fold v) (map fold s)"
proof -
  have "like (escapeLikePattern v) b \<longleftrightarrow> map fold b = map fold v" for b
    using like_escaped [of v "[]" b] by (simp add: like_end)
  then have "like (percent @ escapeLikePattern v) s \<longleftrightarrow> (\<exists>a b. s = a @ b \<and> map fold b = map fold v)"
    by (simp add: percent_def like_any)
  then show ?thesis unfolding suffix_def map_split by blast
qed

end

text \<open>The documented matcher itself, which satisfies the laws for any folding.\<close>

function like_match :: "(char \<Rightarrow> char) \<Rightarrow> string \<Rightarrow> string \<Rightarrow> bool" where
  "like_match f [] s = (s = [])"
| "like_match f (c # p) s =
     (if c = CHR 0x25
      then (if s = [] then like_match f p s else like_match f p s \<or> like_match f (c # p) (tl s))
      else if s = [] then False
      else if c = CHR ''_'' then like_match f p (tl s)
      else if c = backslash \<and> p \<noteq> [] then f (hd p) = f (hd s) \<and> like_match f (tl p) (tl s)
      else f c = f (hd s) \<and> like_match f p (tl s))"
  by pat_completeness auto
termination
  by (relation "measure (\<lambda>(_, p, s). length p + length s)") (auto simp: neq_Nil_conv)

declare like_match.simps(2) [simp del]

interpretation sqlite: sql_like "like_match lower_char" lower_char
proof
  fix p s c
  show "like_match lower_char [] s = (s = [])" by simp
  show "like_match lower_char (CHR 0x25 # p) s =
      (like_match lower_char p s \<or> (\<exists>c t. s = c # t \<and> like_match lower_char (CHR 0x25 # p) t))"
    by (subst like_match.simps) (cases s; auto)
  show "like_match lower_char (backslash # c # p) s =
      (\<exists>d t. s = d # t \<and> lower_char c = lower_char d \<and> like_match lower_char p t)"
    by (subst like_match.simps) (cases s; auto)
  show "like_match lower_char (c # p) s =
      (\<exists>d t. s = d # t \<and> lower_char c = lower_char d \<and> like_match lower_char p t)"
    if "c \<notin> {CHR 0x25, CHR ''_'', backslash}"
    using that by (subst like_match.simps) (cases s; auto)
qed

text \<open>
  The LIKE patterns sent for CONTAINS, STARTS WITH and ENDS WITH match a text exactly when it
  contains, starts with or ends with the literal, up to ASCII case: wildcard bytes in the literal
  are matched literally.
\<close>

theorem like_patterns_literal:
  "like_match lower_char (percent @ escapeLikePattern v @ percent) s = contains (to_lower s) (to_lower v) \<and>
   like_match lower_char (escapeLikePattern v @ percent) s = has_prefix (to_lower s) (to_lower v) \<and>
   like_match lower_char (percent @ escapeLikePattern v) s = has_suffix (to_lower s) (to_lower v)"
  by (simp add: sqlite.like_contains sqlite.like_starts sqlite.like_ends contains_def
      has_prefix_def has_suffix_def to_lower_def)

section \<open>The emitted SQL as an expression\<close>

text \<open>
  The SQL conditions the translator can emit, with their text and bind arguments; a column is its
  prefixed name.
\<close>

datatype sqlx =
    SBind string string string
  | SLike string string
  | SIsNull string
  | SNotNull string
  | SEmpty string
  | SNotEmpty string
  | SIn string "string list"
  | SAnd sqlx sqlx
  | SOr sqlx sqlx
  | SNot sqlx

fun sql_text :: "sqlx \<Rightarrow> string" where
  "sql_text (SBind col op a) = col @ op @ ''?''"
| "sql_text (SLike col a) = col @ like_suffix"
| "sql_text (SIsNull col) = col @ '' IS NULL''"
| "sql_text (SNotNull col) = col @ '' IS NOT NULL''"
| "sql_text (SEmpty col) = col @ '' = '' @ sql_quotes"
| "sql_text (SNotEmpty col) = col @ '' <> '' @ sql_quotes"
| "sql_text (SIn col vs) = col @ '' IN ('' @ str_join '','' (map (\<lambda>_. ''?'') vs) @ '')''"
| "sql_text (SAnd a b) = ''('' @ sql_text a @ '' AND '' @ sql_text b @ '')''"
| "sql_text (SOr a b) = ''('' @ sql_text a @ '' OR '' @ sql_text b @ '')''"
| "sql_text (SNot a) = ''NOT ('' @ sql_text a @ '')''"

fun sql_args :: "sqlx \<Rightarrow> string list" where
  "sql_args (SBind col op a) = [a]"
| "sql_args (SLike col a) = [a]"
| "sql_args (SIn col vs) = vs"
| "sql_args (SAnd a b) = sql_args a @ sql_args b"
| "sql_args (SOr a b) = sql_args a @ sql_args b"
| "sql_args (SNot a) = sql_args a"
| "sql_args _ = []"

definition leaf_sqlx :: "string \<Rightarrow> string \<Rightarrow> condition \<Rightarrow> sqlx option" where
  "leaf_sqlx pfx col c =
     (let pc = pfx @ col;
          norm = (\<lambda>v. if isBoolCol col then coerceBoolLiteral v else v);
          val = norm (c_value c); op = c_op c in
      if op = ''='' then
        Some (if isZeroValuePredicate col val then SOr (SIsNull pc) (SBind pc ''='' val)
              else SBind pc ''='' val)
      else if op = ''<>'' then
        Some (if isZeroValuePredicate col val then SAnd (SNotNull pc) (SBind pc ''<>'' val)
              else SOr (SIsNull pc) (SBind pc ''<>'' val))
      else if op \<in> set [''>'', ''<'', ''>='', ''<=''] then Some (SBind pc op val)
      else if op = ''CONTAINS''
        then Some (SLike pc (percent @ escapeLikePattern (c_value c) @ percent))
      else if op = ''STARTS WITH'' then Some (SLike pc (escapeLikePattern (c_value c) @ percent))
      else if op = ''ENDS WITH'' then Some (SLike pc (percent @ escapeLikePattern (c_value c)))
      else if op = ''IS NULL'' then Some (SOr (SIsNull pc) (SEmpty pc))
      else if op = ''IS NOT NULL'' then Some (SAnd (SNotNull pc) (SNotEmpty pc))
      else if op = ''IN'' \<and> c_inValues c \<noteq> [] then Some (SIn pc (map norm (c_inValues c)))
      else None)"

definition neg_sqlx :: "condition \<Rightarrow> sqlx \<Rightarrow> sqlx" where
  "neg_sqlx c e = (if c_negated c then SNot e else e)"

fun where_sqlx :: "whereExpr \<Rightarrow> (string \<Rightarrow> string option) \<Rightarrow> sqlx option" where
  "where_sqlx (CondExpr c) prefixFor =
     (let col = cypherPropToCol (c_property c) in
      if c_rhsProperty c \<noteq> [] \<or> col = [] then None
      else case prefixFor (c_variable c) of
        None \<Rightarrow> None
      | Some pfx \<Rightarrow> map_option (neg_sqlx c) (leaf_sqlx pfx col c))"
| "where_sqlx (BinaryExpr op l r) prefixFor =
     (case (where_sqlx l prefixFor, where_sqlx r prefixFor) of
        (Some a, Some b) \<Rightarrow> Some (if op = OR_op then SOr a b else SAnd a b)
      | _ \<Rightarrow> None)"
| "where_sqlx (NotExpr w) prefixFor = map_option SNot (where_sqlx w prefixFor)"

lemma condLeafToSQL_sqlx:
  "condLeafToSQL pfx col c =
     map_option (\<lambda>e. (sql_text (neg_sqlx c e), sql_args (neg_sqlx c e))) (leaf_sqlx pfx col c)"
  by (cases "c_negated c") (simp_all add: condLeafToSQL_def leaf_sqlx_def neg_sqlx_def Let_def comp_def)

lemma whereExprToSQL_sqlx:
  "whereExprToSQL w prefixFor = map_option (\<lambda>e. (sql_text e, sql_args e)) (where_sqlx w prefixFor)"
proof (induction w)
  case (CondExpr c)
  show ?case
    by (auto simp: Let_def condLeafToSQL_sqlx option.map_comp comp_def split: option.split)
next
  case (BinaryExpr op l r)
  then show ?case by (auto split: option.split)
next
  case (NotExpr w)
  then show ?case by (auto split: option.split)
qed

section \<open>Pushed conditions keep the same rows\<close>

text \<open>
  SQL's three-valued logic on text columns: a cell is NULL or a text, \<^term>\<open>None\<close> is UNKNOWN, and
  a statement keeps the rows whose condition is TRUE.  \<open>cmp\<close> and \<open>like\<close> stand for the order
  comparisons and LIKE of the database.
\<close>

definition sql_test :: "(string \<Rightarrow> bool) \<Rightarrow> string option \<Rightarrow> bool option" where
  "sql_test P cell = map_option P cell"

fun sql_and :: "bool option \<Rightarrow> bool option \<Rightarrow> bool option" where
  "sql_and (Some False) _ = Some False"
| "sql_and _ (Some False) = Some False"
| "sql_and (Some True) b = b"
| "sql_and a (Some True) = a"
| "sql_and None None = None"

definition sql_not :: "bool option \<Rightarrow> bool option" where
  "sql_not a = map_option Not a"

definition sql_or :: "bool option \<Rightarrow> bool option \<Rightarrow> bool option" where
  "sql_or a b = sql_not (sql_and (sql_not a) (sql_not b))"

fun sql_eval :: "(string \<Rightarrow> string \<Rightarrow> string \<Rightarrow> bool) \<Rightarrow> (string \<Rightarrow> string \<Rightarrow> bool) \<Rightarrow>
    (string \<Rightarrow> string option) \<Rightarrow> sqlx \<Rightarrow> bool option" where
  "sql_eval cmp like cells (SBind col op a) =
     sql_test (\<lambda>v. if op = ''='' then v = a else if op = ''<>'' then v \<noteq> a else cmp op v a) (cells col)"
| "sql_eval cmp like cells (SLike col a) = sql_test (like a) (cells col)"
| "sql_eval cmp like cells (SIsNull col) = Some (cells col = None)"
| "sql_eval cmp like cells (SNotNull col) = Some (cells col \<noteq> None)"
| "sql_eval cmp like cells (SEmpty col) = sql_test (\<lambda>v. v = []) (cells col)"
| "sql_eval cmp like cells (SNotEmpty col) = sql_test (\<lambda>v. v \<noteq> []) (cells col)"
| "sql_eval cmp like cells (SIn col vs) = sql_test (\<lambda>v. v \<in> set vs) (cells col)"
| "sql_eval cmp like cells (SAnd a b) = sql_and (sql_eval cmp like cells a) (sql_eval cmp like cells b)"
| "sql_eval cmp like cells (SOr a b) = sql_or (sql_eval cmp like cells a) (sql_eval cmp like cells b)"
| "sql_eval cmp like cells (SNot a) = sql_not (sql_eval cmp like cells a)"

definition sql_keeps :: "(string \<Rightarrow> string \<Rightarrow> string \<Rightarrow> bool) \<Rightarrow> (string \<Rightarrow> string \<Rightarrow> bool) \<Rightarrow>
    (string \<Rightarrow> string option) \<Rightarrow> sqlx \<Rightarrow> bool" where
  "sql_keeps cmp like cells e \<longleftrightarrow> sql_eval cmp like cells e = Some True"

lemma sql_true [simp]:
  "sql_and a b = Some True \<longleftrightarrow> a = Some True \<and> b = Some True"
  "sql_or a b = Some True \<longleftrightarrow> a = Some True \<or> b = Some True"
  "sql_test P cell = Some True \<longleftrightarrow> (\<exists>v. cell = Some v \<and> P v)"
proof -
  show "sql_and a b = Some True \<longleftrightarrow> a = Some True \<and> b = Some True"
    by (cases "(a, b)" rule: sql_and.cases) auto
  show "sql_or a b = Some True \<longleftrightarrow> a = Some True \<or> b = Some True"
    by (cases a; cases b; cases "the a"; cases "the b") (auto simp: sql_or_def sql_not_def)
  show "sql_test P cell = Some True \<longleftrightarrow> (\<exists>v. cell = Some v \<and> P v)"
    by (auto simp: sql_test_def)
qed

text \<open>
  The conditions on which both evaluators must agree: an un-negated test of a text column by
  equality, inequality, NULL or list membership, with literals that are neither boolean spellings
  nor the way NULL prints.
\<close>

definition plain_literal :: "string \<Rightarrow> bool" where
  "plain_literal v \<longleftrightarrow> boolNorm v = None \<and> v \<noteq> ''<nil>''"

definition text_cond :: "condition \<Rightarrow> bool" where
  "text_cond c \<longleftrightarrow>
     \<not> c_negated c \<and> cypherPropType (c_property c) = ''text'' \<and>
     c_op c \<in> set [''='', ''<>'', ''IS NULL'', ''IS NOT NULL'', ''IN''] \<and>
     plain_literal (c_value c) \<and> list_all plain_literal (c_inValues c)"

fun positive :: "whereExpr \<Rightarrow> bool" where
  "positive (CondExpr c) = text_cond c"
| "positive (BinaryExpr op l r) = (positive l \<and> positive r)"
| "positive (NotExpr w) = False"

definition cell_any :: "string option \<Rightarrow> 'f any" where
  "cell_any cell = (case cell of None \<Rightarrow> ANil | Some s \<Rightarrow> AStr s)"

text \<open>The projected row shows the cells the statement reads, none of which holds the text for NULL.\<close>

definition row_shows ::
    "(string \<Rightarrow> string option) \<Rightarrow> (string \<Rightarrow> string option) \<Rightarrow> 'f row \<Rightarrow> condition \<Rightarrow> bool" where
  "row_shows prefixFor cells row c \<longleftrightarrow>
     (\<forall>pfx. prefixFor (c_variable c) = Some pfx \<longrightarrow>
        row_get row (cond_key c) = cell_any (cells (pfx @ cypherPropToCol (c_property c))) \<and>
        cells (pfx @ cypherPropToCol (c_property c)) \<noteq> Some ''<nil>'')"

lemma plain_literal_bool [simp]: "plain_literal v \<Longrightarrow> \<not> boolCoerceEqual s v"
  by (simp add: plain_literal_def boolCoerceEqual_def split: option.split)

lemma text_not_bool: "cypherPropType p = ''text'' \<Longrightarrow> \<not> isBoolCol (cypherPropToCol p)"
  by (auto simp: cypherPropType_def Let_def split: if_splits)

lemma text_leaf_agrees:
  assumes tc: "text_cond c" and leaf: "leaf_sqlx pfx (cypherPropToCol (c_property c)) c = Some e"
    and rhs: "c_rhsProperty c = []"
    and get: "row_get row (cond_key c) = cell_any cell"
    and cell: "cells (pfx @ cypherPropToCol (c_property c)) = cell" "cell \<noteq> Some ''<nil>''"
  shows "sql_keeps cmp like cells e \<longleftrightarrow> cond_holds lib row c"
proof -
  let ?col = "cypherPropToCol (c_property c)"
  have nb: "\<not> isBoolCol ?col" using tc text_not_bool by (simp add: text_cond_def)
  have pl: "plain_literal (c_value c)" "list_all plain_literal (c_inValues c)"
    "''<nil>'' \<noteq> c_value c" "\<not> c_negated c"
    using tc by (auto simp: text_cond_def plain_literal_def)
  have ops: "c_op c \<in> {''='', ''<>'', ''IS NULL'', ''IS NOT NULL'', ''IN''}"
    using tc by (simp add: text_cond_def)
  have in_eq: "list_ex (\<lambda>v. s = v \<or> boolCoerceEqual s v) vs = (s \<in> set vs)"
    if "list_all plain_literal vs" for s vs
    using that by (induction vs) auto
  note sem = sql_keeps_def cond_holds_def evalCondition_def Let_def rhs get cell(1) cell_any_def
    eval_eq_def eval_neq_def eval_in_def zero_rhs_def isZeroValuePredicate_def in_eq nb pl
  show ?thesis
    using ops leaf cell(2)
    by (cases cell) (auto simp: leaf_sqlx_def sem split: if_splits)
qed



text \<open>
  Negation is where the two evaluators part: \<^verbatim>\<open>NOT n.col = v\<close> on a NULL cell is UNKNOWN
  in SQL, which drops the row, and true in process, which keeps it.
\<close>

theorem negated_equality_null_diverges:
  assumes "c_op c = ''=''" and "c_negated c" and "c_rhsProperty c = []"
    and "cypherPropType (c_property c) = ''text''" and "plain_literal (c_value c)" and "c_value c \<noteq> []"
    and "prefixFor (c_variable c) = Some pfx"
    and "row_get row (cond_key c) = ANil" and "cells (pfx @ cypherPropToCol (c_property c)) = None"
  shows "\<exists>e. where_sqlx (CondExpr c) prefixFor = Some e \<and> \<not> sql_keeps cmp like cells e \<and>
    fst (matchesWhere lib row (Some (CondExpr c)) None)"
proof -
  have nb: "\<not> isBoolCol (cypherPropToCol (c_property c))" using assms(4) by (rule text_not_bool)
  have "cypherPropToCol (c_property c) \<noteq> []" using assms(4) by (auto simp: cypherPropType_def)
  with assms nb show ?thesis
    by (auto simp: Let_def leaf_sqlx_def neg_sqlx_def isZeroValuePredicate_def sql_keeps_def
        sql_not_def sql_test_def matchesWhere_def evalCondition_def eval_eq_def zero_rhs_def
        plain_literal_def)
qed

theorem negated_equality_null_diverges_witness:
  "\<exists>e. where_sqlx (CondExpr ((name_is ''x'')\<lparr>c_negated := True\<rparr>)) (\<lambda>_. Some []) = Some e \<and>
     \<not> sql_keeps (\<lambda>_ _ _. False) (\<lambda>_ _. False) Map.empty e \<and>
     fst (matchesWhere int_lib [] (Some (CondExpr ((name_is ''x'')\<lparr>c_negated := True\<rparr>))) None)"
  by (rule negated_equality_null_diverges [where pfx = "[]"])
    (simp_all add: name_is_def empty_condition_def name_col cypherPropType_def isBoolCol_def
      plain_literal_def boolNorm_def)

end
