(* ===== verification/Cypher_Warnings.thy ===== *)
theory Cypher_Warnings
  imports Cypher_Vocab
begin

text \<open>
  The advisory collectors of the query engine (\<^verbatim>\<open>collect...Warnings\<close> in
  \<^verbatim>\<open>internal/cypher/engine.go\<close>) that look at the parsed query only.  A warning is a value
  of \<open>warning\<close>, one constructor per message with the values the message interpolates.  A Go
  set that is sorted before use is \<open>sorted_set\<close> of the list of its insertions.  The theorems say
  which queries are silent: the collectors warn exactly about the references that do not resolve.
\<close>

section \<open>Definitions\<close>

datatype warning =
    WUnknownProperty string bool
  | WUnknownVariable string "string list"
  | WCrossColumn string
  | WTypeMismatch string string tkind
  | WAggregateType string string string
  | WUnknownOrderBy string
  | WBareProperty string "string list"
  | WOrderByAggregate string
  | WAggregateMixed string string
  | WRepeatedVar string
  | WInvertedHops int int
  | WClampedHops int
  | WUnknownEdgeKind string
  | WKindLabelTypo string "string list"
  | WUnknownEnumValue string string bool "string list"
  | WKindLabelMismatch string string "string list"
  | WMaxRowsTrim int int

definition sorted_set :: "('a :: linorder) list \<Rightarrow> 'a list" where
  "sorted_set xs = sort (remdups xs)"

text \<open>Every condition the collectors visit: the flat list first, then the tree.\<close>

definition all_conditions :: "queryAST \<Rightarrow> condition list" where
  "all_conditions q =
     q_conditions q @ (case q_where q of None \<Rightarrow> [] | Some w \<Rightarrow> where_leaves w)"

definition edge_vars :: "queryAST \<Rightarrow> string list" where
  "edge_vars q = filter (\<lambda>v. v \<noteq> []) (map pat_edgeVar (q_patterns q))"

definition bound_vars :: "queryAST \<Rightarrow> string list" where
  "bound_vars q =
     filter (\<lambda>v. v \<noteq> [])
       (concat (map (\<lambda>p. [pat_fromVar p, pat_toVar p, pat_edgeVar p]) (q_patterns q)))"

subsection \<open>Unknown properties\<close>

type_synonym unknown_map = "(string \<times> bool) list"

definition check_property :: "string list \<Rightarrow> unknown_map \<Rightarrow> string \<times> string \<Rightarrow> unknown_map" where
  "check_property edges unknown vp =
     (let (v, prop) = vp; isEdge = (v \<noteq> [] \<and> v \<in> set edges) in
      if prop = [] then unknown
      else if (if isEdge then isKnownEdgeProperty prop else cypherPropToCol prop \<noteq> []) then unknown
      else case map_of unknown prop of
        None \<Rightarrow> AList.update prop isEdge unknown
      | Some existing \<Rightarrow>
          (if isEdge \<and> \<not> existing then AList.update prop isEdge unknown else unknown))"

definition property_refs :: "queryAST \<Rightarrow> (string \<times> string) list" where
  "property_refs q =
     map (\<lambda>c. (c_variable c, c_property c)) (all_conditions q) @
     concat (map (\<lambda>p. map (\<lambda>kv. (pat_fromVar p, fst kv)) (pat_fromProps p) @
                      map (\<lambda>kv. (pat_toVar p, fst kv)) (pat_toProps p)) (q_patterns q)) @
     map (\<lambda>rv. (rv_variable rv, rv_property rv)) (q_returnVars q)"

definition collectUnknownPropertyWarnings :: "queryAST \<Rightarrow> warning list" where
  "collectUnknownPropertyWarnings q =
     (let unknown = foldl (check_property (edge_vars q)) [] (property_refs q) in
      map (\<lambda>n. WUnknownProperty n (map_of unknown n = Some True)) (sorted_set (map fst unknown)))"

subsection \<open>Unknown variables\<close>

definition variable_refs :: "queryAST \<Rightarrow> (string \<times> string) list" where
  "variable_refs q =
     concat (map (\<lambda>c. (c_variable c, c_property c) #
        (if c_rhsVariable c \<noteq> [] then [(c_rhsVariable c, c_rhsProperty c)] else [])) (all_conditions q)) @
     map (\<lambda>rv. (rv_variable rv, rv_property rv)) (q_returnVars q)"

definition collectUnknownVariableWarnings :: "queryAST \<Rightarrow> warning list" where
  "collectUnknownVariableWarnings q =
     (let bound = bound_vars q in
      if bound = [] then []
      else map (\<lambda>n. WUnknownVariable n (sorted_set bound))
             (sorted_set (map fst (filter (\<lambda>(v, p). v \<noteq> [] \<and> p \<noteq> [] \<and> v \<notin> set bound)
                (variable_refs q)))))"

subsection \<open>Comparisons and types\<close>

definition cross_clause :: "condition \<Rightarrow> string" where
  "cross_clause c =
     c_variable c @ ''.'' @ c_property c @ '' '' @ c_op c @ '' '' @
     c_rhsVariable c @ ''.'' @ c_rhsProperty c"

definition collectCrossColumnWarnings :: "queryAST \<Rightarrow> warning list" where
  "collectCrossColumnWarnings q =
     map WCrossColumn
       (sorted_set (map cross_clause (filter (\<lambda>c. c_rhsProperty c \<noteq> []) (all_conditions q))))"

definition bad_literal :: "string \<Rightarrow> tkind \<Rightarrow> string \<Rightarrow> bool" where
  "bad_literal propType k v =
     (if propType = ''text'' then k = NUMBER
      else if propType = ''int'' \<or> propType = ''real'' then k = STRING
      else if propType = ''bool'' then
        (k = NUMBER \<and> v \<noteq> ''0'' \<and> v \<noteq> ''1'') \<or>
        (k = STRING \<and> to_lower v \<notin> set [''true'', ''false'', ''0'', ''1''])
      else False)"

definition type_mismatch :: "condition \<Rightarrow> (string \<times> tkind) option" where
  "type_mismatch c =
     (case c_valueKind c of
        None \<Rightarrow> None
      | Some k \<Rightarrow>
          (if c_property c = [] \<or> c_rhsProperty c \<noteq> [] then None
           else if c_op c \<notin> set [''='', ''<>'', ''>'', ''<'', ''>='', ''<=''] then None
           else if cypherPropType (c_property c) = [] then None
           else if bad_literal (cypherPropType (c_property c)) k (c_value c)
             then Some (c_property c, k) else None))"

definition collectTypeMismatchWarnings :: "queryAST \<Rightarrow> warning list" where
  "collectTypeMismatchWarnings q =
     map (\<lambda>(p, k). WTypeMismatch (cypherPropType p) p k)
       (sorted_set (List.map_filter type_mismatch (all_conditions q)))"

definition collectAggregateTypeMismatchWarnings :: "queryAST \<Rightarrow> warning list" where
  "collectAggregateTypeMismatchWarnings q =
     map (\<lambda>(fn, p). WAggregateType fn (cypherPropType p) p)
       (sorted_set (map (\<lambda>rv. (rv_fn rv, rv_property rv))
          (filter (\<lambda>rv. rv_fn rv \<in> set [''MIN'', ''MAX'', ''SUM'', ''AVG''] \<and> rv_property rv \<noteq> [] \<and>
              cypherPropType (rv_property rv) \<in> set [''text'', ''bool'']) (q_returnVars q))))"

subsection \<open>Projection and ordering\<close>

definition collectUnknownOrderByWarnings :: "queryAST \<Rightarrow> warning list" where
  "collectUnknownOrderByWarnings q =
     (let ob = q_orderBy q in
      if ob = [] \<or> contains ob ''('' then []
      else if list_ex (\<lambda>rv. rv_alias rv \<noteq> [] \<and> rv_alias rv = ob) (q_returnVars q) then []
      else let prop = (case cut_byte (CHR ''.'') ob of None \<Rightarrow> ob | Some (_, b) \<Rightarrow> b) in
        if prop = [] \<or> cypherPropToCol prop \<noteq> [] then [] else [WUnknownOrderBy ob])"

definition collectReturnBarePropertyWarnings :: "queryAST \<Rightarrow> warning list" where
  "collectReturnBarePropertyWarnings q =
     (let bound = bound_vars q in
      if bound = [] then []
      else map (\<lambda>rv. WBareProperty (rv_variable rv) (sorted_set bound))
             (filter (\<lambda>rv. rv_fn rv = [] \<and> rv_property rv = [] \<and> rv_variable rv \<noteq> [] \<and>
                 rv_variable rv \<noteq> ''*'' \<and> rv_variable rv \<notin> set bound \<and>
                 cypherPropToCol (rv_variable rv) \<noteq> []) (q_returnVars q)))"

text \<open>The text before the first parenthesis, when there is some.\<close>

definition fn_of :: "string \<Rightarrow> string option" where
  "fn_of ob = (case cut_byte (CHR ''('') ob of
      Some (a, _) \<Rightarrow> if a = [] then None else Some (trim_space a)
    | None \<Rightarrow> None)"

definition collectOrderByAggregateWithoutGroupingWarnings :: "queryAST \<Rightarrow> warning list" where
  "collectOrderByAggregateWithoutGroupingWarnings q =
     (if q_orderBy q = [] then []
      else let ob = trim_space (q_orderBy q) in
        case fn_of ob of
          None \<Rightarrow> []
        | Some fn \<Rightarrow>
            (if \<not> isAggFn (to_upper fn) \<or> hasAggregation q then [] else [WOrderByAggregate ob]))"

definition formatAggExpr :: "returnVar \<Rightarrow> string" where
  "formatAggExpr rv =
     (let inner = (if rv_property rv \<noteq> [] then rv_variable rv @ ''.'' @ rv_property rv
                   else rv_variable rv);
          expr = to_lower (rv_fn rv) @ ''('' @ inner @ '')''
      in if rv_alias rv \<noteq> [] then expr @ '' AS '' @ rv_alias rv else expr)"

definition formatBareCol :: "returnVar \<Rightarrow> string" where
  "formatBareCol rv =
     (if rv_property rv = [] then rv_variable rv else rv_variable rv @ ''.'' @ rv_property rv)"

text \<open>
  The scan for the first aliased aggregate and the first bare column keeps looking while the text
  found so far is empty.
\<close>

definition mixed_scan :: "string \<times> string \<Rightarrow> returnVar \<Rightarrow> string \<times> string" where
  "mixed_scan acc rv =
     (let (agg, bare) = acc in
      (if rv_fn rv \<noteq> [] \<and> rv_alias rv \<noteq> [] \<and> agg = [] then formatAggExpr rv else agg,
       if rv_fn rv = [] \<and> bare = [] then formatBareCol rv else bare))"

definition collectAggregateMixedWithBareWarnings :: "queryAST \<Rightarrow> warning list" where
  "collectAggregateMixedWithBareWarnings q =
     (if length (q_returnVars q) < 2 \<or> q_distinct q then []
      else if q_orderBy q \<noteq> [] \<and>
          (case fn_of (trim_space (q_orderBy q)) of None \<Rightarrow> False | Some fn \<Rightarrow> isAggFn fn) then []
      else let (agg, bare) = foldl mixed_scan ([], []) (q_returnVars q) in
        if agg = [] \<or> bare = [] then [] else [WAggregateMixed agg bare])"

subsection \<open>Patterns\<close>

definition collectRepeatedPatternVarWarnings :: "queryAST \<Rightarrow> warning list" where
  "collectRepeatedPatternVarWarnings q =
     map (\<lambda>p. WRepeatedVar (pat_fromVar p))
       (filter (\<lambda>p. pat_fromVar p \<noteq> [] \<and> pat_fromVar p = pat_toVar p \<and> pat_minHops p \<le> 1 \<and>
          pat_maxHops p \<le> 1) (q_patterns q))"

definition collectHopRangeWarnings :: "queryAST \<Rightarrow> warning list" where
  "collectHopRangeWarnings q =
     concat (map (\<lambda>p.
       (if pat_invertedHops p then [WInvertedHops (pat_minHops p) (pat_maxHops p)] else []) @
       (if pat_minHopsClamped p then [WClampedHops (pat_maxHops p)] else [])) (q_patterns q))"

definition collectUnknownEdgeKindWarnings :: "queryAST \<Rightarrow> warning list" where
  "collectUnknownEdgeKindWarnings q =
     map WUnknownEdgeKind
       (sorted_set (filter (\<lambda>k. k \<noteq> [] \<and> k \<notin> set knownEdgeKinds)
          (concat (map pat_edgeKinds (q_patterns q)))))"

text \<open>The collectors in the order \<^verbatim>\<open>Execute\<close> runs them before it executes the query.\<close>

definition static_warnings :: "queryAST \<Rightarrow> warning list" where
  "static_warnings q =
     collectUnknownPropertyWarnings q @ collectUnknownVariableWarnings q @
     collectCrossColumnWarnings q @ collectUnknownEdgeKindWarnings q @ collectHopRangeWarnings q @
     collectUnknownOrderByWarnings q @ collectTypeMismatchWarnings q @
     collectAggregateTypeMismatchWarnings q @ collectOrderByAggregateWithoutGroupingWarnings q @
     collectRepeatedPatternVarWarnings q @ collectReturnBarePropertyWarnings q @
     collectAggregateMixedWithBareWarnings q"

section \<open>What the collectors report\<close>

lemma set_sorted_set [simp]: "set (sorted_set xs) = set xs"
  by (simp add: sorted_set_def)

lemma sorted_set_eq_Nil [simp]: "sorted_set xs = [] \<longleftrightarrow> xs = []"
  by (metis set_sorted_set set_empty)

lemma sorted_sorted_set: "sorted (sorted_set xs) \<and> distinct (sorted_set xs)"
  by (simp add: sorted_set_def)

text \<open>A reference resolves on the node columns, or on the edge properties for an edge variable.\<close>

definition resolves :: "string list \<Rightarrow> string \<times> string \<Rightarrow> bool" where
  "resolves edges vp \<longleftrightarrow>
     (let (v, p) = vp in
      p = [] \<or> (if v \<noteq> [] \<and> v \<in> set edges then isKnownEdgeProperty p else cypherPropToCol p \<noteq> []))"

definition is_edge_ref :: "string list \<Rightarrow> string \<times> string \<Rightarrow> bool" where
  "is_edge_ref edges vp \<longleftrightarrow> fst vp \<noteq> [] \<and> fst vp \<in> set edges"

text \<open>After a scan, the map marks exactly the unresolved names, as edge names if any use was one.\<close>

lemma check_property_step:
  "map_of (check_property edges unknown r) p =
     (if snd r = p \<and> \<not> resolves edges r
      then Some ((case map_of unknown p of None \<Rightarrow> False | Some e \<Rightarrow> e) \<or> is_edge_ref edges r)
      else map_of unknown p)"
proof (cases "resolves edges r")
  case True
  then show ?thesis
    by (auto simp: check_property_def resolves_def Let_def split: prod.splits if_splits)
next
  case False
  obtain v pr where r: "r = (v, pr)" by (cases r)
  with False have "check_property edges unknown r =
      (case map_of unknown pr of
         None \<Rightarrow> AList.update pr (is_edge_ref edges r) unknown
       | Some e \<Rightarrow> if is_edge_ref edges r \<and> \<not> e then AList.update pr True unknown else unknown)"
    by (auto simp: check_property_def resolves_def is_edge_ref_def Let_def split: if_splits option.split)
  with False r show ?thesis by (auto simp: update_conv split: option.split)
qed

lemma check_property_fold:
  "map_of (foldl (check_property edges) unknown refs) p =
     (let bad = filter (\<lambda>r. snd r = p \<and> \<not> resolves edges r) refs in
      case map_of unknown p of
        None \<Rightarrow> (if bad = [] then None else Some (list_ex (is_edge_ref edges) bad))
      | Some e \<Rightarrow> Some (e \<or> list_ex (is_edge_ref edges) bad))"
proof (induction refs arbitrary: unknown)
  case (Cons r refs)
  show ?case
    by (auto simp: Cons.IH check_property_step Let_def split: option.split)
qed (simp split: option.split)

lemma map_of_unknown:
  "map_of (foldl (check_property edges) [] refs) p =
     (let bad = filter (\<lambda>r. snd r = p \<and> \<not> resolves edges r) refs in
      if bad = [] then None else Some (list_ex (is_edge_ref edges) bad))"
  by (simp add: check_property_fold)

text \<open>
  A property warning is emitted exactly for the names that some reference in WHERE, in an
  inline match or in RETURN fails to resolve, and it advises the edge properties exactly when one of
  those references is through an edge variable; names come sorted and once each.
\<close>

theorem unknown_property_warnings_exact:
  "(WUnknownProperty p e \<in> set (collectUnknownPropertyWarnings q) \<longleftrightarrow>
     (\<exists>v. (v, p) \<in> set (property_refs q) \<and> \<not> resolves (edge_vars q) (v, p)) \<and>
     e = (\<exists>v. (v, p) \<in> set (property_refs q) \<and> \<not> resolves (edge_vars q) (v, p) \<and>
            is_edge_ref (edge_vars q) (v, p))) \<and>
   distinct (collectUnknownPropertyWarnings q)"
proof -
  define un where "un = foldl (check_property (edge_vars q)) [] (property_refs q)"
  have collect: "collectUnknownPropertyWarnings q =
      map (\<lambda>n. WUnknownProperty n (map_of un n = Some True)) (sorted_set (map fst un))"
    by (simp add: collectUnknownPropertyWarnings_def un_def Let_def)
  have key: "p \<in> fst ` set un \<longleftrightarrow> map_of un p \<noteq> None" for p
    by (metis domIff dom_map_of_conv_image_fst)
  have dom: "map_of un p \<noteq> None \<longleftrightarrow>
      (\<exists>v. (v, p) \<in> set (property_refs q) \<and> \<not> resolves (edge_vars q) (v, p))" for p
    by (auto simp: un_def map_of_unknown filter_empty_conv)
  have mark: "map_of un p = Some True \<longleftrightarrow>
      (\<exists>v. (v, p) \<in> set (property_refs q) \<and> \<not> resolves (edge_vars q) (v, p) \<and>
         is_edge_ref (edge_vars q) (v, p))" for p
    by (auto simp: un_def map_of_unknown list_ex_iff filter_empty_conv Let_def)
  have "distinct (map (\<lambda>n. WUnknownProperty n (map_of un n = Some True)) (sorted_set (map fst un)))"
    using sorted_sorted_set by (auto simp: distinct_map inj_on_def)
  moreover have "WUnknownProperty p e \<in> set (collectUnknownPropertyWarnings q) \<longleftrightarrow>
      p \<in> fst ` set un \<and> e = (map_of un p = Some True)"
    by (auto simp: collect)
  ultimately show ?thesis using key dom mark collect by simp
qed

text \<open>
  A variable warning is emitted exactly for the variables that a qualified reference in WHERE
  or RETURN uses and no MATCH pattern binds, provided some variable is bound at all.
\<close>

theorem unknown_variable_warnings_exact:
  "WUnknownVariable v bs \<in> set (collectUnknownVariableWarnings q) \<longleftrightarrow>
     bound_vars q \<noteq> [] \<and> bs = sorted_set (bound_vars q) \<and> v \<noteq> [] \<and> v \<notin> set (bound_vars q) \<and>
     (\<exists>p. p \<noteq> [] \<and> (v, p) \<in> set (variable_refs q))"
proof -
  define bad where "bad = map fst
    (filter (\<lambda>(v, p). v \<noteq> [] \<and> p \<noteq> [] \<and> v \<notin> set (bound_vars q)) (variable_refs q))"
  have "v \<in> set bad \<longleftrightarrow>
      v \<noteq> [] \<and> v \<notin> set (bound_vars q) \<and> (\<exists>p. p \<noteq> [] \<and> (v, p) \<in> set (variable_refs q))"
    by (auto simp: image_iff bad_def)
  moreover have "WUnknownVariable v bs \<in> set (collectUnknownVariableWarnings q) \<longleftrightarrow>
      bound_vars q \<noteq> [] \<and> bs = sorted_set (bound_vars q) \<and> v \<in> set bad"
    unfolding collectUnknownVariableWarnings_def Let_def bad_def [symmetric] by auto
  ultimately show ?thesis by blast
qed

end
