(* ===== verification/Cypher_Result.thy ===== *)
theory Cypher_Result
  imports Cypher_Eval Cypher_Warnings
begin

text \<open>
  Projection of scanned rows into a result (\<^verbatim>\<open>buildResult\<close>, \<^verbatim>\<open>computeAgg\<close>,
  \<^verbatim>\<open>cypherLessThan\<close> and \<^verbatim>\<open>isEffectivelyZero\<close> of \<^verbatim>\<open>internal/cypher/engine.go\<close>):
  columns, implicit GROUP BY, aggregates, DISTINCT, ORDER BY and LIMIT.  Go maps whose iteration
  order the code keeps in a separate list (the groups) are association lists in that order.
  \<^verbatim>\<open>sort.SliceStable\<close> is the insertion sort it runs on a block; for a consistent comparator
  every stable sort gives the same list, which is proved, so longer inputs agree too.
\<close>

section \<open>Columns and aggregates\<close>

record 'f result =
  res_columns :: "string list"
  res_rows :: "'f row list"
  res_total :: int
  res_warnings :: "warning list"

definition col_source :: "returnVar \<Rightarrow> string" where
  "col_source rv =
     (if rv_property rv \<noteq> [] then rv_variable rv @ ''.'' @ rv_property rv else rv_variable rv)"

definition plain_col :: "returnVar \<Rightarrow> string" where
  "plain_col rv = (if rv_alias rv \<noteq> [] then rv_alias rv else col_source rv)"

definition aggColName :: "returnVar \<Rightarrow> string" where
  "aggColName rv =
     (if rv_alias rv \<noteq> [] then rv_alias rv
      else rv_fn rv @ ''('' @
        (if rv_distinct rv then ''DISTINCT '' @ col_source rv else col_source rv) @ '')'')"

definition result_columns :: "'f row list \<Rightarrow> queryAST \<Rightarrow> string list" where
  "result_columns rows q =
     (let cols = map (\<lambda>rv. if rv_fn rv \<noteq> [] then aggColName rv else plain_col rv) (q_returnVars q) in
      if cols = [] then
        (case rows of
           [] \<Rightarrow> []
         | r # _ \<Rightarrow> sort (filter (\<lambda>k. \<not> has_prefix k ''_'') (map fst r)))
      else cols)"

text \<open>The numbers an aggregate other than COUNT sees: values that are not nil and print as one.\<close>

definition agg_nums :: "('f, 'r) golib \<Rightarrow> string \<Rightarrow> 'f row list \<Rightarrow> 'f list" where
  "agg_nums lib key rows =
     List.map_filter (\<lambda>row. if is_nil (row_get row key) then None
                            else gl_parseFloat lib (sprint lib (row_get row key))) rows"

definition count_agg :: "('f, 'r) golib \<Rightarrow> 'f row list \<Rightarrow> returnVar \<Rightarrow> nat" where
  "count_agg lib rows rv =
     (if rv_property rv = [] then length rows
      else
        let key = rv_variable rv @ ''.'' @ rv_property rv;
            present = filter (\<lambda>v. \<not> is_nil v) (map (\<lambda>row. row_get row key) rows)
        in if rv_distinct rv then length (remdups (map (sprint lib) present)) else length present)"

definition computeAgg :: "('f, 'r) golib \<Rightarrow> 'f row list \<Rightarrow> returnVar \<Rightarrow> 'f any" where
  "computeAgg lib rows rv =
     (if rv_fn rv = ''COUNT'' then AInt (int (count_agg lib rows rv))
      else
        let nums = agg_nums lib (col_source rv) rows; zero = gl_ofInt lib 0 in
        case nums of
          [] \<Rightarrow> (if rv_fn rv = ''SUM'' then AFlt zero else ANil)
        | n # ns \<Rightarrow>
            (if rv_fn rv = ''SUM'' then AFlt (foldl (gl_add lib) zero nums)
             else if rv_fn rv = ''AVG''
               then AFlt (gl_div lib (foldl (gl_add lib) zero nums) (gl_ofInt lib (int (length nums))))
             else if rv_fn rv = ''MIN'' then AFlt (foldl (\<lambda>m x. if gl_lt lib x m then x else m) n ns)
             else if rv_fn rv = ''MAX'' then AFlt (foldl (\<lambda>m x. if gl_lt lib m x then x else m) n ns)
             else ANil))"

section \<open>Grouping\<close>

definition group_values :: "returnVar list \<Rightarrow> 'f row \<Rightarrow> 'f row" where
  "group_values gvs row =
     foldl (\<lambda>vals rv. AList.update (plain_col rv) (row_get row (col_source rv)) vals) [] gvs"

definition group_key :: "('f, 'r) golib \<Rightarrow> returnVar list \<Rightarrow> 'f row \<Rightarrow> string" where
  "group_key lib gvs row = sprint lib (AMap (group_values gvs row))"

type_synonym 'f groups = "(string \<times> 'f row \<times> 'f row list) list"

fun add_to_group :: "string \<Rightarrow> 'f row \<Rightarrow> 'f row \<Rightarrow> 'f groups \<Rightarrow> 'f groups" where
  "add_to_group k vals row [] = [(k, vals, [row])]"
| "add_to_group k vals row ((k', vals', rows) # gs) =
     (if k = k' then (k', vals', rows @ [row]) # gs
      else (k', vals', rows) # add_to_group k vals row gs)"

definition group_rows :: "('f, 'r) golib \<Rightarrow> returnVar list \<Rightarrow> 'f row list \<Rightarrow> 'f groups" where
  "group_rows lib gvs rows =
     foldl (\<lambda>gs row. add_to_group (group_key lib gvs row) (group_values gvs row) row gs) [] rows"

definition add_aggs :: "('f, 'r) golib \<Rightarrow> returnVar list \<Rightarrow> 'f row list \<Rightarrow> 'f row \<Rightarrow> 'f row" where
  "add_aggs lib avs rows out =
     foldl (\<lambda>o' rv. AList.update (aggColName rv) (computeAgg lib rows rv) o') out avs"

section \<open>Ordering and limits\<close>

definition toFloatForOrderBy :: "('f, 'r) golib \<Rightarrow> 'f any \<Rightarrow> 'f option" where
  "toFloatForOrderBy lib v =
     (case v of AInt i \<Rightarrow> Some (gl_ofInt lib i) | AFlt f \<Rightarrow> Some f | _ \<Rightarrow> None)"

definition cypherLessThan :: "('f, 'r) golib \<Rightarrow> 'f any \<Rightarrow> 'f any \<Rightarrow> bool \<Rightarrow> bool" where
  "cypherLessThan lib a b desc =
     (case (toFloatForOrderBy lib a, toFloatForOrderBy lib b) of
        (Some af, Some bf) \<Rightarrow> (if desc then gl_lt lib bf af else gl_lt lib af bf)
      | _ \<Rightarrow> (if desc then sprint lib b < sprint lib a else sprint lib a < sprint lib b))"

text \<open>Insertion into the sorted part, kept in reverse: the new element moves left while it is less.\<close>

fun insert_back :: "('a \<Rightarrow> 'a \<Rightarrow> bool) \<Rightarrow> 'a \<Rightarrow> 'a list \<Rightarrow> 'a list" where
  "insert_back lt x [] = [x]"
| "insert_back lt x (y # ys) = (if lt x y then y # insert_back lt x ys else x # y # ys)"

definition sort_stable :: "('a \<Rightarrow> 'a \<Rightarrow> bool) \<Rightarrow> 'a list \<Rightarrow> 'a list" where
  "sort_stable lt xs = rev (foldl (\<lambda>acc x. insert_back lt x acc) [] xs)"

definition order_rows ::
    "('f, 'r) golib \<Rightarrow> string \<Rightarrow> string \<Rightarrow> queryAST \<Rightarrow> 'f row list \<Rightarrow> 'f row list" where
  "order_rows lib orderBy key q rows =
     (if orderBy = [] then rows
      else sort_stable (\<lambda>a b. cypherLessThan lib (row_get a key) (row_get b key)
             (q_orderDir q = ''DESC'')) rows)"

definition effective_limit :: "queryAST \<Rightarrow> nat" where
  "effective_limit q = (if q_limit q < 0 then 200 else nat (q_limit q))"

section \<open>Building the result\<close>

definition aggregate_result ::
    "('f, 'r) golib \<Rightarrow> string list \<Rightarrow> 'f row list \<Rightarrow> queryAST \<Rightarrow> 'f result" where
  "aggregate_result lib cols rows q =
     (let avs = filter (\<lambda>rv. rv_fn rv \<noteq> []) (q_returnVars q);
          gvs = filter (\<lambda>rv. rv_fn rv = []) (q_returnVars q)
      in if gvs = [] then
           (if q_limit q = 0
            then \<lparr>res_columns = cols, res_rows = [], res_total = 0, res_warnings = []\<rparr>
            else \<lparr>res_columns = cols, res_rows = [add_aggs lib avs rows []], res_total = 1,
                   res_warnings = []\<rparr>)
         else
           let grouped = map (\<lambda>(k, vals, grows). add_aggs lib avs grows vals) (group_rows lib gvs rows);
               out = take (effective_limit q) (order_rows lib (q_orderBy q) (q_orderBy q) q grouped)
           in \<lparr>res_columns = cols, res_rows = out, res_total = int (length out), res_warnings = []\<rparr>)"

text \<open>A bare variable projects to the node: its properties that are not nil.\<close>

definition node_value :: "string \<Rightarrow> 'f row \<Rightarrow> 'f any" where
  "node_value var row =
     AMap (List.map_filter (\<lambda>(k, v).
        if is_nil v \<or> \<not> has_prefix k (var @ ''.'') then None
        else Some (drop (length var + 1) k, v)) row)"

definition project_value :: "returnVar \<Rightarrow> 'f row \<Rightarrow> 'f any" where
  "project_value rv row =
     (if rv_property rv \<noteq> [] then row_get row (rv_variable rv @ ''.'' @ rv_property rv)
      else node_value (rv_variable rv) row)"

definition project_row :: "string list \<Rightarrow> queryAST \<Rightarrow> 'f row \<Rightarrow> 'f row" where
  "project_row cols q row =
     (if q_returnVars q = [] then row
      else foldl (\<lambda>pr (col, rv). AList.update col (project_value rv row) pr) []
             (zip cols (q_returnVars q)))"

fun distinct_rows :: "('f, 'r) golib \<Rightarrow> string list \<Rightarrow> 'f row list \<Rightarrow> 'f row list" where
  "distinct_rows lib seen [] = []"
| "distinct_rows lib seen (r # rs) =
     (let key = sprint lib (AMap r) in
      if key \<in> set seen then distinct_rows lib seen rs
      else r # distinct_rows lib (key # seen) rs)"

definition order_key :: "string list \<Rightarrow> queryAST \<Rightarrow> string" where
  "order_key cols q =
     (let m = foldl (\<lambda>m (col, rv).
                if col_source rv \<noteq> [] \<and> col_source rv \<noteq> col then AList.update (col_source rv) col m
                else m) [] (zip cols (q_returnVars q))
      in case map_of m (q_orderBy q) of Some col \<Rightarrow> col | None \<Rightarrow> q_orderBy q)"

definition plain_result ::
    "('f, 'r) golib \<Rightarrow> string list \<Rightarrow> 'f row list \<Rightarrow> queryAST \<Rightarrow> 'f result" where
  "plain_result lib cols rows q =
     (let projected = map (project_row cols q) rows;
          kept = (if q_distinct q then distinct_rows lib [] projected else projected);
          out = take (effective_limit q) (order_rows lib (q_orderBy q) (order_key cols q) q kept)
      in \<lparr>res_columns = cols, res_rows = out, res_total = int (length out), res_warnings = []\<rparr>)"

definition buildResult :: "('f, 'r) golib \<Rightarrow> 'f row list \<Rightarrow> queryAST \<Rightarrow> 'f result" where
  "buildResult lib rows q =
     (let cols = result_columns rows q in
      if hasAggregation q then aggregate_result lib cols rows q else plain_result lib cols rows q)"

text \<open>\<^verbatim>\<open>isEffectivelyZero\<close>: a float counts as zero when it is neither above nor below 0.\<close>

definition isEffectivelyZero :: "('f, 'r) golib \<Rightarrow> 'f result \<Rightarrow> queryAST \<Rightarrow> bool" where
  "isEffectivelyZero lib res q =
     (if res_total res = 0 then True
      else if \<not> hasAggregation q then False
      else case (res_rows res, res_columns res) of
        (row # _, col # _) \<Rightarrow>
          (case row_get row col of
             ANil \<Rightarrow> True
           | AInt i \<Rightarrow> i = 0
           | AFlt f \<Rightarrow> gl_le lib f (gl_ofInt lib 0) \<and> gl_le lib (gl_ofInt lib 0) f
           | _ \<Rightarrow> False)
      | _ \<Rightarrow> True)"

section \<open>Stable sorting\<close>

text \<open>
  A comparator is consistent on a set when it is asymmetric and incomparability is transitive: the
  condition under which a sort has a meaning.
\<close>

definition consistent :: "('a \<Rightarrow> 'a \<Rightarrow> bool) \<Rightarrow> 'a set \<Rightarrow> bool" where
  "consistent lt S \<longleftrightarrow>
     (\<forall>x\<in>S. \<forall>y\<in>S. lt x y \<longrightarrow> \<not> lt y x) \<and>
     (\<forall>x\<in>S. \<forall>y\<in>S. \<forall>z\<in>S. lt x z \<longrightarrow> lt x y \<or> lt y z)"

definition in_order :: "('a \<Rightarrow> 'a \<Rightarrow> bool) \<Rightarrow> 'a list \<Rightarrow> bool" where
  "in_order lt = sorted_wrt (\<lambda>x y. \<not> lt y x)"

definition tied :: "('a \<Rightarrow> 'a \<Rightarrow> bool) \<Rightarrow> 'a \<Rightarrow> 'a \<Rightarrow> bool" where
  "tied lt x y \<longleftrightarrow> \<not> lt x y \<and> \<not> lt y x"

lemma mset_insert_back: "mset (insert_back lt x ys) = add_mset x (mset ys)"
  by (induction ys) auto

lemma mset_sort_stable: "mset (sort_stable lt xs) = mset xs"
proof -
  have "mset (foldl (\<lambda>acc x. insert_back lt x acc) acc xs) = mset acc + mset xs" for acc
    by (induction xs arbitrary: acc) (auto simp: mset_insert_back)
  then show ?thesis by (simp add: sort_stable_def)
qed

lemma set_sort_stable [simp]: "set (sort_stable lt xs) = set xs"
  using mset_sort_stable by (metis set_mset_mset)

lemma length_sort_stable [simp]: "length (sort_stable lt xs) = length xs"
  using mset_sort_stable by (metis size_mset)

text \<open>The laws a comparator gives the sort, and the sort's contract under them.\<close>

locale consistent_order =
  fixes lt :: "'a \<Rightarrow> 'a \<Rightarrow> bool" and S :: "'a set"
  assumes asym: "x \<in> S \<Longrightarrow> y \<in> S \<Longrightarrow> lt x y \<Longrightarrow> \<not> lt y x"
    and split: "x \<in> S \<Longrightarrow> y \<in> S \<Longrightarrow> z \<in> S \<Longrightarrow> lt x z \<Longrightarrow> lt x y \<or> lt y z"
begin

lemma insert_back_sorted:
  assumes "sorted_wrt (\<lambda>x y. \<not> lt x y) ys" "insert x (set ys) \<subseteq> S"
  shows "sorted_wrt (\<lambda>x y. \<not> lt x y) (insert_back lt x ys)"
  using assms
proof (induction ys)
  case (Cons y ys)
  have set: "set (insert_back lt x ys) = insert x (set ys)"
    using mset_insert_back [of lt x ys] by (metis set_mset_mset set_mset_add_mset_insert)
  show ?case
  proof (cases "lt x y")
    case True
    with Cons set asym show ?thesis by auto
  next
    case False
    with Cons.prems split show ?thesis by fastforce
  qed
qed simp

lemma foldl_insert_back_sorted:
  "sorted_wrt (\<lambda>x y. \<not> lt x y) acc \<Longrightarrow> set acc \<union> set xs \<subseteq> S \<Longrightarrow>
     sorted_wrt (\<lambda>x y. \<not> lt x y) (foldl (\<lambda>acc x. insert_back lt x acc) acc xs)"
proof (induction xs arbitrary: acc)
  case (Cons x xs)
  have "set (insert_back lt x acc) = insert x (set acc)"
    using mset_insert_back [of lt x acc] by (metis set_mset_mset set_mset_add_mset_insert)
  moreover from Cons.prems have "sorted_wrt (\<lambda>x y. \<not> lt x y) (insert_back lt x acc)"
    by (intro insert_back_sorted) auto
  ultimately show ?case using Cons by simp
qed simp

lemma sort_stable_in_order: "set xs \<subseteq> S \<Longrightarrow> in_order lt (sort_stable lt xs)"
  using foldl_insert_back_sorted [of "[]" xs]
  by (simp add: in_order_def sort_stable_def sorted_wrt_rev)

lemma insert_back_ties:
  assumes "insert z (insert x (set ys)) \<subseteq> S"
  shows "filter (tied lt z) (insert_back lt x ys) = filter (tied lt z) (x # ys)"
  using assms
proof (induction ys)
  case (Cons y ys)
  have "\<not> (tied lt z x \<and> tied lt z y)" if "lt x y"
    using Cons.prems that split [of x z y] by (auto simp: tied_def)
  with Cons show ?case by auto
qed simp

lemma sort_stable_ties:
  assumes "insert z (set xs) \<subseteq> S"
  shows "filter (tied lt z) (sort_stable lt xs) = filter (tied lt z) xs"
proof -
  have "filter (tied lt z) (foldl (\<lambda>acc x. insert_back lt x acc) acc xs) =
      rev (filter (tied lt z) xs) @ filter (tied lt z) acc" if "set acc \<subseteq> S" for acc
    using assms that
  proof (induction xs arbitrary: acc)
    case (Cons x xs)
    have "set (insert_back lt x acc) = insert x (set acc)"
      using mset_insert_back [of lt x acc] by (metis set_mset_mset set_mset_add_mset_insert)
    with Cons insert_back_ties [of z x acc] show ?case by auto
  qed simp
  from this [of "[]"] show ?thesis by (simp add: sort_stable_def rev_filter [symmetric])
qed

text \<open>A list in order is determined by its ties: any stable sort gives the same list.\<close>

lemma in_order_unique:
  assumes "in_order lt xs" "in_order lt ys" "set xs \<subseteq> S" "set ys \<subseteq> S" "mset xs = mset ys"
    and "\<And>z. z \<in> S \<Longrightarrow> filter (tied lt z) xs = filter (tied lt z) ys"
  shows "xs = ys"
  using assms
proof (induction xs arbitrary: ys)
  case (Cons x xs)
  then obtain y ys' where ys: "ys = y # ys'" by (cases ys) auto
  have S: "x \<in> S" "y \<in> S" using Cons.prems(3,4) ys by auto
  have "x \<in> set ys" "y \<in> set (x # xs)"
    using Cons.prems(5) ys by (metis list.set_intros(1) set_mset_mset)+
  then have "\<not> lt x y" "\<not> lt y x"
    using Cons.prems(1,2) ys asym [OF S] asym [OF S(2,1)] by (auto simp: in_order_def)
  then have t: "tied lt x x" "tied lt x y" using S asym [of x x] by (auto simp: tied_def)
  from Cons.prems(6) [OF S(1)] t ys have xy: "x = y" by simp
  have "filter (tied lt z) xs = filter (tied lt z) ys'" if "z \<in> S" for z
    using Cons.prems(6) [OF that] ys xy by (auto split: if_splits)
  then have "xs = ys'"
    using Cons.prems ys xy by (intro Cons.IH) (auto simp: in_order_def)
  with ys xy show ?case by simp
qed simp

end

lemma consistent_order_iff: "consistent_order lt S \<longleftrightarrow> consistent lt S"
  unfolding consistent_order_def consistent_def by (intro iffI conjI; blast)

lemma sort_stable_unique:
  assumes "consistent lt (set xs)"
  shows "ys = sort_stable lt xs \<longleftrightarrow>
    mset ys = mset xs \<and> in_order lt ys \<and>
    (\<forall>z \<in> set xs. filter (tied lt z) ys = filter (tied lt z) xs)" (is "_ \<longleftrightarrow> ?P ys")
proof -
  have co: "consistent_order lt (set xs)" using assms by (simp add: consistent_order_iff)
  have s: "?P (sort_stable lt xs)"
    using consistent_order.sort_stable_in_order [OF co] consistent_order.sort_stable_ties [OF co]
    by (simp add: mset_sort_stable insert_absorb)
  moreover have "ys = sort_stable lt xs" if "?P ys"
  proof (rule consistent_order.in_order_unique [OF co])
    show "set ys \<subseteq> set xs" using that by (metis order_refl set_mset_mset)
  qed (use that s in auto)
  ultimately show ?thesis by blast
qed

text \<open>Columns of texts, and of any values compared by their print, always have an order.\<close>

interpretation text_order: consistent_order
  "\<lambda>a b. cypherLessThan lib a b desc" "{v. toFloatForOrderBy lib v = None}"
  for lib :: "('f, 'r) golib" and desc
  by unfold_locales (auto simp: cypherLessThan_def split: if_splits)


definition empty_ordered :: queryAST where
  "empty_ordered = \<lparr>q_patterns = [], q_conditions = [], q_where = None, q_returnVars = [],
     q_orderBy = ''n.name'', q_orderDir = [], q_limit = - 1, q_distinct = False\<rparr>"

definition name_rows :: "int row list" where
  "name_rows = [[(''n.name'', AStr ''b'')], [(''n.name'', AStr ''a'')]]"


section \<open>Grouping partitions the rows\<close>

text \<open>The first occurrence of every key, in order.\<close>

definition firsts :: "'a list \<Rightarrow> 'a list" where
  "firsts ks = rev (remdups (rev ks))"

lemma firsts_simps [simp]:
  "firsts [] = []" "firsts (ks @ [k]) = (if k \<in> set ks then firsts ks else firsts ks @ [k])"
  "set (firsts ks) = set ks" "distinct (firsts ks)"
  by (simp_all add: firsts_def)

lemma add_to_group_map:
  "distinct ks \<Longrightarrow> add_to_group k vals row (map (\<lambda>k. (k, F k, G k)) ks) =
     (if k \<in> set ks then map (\<lambda>k'. (k', F k', if k' = k then G k' @ [row] else G k')) ks
      else map (\<lambda>k. (k, F k, G k)) ks @ [(k, vals, [row])])"
proof (induction ks)
  case (Cons a ks)
  then show ?case
    by (cases "k = a") (auto intro: map_cong)
qed simp

lemma group_rows_eq:
  "group_rows lib gvs rows =
     map (\<lambda>k. (k, group_values gvs (hd (filter (\<lambda>r. group_key lib gvs r = k) rows)),
                filter (\<lambda>r. group_key lib gvs r = k) rows)) (firsts (map (group_key lib gvs) rows))"
proof (induction rows rule: rev_induct)
  case (snoc r rows)
  let ?key = "group_key lib gvs"
  let ?F = "\<lambda>k. group_values gvs (hd (filter (\<lambda>r. ?key r = k) rows))"
  let ?G = "\<lambda>k. filter (\<lambda>r. ?key r = k) rows"
  have "group_rows lib gvs (rows @ [r]) =
      add_to_group (?key r) (group_values gvs r) r (map (\<lambda>k. (k, ?F k, ?G k)) (firsts (map ?key rows)))"
    using snoc by (simp add: group_rows_def)
  also have "\<dots> = map (\<lambda>k. (k, group_values gvs (hd (filter (\<lambda>r. ?key r = k) (rows @ [r]))),
        filter (\<lambda>r. ?key r = k) (rows @ [r]))) (firsts (map ?key (rows @ [r])))"
    by (auto simp: add_to_group_map hd_append filter_empty_conv image_iff intro!: map_cong)
  finally show ?case .
qed (simp add: group_rows_def)

lemma sum_filter_keys:
  "distinct ks \<Longrightarrow> sum_list (map (\<lambda>k. length (filter (\<lambda>r. f r = k) rows)) ks) =
     length (filter (\<lambda>r. f r \<in> set ks) rows)"
proof (induction ks)
  case (Cons k ks)
  have "length (filter (\<lambda>r. f r = k \<or> f r \<in> set ks) rows) =
      length (filter (\<lambda>r. f r = k) rows) + length (filter (\<lambda>r. f r \<in> set ks) rows)"
    using Cons.prems by (induction rows) auto
  with Cons show ?case by simp
qed simp

text \<open>
  Implicit GROUP BY partitions the scanned rows: there is one group per distinct key in the
  order of first appearance, it holds exactly the rows with that key in scan order, no group is
  empty, and the row counts of the groups add up to the number of rows.
\<close>

theorem group_rows_partition:
  "map fst (group_rows lib gvs rows) = firsts (map (group_key lib gvs) rows) \<and>
   list_all (\<lambda>(k, vals, rs). rs = filter (\<lambda>r. group_key lib gvs r = k) rows \<and> rs \<noteq> [] \<and>
      vals = group_values gvs (hd rs)) (group_rows lib gvs rows) \<and>
   sum_list (map (\<lambda>(k, vals, rs). count_agg lib rs (empty_returnVar\<lparr>rv_fn := ''COUNT'', rv_variable := ''*''\<rparr>))
     (group_rows lib gvs rows)) = length rows"
proof -
  let ?key = "group_key lib gvs"
  have "sum_list (map (\<lambda>k. length (filter (\<lambda>r. ?key r = k) rows)) (firsts (map ?key rows))) = length rows"
    by (simp add: sum_filter_keys)
  then show ?thesis
    by (auto simp: group_rows_eq comp_def filter_empty_conv count_agg_def empty_returnVar_def
        list_all_iff)
qed

section \<open>Shape of the result\<close>

lemma buildResult_shape:
  "res_total (buildResult lib rows q) = int (length (res_rows (buildResult lib rows q)))"
  "length (res_rows (buildResult lib rows q)) \<le> effective_limit q"
  by (auto simp: buildResult_def aggregate_result_def plain_result_def effective_limit_def Let_def)

text \<open>
  Every result reports as many rows as it holds, and never more than the query's LIMIT, or 200
  without one; LIMIT 0 gives no row, for aggregates too.
\<close>

theorem buildResult_limit:
  "res_total (buildResult lib rows q) = int (length (res_rows (buildResult lib rows q))) \<and>
   length (res_rows (buildResult lib rows q)) \<le> effective_limit q"
  by (simp add: buildResult_shape)

lemma project_row_put_all:
  "q_returnVars q \<noteq> [] \<Longrightarrow> project_row cols q row =
     row_map.put_all (map (\<lambda>(col, rv). (col, project_value rv row)) (zip cols (q_returnVars q))) []"
proof -
  have "foldl (\<lambda>pr (col, rv). AList.update col (project_value rv row) pr) acc xs =
      foldl (\<lambda>m (k, v). AList.update k v m) acc (map (\<lambda>(col, rv). (col, project_value rv row)) xs)"
    for acc and xs :: "(string \<times> returnVar) list"
    by (induction xs arbitrary: acc) auto
  then show "q_returnVars q \<noteq> [] \<Longrightarrow> ?thesis" by (simp add: project_row_def row_map.put_all_def)
qed

text \<open>
  A plain query without ORDER BY and DISTINCT returns the first rows of the scan in order, and
  every column of every returned row holds the value of its RETURN item in the scanned row.
\<close>

theorem buildResult_projection:
  assumes "\<not> hasAggregation q" "\<not> q_distinct q" "q_orderBy q = []"
    and "distinct (map plain_col (q_returnVars q))"
    and "i < length rows" "i < effective_limit q" "rv \<in> set (q_returnVars q)"
  shows "i < length (res_rows (buildResult lib rows q)) \<and>
    row_get (res_rows (buildResult lib rows q) ! i) (plain_col rv) = project_value rv (rows ! i)"
proof -
  let ?rvs = "q_returnVars q"
  have ne: "?rvs \<noteq> []" using assms(7) by auto
  have nofn: "rv_fn r = []" if "r \<in> set ?rvs" for r
    using assms(1) that by (auto simp: hasAggregation_def list_ex_iff)
  have cols: "result_columns rows q = map plain_col ?rvs"
    using ne nofn by (auto simp: result_columns_def Let_def intro: map_cong)
  let ?es = "map (\<lambda>(col, r). (col, project_value r (rows ! i))) (zip (map plain_col ?rvs) ?rvs)"
  have keys: "map fst ?es = map plain_col ?rvs"
    by (simp add: zip_map1 zip_same_conv_map comp_def case_prod_beta)
  have "(plain_col rv, project_value rv (rows ! i)) \<in> set ?es"
    using assms(7) by (auto simp: zip_map1 zip_same_conv_map image_iff)
  then have "row_get (project_row (map plain_col ?rvs) q (rows ! i)) (plain_col rv) = project_value rv (rows ! i)"
    unfolding project_row_put_all [OF ne]
    using keys assms(4) by (intro row_map.get_put_all_distinct) (auto simp: comp_def)
  with assms cols show ?thesis
    by (simp add: buildResult_def plain_result_def order_rows_def Let_def)
qed

theorem buildResult_projection_witness:
  "let q = empty_ordered\<lparr>q_orderBy := [], q_returnVars := [empty_returnVar\<lparr>rv_variable := ''n'', rv_property := ''name''\<rparr>]\<rparr>
   in 1 < length (res_rows (buildResult int_lib name_rows q)) \<and>
      row_get (res_rows (buildResult int_lib name_rows q) ! 1) ''n.name'' = AStr ''a''"
  using buildResult_projection [of "empty_ordered\<lparr>q_orderBy := [],
      q_returnVars := [empty_returnVar\<lparr>rv_variable := ''n'', rv_property := ''name''\<rparr>]\<rparr>" 1 name_rows
      "empty_returnVar\<lparr>rv_variable := ''n'', rv_property := ''name''\<rparr>" int_lib]
  by (simp add: empty_ordered_def empty_returnVar_def hasAggregation_def effective_limit_def
      name_rows_def plain_col_def col_source_def project_value_def row_get_def Let_def)

section \<open>DISTINCT\<close>

lemma distinct_rows_prints:
  "distinct (map (\<lambda>r. sprint lib (AMap r)) (distinct_rows lib seen rs)) \<and>
   set (map (\<lambda>r. sprint lib (AMap r)) (distinct_rows lib seen rs)) =
     (\<lambda>r. sprint lib (AMap r)) ` set rs - set seen"
  by (induction rs arbitrary: seen) (auto simp: Let_def)

lemma distinct_rows_subset: "set (distinct_rows lib seen rs) \<subseteq> set rs"
  by (induction rs arbitrary: seen) (auto simp: Let_def)

text \<open>
  DISTINCT keeps rows by the way they print: the kept rows print differently from each other
  and every row of the input prints like a kept one, which is itself a row of the input.
\<close>

lemma distinct_rows_by_print:
  "distinct (map (\<lambda>r. sprint lib (AMap r)) (distinct_rows lib [] rs)) \<and>
   (\<lambda>r. sprint lib (AMap r)) ` set (distinct_rows lib [] rs) = (\<lambda>r. sprint lib (AMap r)) ` set rs \<and>
   set (distinct_rows lib [] rs) \<subseteq> set rs"
  using distinct_rows_prints [of lib "[]" rs] distinct_rows_subset [of lib "[]" rs] by simp

text \<open>
  Rows that differ can print the same: a text that looks like the rest of a printed row makes
  DISTINCT drop a different row.
\<close>

lemma distinct_drops_different_row:
  "distinct_rows lib [] [[(''a'', AStr ''1 b:2''), (''b'', AStr ''3'')], [(''a'', AStr ''1''), (''b'', AStr ''2 b:3'')]] =
     [[(''a'', AStr ''1 b:2''), (''b'', AStr ''3'')]]"
  by (simp add: sort_entries_def)

end
