(* ===== verification/Cypher_Exec.thy ===== *)
theory Cypher_Exec
  imports Cypher_SQL Cypher_Result Cypher_Parser
begin

text \<open>
  Execution of a parsed query (\<^verbatim>\<open>Execute\<close>, \<^verbatim>\<open>run\<close>, \<^verbatim>\<open>runNodeScan\<close>,
  \<^verbatim>\<open>runJoinQuery\<close>, \<^verbatim>\<open>runBFS\<close> and below in \<^verbatim>\<open>internal/cypher/engine.go\<close>).  The
  database is a parameter: \<open>db\<close> answers a statement and its bind arguments with an error or with
  a cursor, the outcome of scanning each row and the error the cursor ends with.  The four fields
  are the one database seen through the four kinds of scan destinations the code uses.
  Cancellation is the function \<open>db_ctxErr\<close> of the loop iteration.
\<close>

section \<open>Executor and database\<close>

type_synonym dberr = string

datatype arg = ArgS string | ArgI int

type_synonym 'a cursor = "(dberr + 'a) list \<times> dberr option"

record 'f symRow =
  sy_ID :: string
  sy_ProjectID :: string
  sy_FilePath :: string
  sy_Name :: string
  sy_QualifiedName :: string
  sy_Kind :: string
  sy_Language :: string
  sy_StartByte :: int
  sy_EndByte :: int
  sy_StartLine :: int
  sy_EndLine :: int
  sy_IsExported :: bool
  sy_IsEntryPoint :: bool
  sy_Complexity :: int
  sy_ExtractionConfidence :: 'f
  sy_Signature :: "string option"
  sy_ReturnType :: "string option"
  sy_Docstring :: "string option"
  sy_IsTest :: bool
  sy_Branch :: string

text \<open>A scanned symbol: the destinations, and the three flags as nullable integers.\<close>

type_synonym 'f scanned = "'f symRow \<times> int option \<times> int option \<times> int option"

record 'f db =
  db_symbols :: "string \<Rightarrow> arg list \<Rightarrow> dberr + 'f scanned cursor"
  db_joins :: "string \<Rightarrow> arg list \<Rightarrow> dberr + ('f scanned \<times> 'f scanned \<times> string \<times> 'f) cursor"
  db_hops :: "string \<Rightarrow> arg list \<Rightarrow> dberr + ('f scanned \<times> int) cursor"
  db_strings :: "string \<Rightarrow> arg list \<Rightarrow> dberr + string cursor"
  db_ctxErr :: "nat \<Rightarrow> dberr option"

record executor =
  ex_MaxRows :: int
  ex_ProjectID :: string
  ex_AllowAllProjects :: bool

datatype exerr =
    ExNoProject
  | ExParse perr
  | ExPanic
  | ExMultipleMatch
  | ExNodeScan dberr
  | ExJoin dberr
  | ExBfs string dberr
  | ExDb dberr

definition maxRows :: "executor \<Rightarrow> int" where
  "maxRows e =
     (if ex_MaxRows e \<le> 0 then 200 else if ex_MaxRows e > 10000 then 10000 else ex_MaxRows e)"

section \<open>Scanning\<close>

definition nonzero :: "int option \<Rightarrow> bool" where
  "nonzero x = (case x of None \<Rightarrow> False | Some i \<Rightarrow> i \<noteq> 0)"

definition with_flags :: "'f scanned \<Rightarrow> 'f symRow" where
  "with_flags s =
     (let (n, isExp, isEntry, isTest) = s in
      n\<lparr>sy_IsExported := nonzero isExp, sy_IsEntryPoint := nonzero isEntry,
        sy_IsTest := nonzero isTest\<rparr>)"

definition scanSymRow :: "dberr + 'f scanned \<Rightarrow> dberr + 'f symRow" where
  "scanSymRow r = (case r of Inl e \<Rightarrow> Inl e | Inr s \<Rightarrow> Inr (with_flags s))"

definition scanJoinRow :: "dberr + ('f scanned \<times> 'f scanned \<times> string \<times> 'f) \<Rightarrow>
    dberr + ('f symRow \<times> 'f symRow \<times> string \<times> 'f)" where
  "scanJoinRow r =
     (case r of
        Inl e \<Rightarrow> Inl e
      | Inr (a, b, kind, conf) \<Rightarrow> Inr (with_flags a, with_flags b, kind, conf))"

definition null_text :: "string option \<Rightarrow> 'f any" where
  "null_text x = (case x of None \<Rightarrow> ANil | Some s \<Rightarrow> AStr s)"

definition symRowToMap :: "string \<Rightarrow> 'f symRow \<Rightarrow> 'f row" where
  "symRowToMap var n =
     map (\<lambda>(k, v). (var @ ''.'' @ k, v))
       [(''id'', AStr (sy_ID n)),
        (''project_id'', AStr (sy_ProjectID n)),
        (''name'', AStr (sy_Name n)),
        (''qualified_name'', AStr (sy_QualifiedName n)),
        (''kind'', AStr (sy_Kind n)),
        (''language'', AStr (sy_Language n)),
        (''file_path'', AStr (sy_FilePath n)),
        (''start_line'', AInt (sy_StartLine n)),
        (''end_line'', AInt (sy_EndLine n)),
        (''start_byte'', AInt (sy_StartByte n)),
        (''end_byte'', AInt (sy_EndByte n)),
        (''is_exported'', ABool (sy_IsExported n)),
        (''is_entry_point'', ABool (sy_IsEntryPoint n)),
        (''is_test'', ABool (sy_IsTest n)),
        (''complexity'', AInt (sy_Complexity n)),
        (''extraction_confidence'', AFlt (sy_ExtractionConfidence n)),
        (''project'', AStr (sy_ProjectID n)),
        (''qn'', AStr (sy_QualifiedName n)),
        (''label'', AStr (sy_Kind n)),
        (''signature'', null_text (sy_Signature n)),
        (''return_type'', null_text (sy_ReturnType n)),
        (''docstring'', null_text (sy_Docstring n))]"

text \<open>Copying the entries of a map into another.\<close>

definition copy_into :: "'f row \<Rightarrow> 'f row \<Rightarrow> 'f row" where
  "copy_into src m = foldl (\<lambda>m (k, v). AList.update k v m) m src"

section \<open>Statements\<close>

definition brk1 :: string where "brk1 = [newline, tab]"
definition brk2 :: string where "brk2 = [newline, tab, tab]"

definition symCols :: string where
  "symCols = ''id, project_id, file_path, name, qualified_name, kind, language,'' @ brk1 @
     ''start_byte, end_byte, start_line, end_line, is_exported, is_entry_point, complexity,'' @ brk1 @
     ''extraction_confidence, signature, return_type, docstring, is_test, branch''"

definition symbols_base :: string where
  "symbols_base = ''SELECT '' @ symCols @ '' FROM symbols WHERE 1=1''"

definition add_arg :: "string \<Rightarrow> string \<Rightarrow> sqlq \<Rightarrow> sqlq" where
  "add_arg clause v q = (if v \<noteq> [] then (fst q @ clause, snd q @ [v]) else q)"

text \<open>
  One condition of an AND chain: pushed to SQL, kept for the in-process filter, or skipped.  In a
  node scan a condition on another variable is skipped.
\<close>

definition push_node :: "string \<Rightarrow> sqlq \<times> condition list \<Rightarrow> condition \<Rightarrow> sqlq \<times> condition list" where
  "push_node fromVar st c =
     (let (q, un) = st; col = cypherPropToCol (c_property c) in
      if c_rhsProperty c \<noteq> [] then (q, un @ [c])
      else if c_variable c \<noteq> fromVar then (q, un)
      else if col \<noteq> [] \<and> pushableOp (c_op c) then (appendWhereOp q [] col c, un)
      else (q, un @ [c]))"

definition push_join :: "pattern \<Rightarrow> sqlq \<times> condition list \<Rightarrow> condition \<Rightarrow> sqlq \<times> condition list" where
  "push_join pat st c =
     (let (q, un) = st; col = cypherPropToCol (c_property c) in
      if c_rhsProperty c \<noteq> [] then (q, un @ [c])
      else if c_variable c \<noteq> pat_toVar pat \<and> c_variable c \<noteq> pat_fromVar pat then (q, un @ [c])
      else if col \<noteq> [] \<and> pushableOp (c_op c)
        then (appendWhereOp q (if c_variable c = pat_toVar pat then ''b.'' else ''a.'') col c, un)
      else (q, un @ [c]))"

text \<open>The WHERE part shared by both scans: AND chains leaf by leaf, other trees whole or not at all.\<close>

definition push_where :: "(sqlq \<times> condition list \<Rightarrow> condition \<Rightarrow> sqlq \<times> condition list) \<Rightarrow>
    (string \<Rightarrow> string option) \<Rightarrow> queryAST \<Rightarrow> sqlq \<Rightarrow> sqlq \<times> whereExpr option" where
  "push_where step prefixFor q sq =
     (if pushdownAllowed q then
        (let (sq', un) = foldl step (sq, []) (q_conditions q) in (sq', andChainFromConds un))
      else case q_where q of
        None \<Rightarrow> (sq, None)
      | Some w \<Rightarrow>
          (case whereExprToSQL w prefixFor of
             Some (expr, args) \<Rightarrow> ((fst sq @ '' AND '' @ expr, snd sq @ args), None)
           | None \<Rightarrow> (sq, Some w)))"

definition order_clause :: "queryAST \<Rightarrow> string \<Rightarrow> string" where
  "order_clause q col =
     '' ORDER BY '' @ col @ (if to_upper (q_orderDir q) = ''DESC'' then '' DESC'' else '' ASC'')"

definition node_prefix :: "pattern \<Rightarrow> string \<Rightarrow> string option" where
  "node_prefix pat v = (if v = pat_fromVar pat then Some [] else None)"

definition join_prefix :: "pattern \<Rightarrow> string \<Rightarrow> string option" where
  "join_prefix pat v =
     (if v = pat_fromVar pat then Some ''a.'' else if v = pat_toVar pat then Some ''b.'' else None)"

text \<open>ORDER BY and LIMIT at the end of a scan; the limit is an integer argument.\<close>

definition scan_tail :: "executor \<Rightarrow> queryAST \<Rightarrow> string \<Rightarrow> whereExpr option \<Rightarrow> sqlq \<Rightarrow>
    string \<times> arg list" where
  "scan_tail e q orderCol filt sq =
     (let sql = (if \<not> hasAggregation q \<and> q_orderBy q \<noteq> [] \<and> orderCol \<noteq> []
                 then fst sq @ order_clause q orderCol else fst sq);
          args = map ArgS (snd sq)
      in if \<not> hasAggregation q \<and> \<not> q_distinct q
         then (sql @ '' LIMIT ?'', args @ [ArgI (scanLimitFor (maxRows e) filt)])
         else (sql, args))"

definition node_scan_sql :: "executor \<Rightarrow> queryAST \<Rightarrow> pattern \<Rightarrow> (string \<times> arg list) \<times> whereExpr option" where
  "node_scan_sql e q pat =
     (let sq = add_arg '' AND kind=?'' (pat_fromKind pat)
                 (add_arg '' AND project_id=?'' (ex_ProjectID e) (symbols_base, []));
          sq = appendInlinePropFilters sq [] (pat_fromProps pat);
          (sq, filt) = push_where (push_node (pat_fromVar pat)) (node_prefix pat) q sq;
          col = orderByCol (resolveOrderByAlias (q_orderBy q) (q_returnVars q)) (pat_fromVar pat)
      in (scan_tail e q col filt sq, filt))"

definition join_base :: string where
  "join_base = ''SELECT'' @ brk2 @
     ''a.id, a.project_id, a.file_path, a.name, a.qualified_name, a.kind, a.language,'' @ brk2 @
     ''a.start_byte, a.end_byte, a.start_line, a.end_line, a.is_exported, a.is_entry_point, a.complexity,'' @ brk2 @
     ''a.extraction_confidence, a.signature, a.return_type, a.docstring, a.is_test, a.branch,'' @ brk2 @
     ''b.id, b.project_id, b.file_path, b.name, b.qualified_name, b.kind, b.language,'' @ brk2 @
     ''b.start_byte, b.end_byte, b.start_line, b.end_line, b.is_exported, b.is_entry_point, b.complexity,'' @ brk2 @
     ''b.extraction_confidence, b.signature, b.return_type, b.docstring, b.is_test, b.branch,'' @ brk2 @
     ''e.kind, e.confidence'' @ brk2 @
     ''FROM edges e'' @ brk2 @
     ''JOIN symbols a ON a.id = e.from_id AND a.project_id = e.project_id'' @ brk2 @
     ''JOIN symbols b ON b.id = e.to_id   AND b.project_id = e.project_id'' @ brk2 @
     ''WHERE 1=1''"

definition join_sql :: "executor \<Rightarrow> queryAST \<Rightarrow> pattern \<Rightarrow> (string \<times> arg list) \<times> whereExpr option" where
  "join_sql e q pat =
     (let ks = pat_edgeKinds pat;
          sq = (if ks \<noteq> [] then (join_base @ '' AND e.kind IN ('' @ inPlaceholders (length ks) @ '')'', ks)
                else (join_base, []));
          sq = add_arg '' AND b.kind=?'' (pat_toKind pat)
                 (add_arg '' AND a.kind=?'' (pat_fromKind pat)
                   (add_arg '' AND a.project_id=?'' (ex_ProjectID e) sq));
          sq = appendInlinePropFilters (appendInlinePropFilters sq ''a.'' (pat_fromProps pat))
                 ''b.'' (pat_toProps pat);
          sq = (if pat_fromVar pat \<noteq> [] \<and> pat_fromVar pat = pat_toVar pat
                then (fst sq @ '' AND a.id = b.id'', snd sq) else sq);
          (sq, filt) = push_where (push_join pat) (join_prefix pat) q sq;
          (alias', col) = joinOrderByCol (resolveOrderByAlias (q_orderBy q) (q_returnVars q)) pat
      in (scan_tail e q (if col = [] then [] else alias' @ col) filt sq, filt))"

definition shouldInvertBFS :: "queryAST \<Rightarrow> pattern \<Rightarrow> bool" where
  "shouldInvertBFS q pat =
     (if pat_toVar pat = [] \<or> pat_fromVar pat = [] \<or> \<not> pushdownAllowed q then False
      else
        let consts = filter (\<lambda>c. cypherPropToCol (c_property c) \<noteq> [] \<and> c_op c = ''='') (q_conditions q);
            hasFrom = list_ex (\<lambda>c. c_variable c = pat_fromVar pat) consts;
            hasTo = list_ex (\<lambda>c. c_variable c \<noteq> pat_fromVar pat \<and> c_variable c = pat_toVar pat) consts
        in hasTo \<and> \<not> hasFrom)"

text \<open>The end a traversal starts from: variable, kind and inline properties.\<close>

definition bfs_start :: "queryAST \<Rightarrow> pattern \<Rightarrow> string \<times> string \<times> (string \<times> string) list" where
  "bfs_start q pat =
     (if shouldInvertBFS q pat then (pat_toVar pat, pat_toKind pat, pat_toProps pat)
      else (pat_fromVar pat, pat_fromKind pat, pat_fromProps pat))"

definition bfs_start_sql :: "executor \<Rightarrow> queryAST \<Rightarrow> pattern \<Rightarrow> string \<times> arg list" where
  "bfs_start_sql e q pat =
     (let (startVar, startKind, startProps) = bfs_start q pat;
          sq = add_arg '' AND kind=?'' startKind
                 (add_arg '' AND project_id=?'' (ex_ProjectID e) (symbols_base, []));
          sq = appendInlinePropFilters sq [] startProps;
          sq = (if pushdownAllowed q then
                  foldl (\<lambda>sq c.
                    let col = cypherPropToCol (c_property c) in
                    if c_variable c = startVar \<and> col \<noteq> [] \<and> c_op c = ''=''
                    then (fst sq @ '' AND '' @ col @ ''=?'', snd sq @ [c_value c]) else sq)
                    sq (q_conditions q)
                else sq)
      in (fst sq @ '' LIMIT 100'', map ArgS (snd sq)))"

definition bfsSymbolProjectFilter :: "string \<Rightarrow> string" where
  "bfsSymbolProjectFilter projectID = (if projectID = [] then [] else '' WHERE s.project_id = ?'')"

definition bfs_cte_sql :: "string \<Rightarrow> string list \<Rightarrow> int \<Rightarrow> int \<Rightarrow> string \<Rightarrow> int \<Rightarrow> bool \<Rightarrow>
    string \<times> arg list" where
  "bfs_cte_sql startID kinds minHops maxHops projectID mRows inbound =
     (let projectFilter = (if projectID \<noteq> [] then '' AND e.project_id = ?'' else []);
          recursiveStep = (if inbound
            then ''SELECT e.from_id, r.depth + 1 FROM reach r JOIN edges e ON e.to_id = r.id''
            else ''SELECT e.to_id, r.depth + 1 FROM reach r JOIN edges e ON e.from_id = r.id'');
          project = (if projectID \<noteq> [] then [ArgS projectID] else [])
      in (''WITH RECURSIVE reach(id, depth) AS ('' @ brk2 @
     ''SELECT ?, 0'' @ brk2 @
     ''UNION ALL'' @ brk2 @
          recursiveStep @ '' AND e.kind IN ('' @ inPlaceholders (length kinds) @ '')'' @ projectFilter @
          brk2 @ ''WHERE r.depth < ?'' @ brk1 @
     ''),'' @ brk1 @
     ''reachAgg AS ('' @ brk2 @
     ''SELECT id, MIN(depth) AS min_depth FROM reach'' @ brk2 @
     ''WHERE depth >= ? AND id != ?'' @ brk2 @
     ''GROUP BY id'' @ brk1 @
     '')'' @ brk1 @
     ''SELECT s.id, s.project_id, s.file_path, s.name, s.qualified_name, s.kind, s.language,'' @ brk2 @
     ''s.start_byte, s.end_byte, s.start_line, s.end_line, s.is_exported, s.is_entry_point, s.complexity,'' @ brk2 @
     ''s.extraction_confidence, s.signature, s.return_type, s.docstring, s.is_test, ra.min_depth'' @ brk1 @
     ''FROM reachAgg ra'' @ brk1 @
     ''CROSS JOIN symbols s ON s.id = ra.id'' @
          bfsSymbolProjectFilter projectID @
          brk1 @ ''ORDER BY ra.min_depth'' @ brk1 @
     ''LIMIT ?'',
          [ArgS startID] @ map ArgS kinds @ project @ [ArgI maxHops, ArgI minHops, ArgS startID] @
          project @ [ArgI mRows]))"

section \<open>Running the statements\<close>

fun node_loop :: "('f, 'r) golib \<Rightarrow> string \<Rightarrow> whereExpr option \<Rightarrow> 'r cache \<Rightarrow> 'f row list \<Rightarrow>
    (dberr + 'f scanned) list \<Rightarrow> dberr + 'f row list" where
  "node_loop lib var filt cache acc [] = Inr acc"
| "node_loop lib var filt cache acc (r # rs) =
     (case scanSymRow r of
        Inl e \<Rightarrow> Inl e
      | Inr n \<Rightarrow>
          (let m = symRowToMap var n; (ok, cache') = matchesWhere lib m filt cache in
           node_loop lib var filt cache' (if ok then acc @ [m] else acc) rs))"

definition runNodeScan :: "('f, 'r) golib \<Rightarrow> 'f db \<Rightarrow> executor \<Rightarrow> queryAST \<Rightarrow> pattern \<Rightarrow>
    exerr + 'f result" where
  "runNodeScan lib db e q pat =
     (let ((sql, args), filt) = node_scan_sql e q pat in
      case db_symbols db sql args of
        Inl err \<Rightarrow> Inl (ExNodeScan err)
      | Inr (rows, final) \<Rightarrow>
          (case node_loop lib (pat_fromVar pat) filt (Some Map.empty) [] rows of
             Inl err \<Rightarrow> Inl (ExDb err)
           | Inr nodes \<Rightarrow>
               (case final of
                  Some err \<Rightarrow> Inl (ExDb err)
                | None \<Rightarrow> Inr (buildResult lib nodes q))))"

definition edge_key :: "'f symRow \<Rightarrow> 'f symRow \<Rightarrow> string \<Rightarrow> string" where
  "edge_key a b kind = sy_ID a @ [CHR 0x00] @ sy_ID b @ [CHR 0x00] @ kind"

definition join_row :: "pattern \<Rightarrow> 'f symRow \<Rightarrow> 'f symRow \<Rightarrow> string \<Rightarrow> 'f \<Rightarrow> 'f row" where
  "join_row pat a b kind conf =
     (let m = copy_into (symRowToMap (pat_toVar pat) b) (copy_into (symRowToMap (pat_fromVar pat) a) [])
      in if pat_edgeVar pat \<noteq> []
         then AList.update (pat_edgeVar pat @ ''.confidence'') (AFlt conf)
                (AList.update (pat_edgeVar pat @ ''.kind'') (AStr kind) m)
         else m)"

text \<open>The confidence of a row already kept; a failed type assertion gives the zero value.\<close>

definition row_confidence :: "('f, 'r) golib \<Rightarrow> string \<Rightarrow> 'f row \<Rightarrow> 'f" where
  "row_confidence lib edgeVar row =
     (case row_get row (edgeVar @ ''.confidence'') of AFlt f \<Rightarrow> f | _ \<Rightarrow> gl_ofInt lib 0)"

type_synonym 'f join_state = "'f row list \<times> (string \<times> nat) list"

definition add_edge :: "('f, 'r) golib \<Rightarrow> pattern \<Rightarrow> string \<Rightarrow> 'f \<Rightarrow> 'f row \<Rightarrow> 'f join_state \<Rightarrow>
    'f join_state" where
  "add_edge lib pat key conf m st =
     (let (rows, seen) = st in
      case map_of seen key of
        Some idx \<Rightarrow>
          (if pat_edgeVar pat \<noteq> [] \<and> gl_lt lib (row_confidence lib (pat_edgeVar pat) (rows ! idx)) conf
           then (rows[idx := m], seen) else st)
      | None \<Rightarrow> (rows @ [m], AList.update key (length rows) seen))"

fun join_loop :: "('f, 'r) golib \<Rightarrow> pattern \<Rightarrow> whereExpr option \<Rightarrow> 'r cache \<Rightarrow> 'f join_state \<Rightarrow>
    (dberr + ('f scanned \<times> 'f scanned \<times> string \<times> 'f)) list \<Rightarrow> dberr + 'f join_state" where
  "join_loop lib pat filt cache st [] = Inr st"
| "join_loop lib pat filt cache st (r # rs) =
     (case scanJoinRow r of
        Inl e \<Rightarrow> Inl e
      | Inr (a, b, kind, conf) \<Rightarrow>
          (let m = join_row pat a b kind conf; (ok, cache') = matchesWhere lib m filt cache in
           join_loop lib pat filt cache'
             (if ok then add_edge lib pat (edge_key a b kind) conf m st else st) rs))"

definition runJoinQuery :: "('f, 'r) golib \<Rightarrow> 'f db \<Rightarrow> executor \<Rightarrow> queryAST \<Rightarrow> pattern \<Rightarrow>
    exerr + 'f result" where
  "runJoinQuery lib db e q pat =
     (let ((sql, args), filt) = join_sql e q pat in
      case db_joins db sql args of
        Inl err \<Rightarrow> Inl (ExJoin err)
      | Inr (rows, final) \<Rightarrow>
          (case join_loop lib pat filt (Some Map.empty) ([], []) rows of
             Inl err \<Rightarrow> Inl (ExDb err)
           | Inr st \<Rightarrow>
               (case final of
                  Some err \<Rightarrow> Inl (ExDb err)
                | None \<Rightarrow> Inr (buildResult lib (fst st) q))))"

text \<open>Reading a cursor to the end; \<^verbatim>\<open>runBFS\<close> does not look at the final error of its start nodes.\<close>

fun scan_all :: "(dberr + 'f scanned) list \<Rightarrow> dberr + 'f symRow list" where
  "scan_all [] = Inr []"
| "scan_all (r # rs) =
     (case scanSymRow r of
        Inl e \<Rightarrow> Inl e
      | Inr n \<Rightarrow> (case scan_all rs of Inl e \<Rightarrow> Inl e | Inr ns \<Rightarrow> Inr (n # ns)))"

fun scan_hops :: "(dberr + ('f scanned \<times> int)) list \<Rightarrow> dberr + ('f symRow \<times> int) list" where
  "scan_hops [] = Inr []"
| "scan_hops (r # rs) =
     (case r of
        Inl e \<Rightarrow> Inl e
      | Inr (s, depth) \<Rightarrow>
          (case scan_hops rs of Inl e \<Rightarrow> Inl e | Inr hs \<Rightarrow> Inr ((with_flags s, depth) # hs)))"

definition bfsViaCTE :: "'f db \<Rightarrow> string \<Rightarrow> string list \<Rightarrow> int \<Rightarrow> int \<Rightarrow> string \<Rightarrow> int \<Rightarrow> bool \<Rightarrow>
    dberr + ('f symRow \<times> int) list" where
  "bfsViaCTE db startID kinds minHops maxHops projectID mRows inbound =
     (let (sql, args) = bfs_cte_sql startID kinds minHops maxHops projectID mRows inbound in
      case db_hops db sql args of
        Inl e \<Rightarrow> Inl e
      | Inr (rows, final) \<Rightarrow>
          (case scan_hops rows of
             Inl e \<Rightarrow> Inl e
           | Inr hops \<Rightarrow> (case final of Some e \<Rightarrow> Inl e | None \<Rightarrow> Inr hops)))"

definition hop_row :: "pattern \<Rightarrow> bool \<Rightarrow> 'f symRow \<Rightarrow> 'f symRow \<times> int \<Rightarrow> 'f row" where
  "hop_row pat inverted start hop =
     (let (a, b) = (if inverted then (fst hop, start) else (start, fst hop)) in
      AList.update ''_hop'' (AInt (snd hop))
        (copy_into (symRowToMap (pat_toVar pat) b) (copy_into (symRowToMap (pat_fromVar pat) a) [])))"

text \<open>The rows of one start node; the flag says that the row cap was reached (\<^verbatim>\<open>goto done\<close>).\<close>

fun hop_loop :: "('f, 'r) golib \<Rightarrow> executor \<Rightarrow> queryAST \<Rightarrow> pattern \<Rightarrow> bool \<Rightarrow> 'f symRow \<Rightarrow> 'r cache \<Rightarrow>
    'f row list \<Rightarrow> ('f symRow \<times> int) list \<Rightarrow> 'f row list \<times> 'r cache \<times> bool" where
  "hop_loop lib e q pat iv start cache acc [] = (acc, cache, False)"
| "hop_loop lib e q pat iv start cache acc (h # hs) =
     (let m = hop_row pat iv start h;
          (ok, cache') = matchesWhere lib m (q_where q) cache;
          (dvar, dprops) = (if iv then (pat_fromVar pat, pat_fromProps pat)
                            else (pat_toVar pat, pat_toProps pat))
      in if \<not> ok \<or> \<not> matchesInlineProps lib m dvar dprops
         then hop_loop lib e q pat iv start cache' acc hs
         else let acc' = acc @ [m] in
           if int (length acc') \<ge> maxRows e * 2 then (acc', cache', True)
           else hop_loop lib e q pat iv start cache' acc' hs)"

definition bfs_kinds :: "pattern \<Rightarrow> string list" where
  "bfs_kinds pat = (if pat_edgeKinds pat = [] then [''CALLS''] else pat_edgeKinds pat)"

definition bfs_depth :: "pattern \<Rightarrow> int" where
  "bfs_depth pat = (if pat_maxHops pat > 10 then 10 else pat_maxHops pat)"

fun start_loop :: "('f, 'r) golib \<Rightarrow> 'f db \<Rightarrow> executor \<Rightarrow> queryAST \<Rightarrow> pattern \<Rightarrow> bool \<Rightarrow> nat \<Rightarrow>
    'r cache \<Rightarrow> 'f row list \<Rightarrow> 'f symRow list \<Rightarrow> exerr + 'f row list" where
  "start_loop lib db e q pat iv i cache acc [] = Inr acc"
| "start_loop lib db e q pat iv i cache acc (s # ss) =
     (case db_ctxErr db i of
        Some err \<Rightarrow> Inl (ExDb err)
      | None \<Rightarrow>
          (case bfsViaCTE db (sy_ID s) (bfs_kinds pat) (pat_minHops pat) (bfs_depth pat)
                  (ex_ProjectID e) (maxRows e) iv of
             Inl err \<Rightarrow> Inl (ExBfs (sy_ID s) err)
           | Inr hops \<Rightarrow>
               (let (acc', cache', done') = hop_loop lib e q pat iv s cache acc hops in
                if done' then Inr acc'
                else start_loop lib db e q pat iv (Suc i) cache' acc' ss)))"

definition runBFS :: "('f, 'r) golib \<Rightarrow> 'f db \<Rightarrow> executor \<Rightarrow> queryAST \<Rightarrow> pattern \<Rightarrow> exerr + 'f result" where
  "runBFS lib db e q pat =
     (let iv = shouldInvertBFS q pat; (sql, args) = bfs_start_sql e q pat in
      case db_symbols db sql args of
        Inl err \<Rightarrow> Inl (ExDb err)
      | Inr (rows, final) \<Rightarrow>
          (case scan_all rows of
             Inl err \<Rightarrow> Inl (ExDb err)
           | Inr starts \<Rightarrow>
               (case start_loop lib db e q pat iv 0 (Some Map.empty) [] starts of
                  Inl err \<Rightarrow> Inl err
                | Inr rows' \<Rightarrow> Inr (buildResult lib rows' q))))"

definition run :: "('f, 'r) golib \<Rightarrow> 'f db \<Rightarrow> executor \<Rightarrow> queryAST \<Rightarrow> exerr + 'f result" where
  "run lib db e q =
     (case q_patterns q of
        [] \<Rightarrow> Inr \<lparr>res_columns = [], res_rows = [], res_total = 0, res_warnings = []\<rparr>
      | pat # _ \<Rightarrow>
          (if pat_toVar pat = [] then runNodeScan lib db e q pat
           else if pat_minHops pat = 1 \<and> pat_maxHops pat = 1 then runJoinQuery lib db e q pat
           else runBFS lib db e q pat))"

section \<open>Advisories that ask the database\<close>

text \<open>The strings of a cursor; a failed scan skips the row, a failed query is \<^term>\<open>None\<close> (nil).\<close>

definition query_strings :: "'f db \<Rightarrow> string \<Rightarrow> arg list \<Rightarrow> string list option" where
  "query_strings db sql args =
     (case db_strings db sql args of
        Inl _ \<Rightarrow> None
      | Inr (rows, _) \<Rightarrow> Some (List.map_filter (\<lambda>r. case r of Inl _ \<Rightarrow> None | Inr s \<Rightarrow> Some s) rows))"

definition distinctColumn :: "string \<Rightarrow> 'f db \<Rightarrow> executor \<Rightarrow> string \<Rightarrow> string list option" where
  "distinctColumn table db e col =
     (if ex_ProjectID e \<noteq> []
      then query_strings db (''SELECT DISTINCT '' @ col @ '' FROM '' @ table @ '' WHERE project_id=? AND '' @ col @
             '' != '' @ sql_quotes @ '' ORDER BY '' @ col) [ArgS (ex_ProjectID e)]
      else query_strings db (''SELECT DISTINCT '' @ col @ '' FROM '' @ table @ '' WHERE '' @ col @
             '' != '' @ sql_quotes @ '' ORDER BY '' @ col) [])"

definition distinctEdgesColumn :: "'f db \<Rightarrow> executor \<Rightarrow> string \<Rightarrow> string list option" where
  "distinctEdgesColumn db e col = distinctColumn ''edges'' db e col"

definition distinctSymbolsColumn :: "'f db \<Rightarrow> executor \<Rightarrow> string \<Rightarrow> string list option" where
  "distinctSymbolsColumn db e col = distinctColumn ''symbols'' db e col"

definition kindsForSymbolName :: "'f db \<Rightarrow> executor \<Rightarrow> string \<Rightarrow> string list option" where
  "kindsForSymbolName db e name =
     (if ex_ProjectID e \<noteq> []
      then query_strings db ''SELECT DISTINCT kind FROM symbols WHERE project_id=? AND name=? ORDER BY kind''
             [ArgS (ex_ProjectID e), ArgS name]
      else query_strings db ''SELECT DISTINCT kind FROM symbols WHERE name=? ORDER BY kind'' [ArgS name])"

definition collectKindLabelTypoWarnings :: "'f db \<Rightarrow> executor \<Rightarrow> queryAST \<Rightarrow> warning list" where
  "collectKindLabelTypoWarnings db e q =
     (let values = filter (\<lambda>k. k \<noteq> [])
            (concat (map (\<lambda>p. [pat_fromKind p, pat_toKind p]) (q_patterns q)))
      in if values = [] then []
         else case distinctSymbolsColumn db e ''kind'' of
           None \<Rightarrow> []
         | Some known \<Rightarrow>
             map (\<lambda>v. WKindLabelTypo v known) (filter (\<lambda>v. v \<notin> set known) (sorted_set values)))"

definition enum_probe :: "string list \<Rightarrow> condition \<Rightarrow> (bool \<times> string \<times> string) option" where
  "enum_probe edges c =
     (let col = cypherPropToCol (c_property c) in
      if c_op c \<noteq> ''='' \<or> c_value c = [] \<or> c_property c \<notin> set enumValuedProperties \<or> col = [] then None
      else Some (c_variable c \<in> set edges, col, c_value c))"

definition collectUnknownEnumValueWarnings :: "'f db \<Rightarrow> executor \<Rightarrow> queryAST \<Rightarrow> warning list" where
  "collectUnknownEnumValueWarnings db e q =
     List.map_filter (\<lambda>(edge, col, v).
       case (if edge then distinctEdgesColumn db e col else distinctSymbolsColumn db e col) of
         None \<Rightarrow> None
       | Some known \<Rightarrow> (if v \<in> set known then None else Some (WUnknownEnumValue col v edge known)))
       (sorted_set (List.map_filter (enum_probe (edge_vars q)) (all_conditions q)))"

definition label_of :: "queryAST \<Rightarrow> (string \<times> string) list" where
  "label_of q =
     foldl (\<lambda>m p.
       let m1 = (if pat_fromVar p \<noteq> [] \<and> pat_fromKind p \<noteq> []
                 then AList.update (pat_fromVar p) (pat_fromKind p) m else m)
       in if pat_toVar p \<noteq> [] \<and> pat_toKind p \<noteq> []
          then AList.update (pat_toVar p) (pat_toKind p) m1 else m1) [] (q_patterns q)"

definition name_probe :: "(string \<times> string) list \<Rightarrow> condition \<Rightarrow> (string \<times> string \<times> string) option" where
  "name_probe labels c =
     (if c_op c \<noteq> ''='' \<or> c_property c \<noteq> ''name'' \<or> c_value c = [] then None
      else map_option (\<lambda>label. (c_value c, label, c_variable c)) (map_of labels (c_variable c)))"

definition collectKindLabelMismatchWarnings :: "'f db \<Rightarrow> executor \<Rightarrow> queryAST \<Rightarrow> warning list" where
  "collectKindLabelMismatchWarnings db e q =
     (let labels = label_of q in
      if labels = [] then []
      else List.map_filter (\<lambda>(name, label, v).
        case kindsForSymbolName db e name of
          None \<Rightarrow> None
        | Some kinds \<Rightarrow>
            (if kinds = [] \<or> label \<in> set kinds then None else Some (WKindLabelMismatch label name kinds)))
        (sorted_set (List.map_filter (name_probe labels) (all_conditions q))))"

section \<open>Execute\<close>

definition trim_to_cap :: "executor \<Rightarrow> queryAST \<Rightarrow> 'f result \<Rightarrow> 'f result" where
  "trim_to_cap e q res =
     (let cap = maxRows e in
      if \<not> hasAggregation q \<and> int (length (res_rows res)) > cap
      then res\<lparr>res_warnings := res_warnings res @ [WMaxRowsTrim cap (int (length (res_rows res)))],
             res_rows := take (nat cap) (res_rows res), res_total := cap\<rparr>
      else res)"

definition finish_result :: "('f, 'r) golib \<Rightarrow> 'f db \<Rightarrow> executor \<Rightarrow> queryAST \<Rightarrow> 'f result \<Rightarrow> 'f result" where
  "finish_result lib db e q res0 =
     (let res = trim_to_cap e q res0;
          ws = res_warnings res @ static_warnings q @ collectKindLabelTypoWarnings db e q;
          res = res\<lparr>res_warnings := ws\<rparr>
      in if isEffectivelyZero lib res q
         then res\<lparr>res_warnings := ws @ collectUnknownEnumValueWarnings db e q @
                collectKindLabelMismatchWarnings db e q\<rparr>
         else res)"

definition Execute :: "('f, 'r) golib \<Rightarrow> 'f db \<Rightarrow> executor \<Rightarrow> string \<Rightarrow> exerr + 'f result" where
  "Execute lib db e query =
     (if ex_ProjectID e = [] \<and> \<not> ex_AllowAllProjects e then Inl ExNoProject
      else case parse (\<lambda>p. gl_compile lib p \<noteq> None) query of
        None \<Rightarrow> Inl ExPanic
      | Some (Inl err) \<Rightarrow> Inl (ExParse err)
      | Some (Inr q) \<Rightarrow>
          (if length (q_patterns q) > 1 then Inl ExMultipleMatch
           else case run lib db e q of
             Inl err \<Rightarrow> Inl err
           | Inr res \<Rightarrow> Inr (finish_result lib db e q res)))"

end
