(* ===== verification/Cypher_Statements.thy ===== *)
theory Cypher_Statements
  imports Cypher_Exec
begin

text \<open>
  The statements the executor sends: every one binds as many arguments as it has placeholders.
  Building a statement is a sequence of steps that only extend it and keep it balanced, which is
  proved once per step.
\<close>

section \<open>Placeholders and arguments\<close>

definition balanced :: "sqlq \<Rightarrow> bool" where
  "balanced sq \<longleftrightarrow> qmarks (fst sq) = length (snd sq)"

text \<open>A statement grows at its end: text and arguments only gain suffixes.\<close>

definition extends :: "sqlq \<Rightarrow> sqlq \<Rightarrow> bool" where
  "extends sq sq' \<longleftrightarrow> prefix (fst sq) (fst sq') \<and> prefix (snd sq) (snd sq')"

lemma extends_refl [simp]: "extends sq sq"
  by (simp add: extends_def)

lemma extends_trans: "extends a b \<Longrightarrow> extends b c \<Longrightarrow> extends a c"
  unfolding extends_def by (meson prefix_order.trans)

text \<open>The steps that build a statement: they keep it balanced and only extend it.\<close>

definition sql_step :: "(sqlq \<Rightarrow> sqlq) \<Rightarrow> bool" where
  "sql_step f \<longleftrightarrow> (\<forall>sq. extends sq (f sq) \<and> (balanced sq \<longrightarrow> balanced (f sq)))"

lemma sql_stepD:
  assumes "sql_step f"
  shows "extends sq (f sq)" and "balanced sq \<Longrightarrow> balanced (f sq)"
  using assms unfolding sql_step_def by blast+

lemma sql_step_append:
  "(\<And>sq. f sq = (fst sq @ s, snd sq @ a)) \<Longrightarrow> qmarks s = length a \<Longrightarrow> sql_step f"
  by (simp add: sql_step_def extends_def balanced_def)

lemma sql_step_id [simp]: "sql_step (\<lambda>sq. sq)"
  by (simp add: sql_step_def)

lemma sql_step_if: "sql_step f \<Longrightarrow> sql_step (\<lambda>sq. if b then f sq else sq)"
  by (cases b) simp_all

lemma sql_step_comp: "sql_step f \<Longrightarrow> sql_step g \<Longrightarrow> sql_step (\<lambda>sq. g (f sq))"
  unfolding sql_step_def by (meson extends_trans)

lemma sql_step_foldl:
  "(\<And>x. x \<in> set xs \<Longrightarrow> sql_step (\<lambda>sq. f sq x)) \<Longrightarrow> sql_step (\<lambda>sq. foldl f sq xs)"
proof (induction xs)
  case (Cons x xs)
  then show ?case using sql_step_comp [of "\<lambda>sq. f sq x" "\<lambda>sq. foldl f sq xs"] by simp
qed simp

lemma sql_step_add_arg: "qmarks s = 1 \<Longrightarrow> sql_step (add_arg s v)"
  by (auto simp: sql_step_def add_arg_def extends_def balanced_def)

lemma sql_step_inline: "qmarks pfx = 0 \<Longrightarrow> sql_step (\<lambda>sq. appendInlinePropFilters sq pfx props)"
  unfolding appendInlinePropFilters_def
  by (rule sql_step_foldl) (auto simp: sql_step_def appendInlineProp_def Let_def extends_def balanced_def)

lemma sql_step_whereOp:
  assumes "qmarks pfx = 0" "qmarks col = 0"
  shows "sql_step (\<lambda>sq. appendWhereOp sq pfx col c)"
proof (cases "condLeafToSQL pfx col c")
  case None
  then show ?thesis by (simp add: appendWhereOp_eq)
next
  case (Some r)
  then show ?thesis
    using condLeafToSQL_args [of pfx col c] assms
    by (cases r) (auto simp: appendWhereOp_eq intro!: sql_step_append)
qed

text \<open>One condition of an AND chain pushed, kept or skipped.\<close>

definition chain_step :: "(sqlq \<times> condition list \<Rightarrow> condition \<Rightarrow> sqlq \<times> condition list) \<Rightarrow> bool" where
  "chain_step f \<longleftrightarrow> (\<forall>sq un c. extends sq (fst (f (sq, un) c)) \<and> (balanced sq \<longrightarrow> balanced (fst (f (sq, un) c))))"

lemma chain_step_foldl:
  "chain_step f \<Longrightarrow> extends (fst st) (fst (foldl f st cs)) \<and>
     (balanced (fst st) \<longrightarrow> balanced (fst (foldl f st cs)))"
proof (induction cs arbitrary: st)
  case (Cons c cs)
  have "extends (fst st) (fst (f st c)) \<and> (balanced (fst st) \<longrightarrow> balanced (fst (f st c)))"
    using Cons.prems unfolding chain_step_def by (metis prod.collapse)
  with Cons.IH [OF Cons.prems, of "f st c"] show ?case by (auto intro: extends_trans)
qed simp

lemma chain_step_node: "chain_step (push_node v)"
  using sql_stepD [OF sql_step_whereOp [of "[]"]]
  by (auto simp: chain_step_def push_node_def Let_def)

lemma chain_step_join: "chain_step (push_join pat)"
  using sql_stepD [OF sql_step_whereOp [of "''a.''"]] sql_stepD [OF sql_step_whereOp [of "''b.''"]]
  by (auto simp: chain_step_def push_join_def Let_def)

lemma sql_step_push_where:
  assumes "chain_step step" and "\<And>v pfx. prefixFor v = Some pfx \<Longrightarrow> qmarks pfx = 0"
  shows "sql_step (\<lambda>sq. fst (push_where step prefixFor q sq))"
proof -
  have tree: "qmarks s = length a" if "whereExprToSQL w prefixFor = Some (s, a)" for w s a
    using whereExprToSQL_args [OF that] assms(2) by simp
  have chain: "extends sq (fst (foldl step (sq, []) cs)) \<and>
      (balanced sq \<longrightarrow> balanced (fst (foldl step (sq, []) cs)))" for sq cs
    using chain_step_foldl [OF assms(1), of "(sq, [])" cs] by simp
  show ?thesis
    using chain tree
    by (auto simp: sql_step_def push_where_def Let_def extends_def balanced_def case_prod_beta
        split: option.splits)
qed

lemma node_prefix_qmarks: "node_prefix pat v = Some pfx \<Longrightarrow> qmarks pfx = 0"
  by (auto simp: node_prefix_def split: if_splits)

lemma join_prefix_qmarks: "join_prefix pat v = Some pfx \<Longrightarrow> qmarks pfx = 0"
  by (auto simp: join_prefix_def split: if_splits)

text \<open>The WHERE part of each statement, from the statement it starts with.\<close>

definition node_body :: "queryAST \<Rightarrow> pattern \<Rightarrow> sqlq \<Rightarrow> sqlq" where
  "node_body q pat sq =
     fst (push_where (push_node (pat_fromVar pat)) (node_prefix pat) q
       (appendInlinePropFilters (add_arg '' AND kind=?'' (pat_fromKind pat) sq) [] (pat_fromProps pat)))"

definition same_node :: "pattern \<Rightarrow> sqlq \<Rightarrow> sqlq" where
  "same_node pat sq =
     (if pat_fromVar pat \<noteq> [] \<and> pat_fromVar pat = pat_toVar pat
      then (fst sq @ '' AND a.id = b.id'', snd sq) else sq)"

definition join_body :: "queryAST \<Rightarrow> pattern \<Rightarrow> sqlq \<Rightarrow> sqlq" where
  "join_body q pat sq =
     fst (push_where (push_join pat) (join_prefix pat) q
       (same_node pat
         (appendInlinePropFilters
           (appendInlinePropFilters
             (add_arg '' AND b.kind=?'' (pat_toKind pat) (add_arg '' AND a.kind=?'' (pat_fromKind pat) sq))
             ''a.'' (pat_fromProps pat))
           ''b.'' (pat_toProps pat))))"

definition start_body :: "queryAST \<Rightarrow> pattern \<Rightarrow> sqlq \<Rightarrow> sqlq" where
  "start_body q pat sq =
     (let (startVar, startKind, startProps) = bfs_start q pat;
          sq = appendInlinePropFilters (add_arg '' AND kind=?'' startKind sq) [] startProps
      in if pushdownAllowed q then
           foldl (\<lambda>sq c.
             let col = cypherPropToCol (c_property c) in
             if c_variable c = startVar \<and> col \<noteq> [] \<and> c_op c = ''=''
             then (fst sq @ '' AND '' @ col @ ''=?'', snd sq @ [c_value c]) else sq)
             sq (q_conditions q)
         else sq)"

definition join_head :: "pattern \<Rightarrow> sqlq" where
  "join_head pat =
     (if pat_edgeKinds pat \<noteq> []
      then (join_base @ '' AND e.kind IN ('' @ inPlaceholders (length (pat_edgeKinds pat)) @ '')'',
            pat_edgeKinds pat)
      else (join_base, []))"

lemma node_scan_sql_fst:
  "fst (node_scan_sql e q pat) =
     scan_tail e q (orderByCol (resolveOrderByAlias (q_orderBy q) (q_returnVars q)) (pat_fromVar pat))
       (snd (node_scan_sql e q pat))
       (node_body q pat (add_arg '' AND project_id=?'' (ex_ProjectID e) (symbols_base, [])))"
  by (simp add: node_scan_sql_def node_body_def Let_def case_prod_beta)

lemma join_sql_fst:
  "\<exists>col. qmarks col = 0 \<and>
     fst (join_sql e q pat) =
       scan_tail e q col (snd (join_sql e q pat))
         (join_body q pat (add_arg '' AND a.project_id=?'' (ex_ProjectID e) (join_head pat)))"
proof -
  let ?oc = "joinOrderByCol (resolveOrderByAlias (q_orderBy q) (q_returnVars q)) pat"
  have "qmarks (fst ?oc) = 0" "qmarks (snd ?oc) = 0"
    by (simp_all add: joinOrderByCol_def Let_def split: prod.split)
  then have "qmarks (if snd ?oc = [] then [] else fst ?oc @ snd ?oc) = 0" by simp
  then show ?thesis
    by (intro exI [of _ "if snd ?oc = [] then [] else fst ?oc @ snd ?oc"])
      (simp add: join_sql_def join_body_def join_head_def same_node_def Let_def case_prod_beta)
qed

lemma bfs_start_sql_eq:
  "bfs_start_sql e q pat =
     (let sq = start_body q pat (add_arg '' AND project_id=?'' (ex_ProjectID e) (symbols_base, []))
      in (fst sq @ '' LIMIT 100'', map ArgS (snd sq)))"
  by (simp add: bfs_start_sql_def start_body_def Let_def case_prod_beta)

lemma sql_step_node_body: "sql_step (node_body q pat)"
  unfolding node_body_def
  by (intro sql_step_comp [OF sql_step_add_arg sql_step_comp [OF sql_step_inline sql_step_push_where]]
      chain_step_node) (auto dest: node_prefix_qmarks)

lemma sql_step_same_node: "sql_step (same_node pat)"
  by (auto simp: sql_step_def same_node_def extends_def balanced_def)

lemma sql_step_join_body: "sql_step (join_body q pat)"
  unfolding join_body_def
  by (intro sql_step_comp [OF sql_step_comp [OF sql_step_add_arg sql_step_add_arg]
        sql_step_comp [OF sql_step_comp [OF sql_step_inline sql_step_inline]
          sql_step_comp [OF sql_step_same_node sql_step_push_where]]]
      chain_step_join) (auto dest: join_prefix_qmarks)

lemma sql_step_start_body: "sql_step (start_body q pat)"
proof -
  obtain v k ps where b: "bfs_start q pat = (v, k, ps)" by (cases "bfs_start q pat")
  let ?f = "\<lambda>sq c. let col = cypherPropToCol (c_property c) in
    if c_variable c = v \<and> col \<noteq> [] \<and> c_op c = ''=''
    then (fst sq @ '' AND '' @ col @ ''=?'', snd sq @ [c_value c]) else sq"
  have "sql_step (\<lambda>sq. ?f sq c)" for c
    by (auto simp: sql_step_def extends_def balanced_def Let_def)
  then have fold: "sql_step (\<lambda>sq. if pushdownAllowed q then foldl ?f sq (q_conditions q) else sq)"
    by (intro sql_step_if sql_step_foldl)
  have "sql_step (\<lambda>sq. appendInlinePropFilters (add_arg '' AND kind=?'' k sq) [] ps)"
    by (intro sql_step_comp [OF sql_step_add_arg sql_step_inline]) simp_all
  from sql_step_comp [OF this fold] show ?thesis
    unfolding start_body_def [abs_def] b Let_def by simp
qed

lemma qmarks_inPlaceholders: "qmarks (inPlaceholders n) = n"
proof (cases n)
  case (Suc k)
  have split: "concat (replicate (Suc k) ''?,'') = concat (replicate k ''?,'') @ ''?,''"
    by (induction k) auto
  have "qmarks (concat (replicate k ''?,'')) = k" by (induction k) auto
  with Suc split show ?thesis by (simp add: inPlaceholders_def Let_def)
qed (simp add: inPlaceholders_def)

lemma qmarks_bases [simp]: "qmarks symbols_base = 0" "qmarks join_base = 0" "qmarks brk1 = 0" "qmarks brk2 = 0"
  by code_simp+

lemma balanced_base [simp]: "balanced (symbols_base, [])" "balanced (join_head pat)"
  by (auto simp: balanced_def join_head_def qmarks_inPlaceholders)

lemma scan_tail_args:
  assumes "balanced sq" "qmarks col = 0"
  shows "length (snd (scan_tail e q col filt sq)) = qmarks (fst (scan_tail e q col filt sq))"
  using assms by (simp add: scan_tail_def order_clause_def balanced_def Let_def)

text \<open>
  Every statement the executor sends has as many bind arguments as placeholders: the node scan,
  the join, the start nodes of a traversal and the recursive traversal itself, for every query,
  pattern and project.
\<close>

theorem statements_balanced:
  "length (snd (fst (node_scan_sql e q pat))) = qmarks (fst (fst (node_scan_sql e q pat))) \<and>
   length (snd (fst (join_sql e q pat))) = qmarks (fst (fst (join_sql e q pat))) \<and>
   length (snd (bfs_start_sql e q pat)) = qmarks (fst (bfs_start_sql e q pat)) \<and>
   length (snd (bfs_cte_sql startID kinds lo hi pid cap inbound)) =
     qmarks (fst (bfs_cte_sql startID kinds lo hi pid cap inbound))"
proof (intro conjI)
  show "length (snd (fst (node_scan_sql e q pat))) = qmarks (fst (fst (node_scan_sql e q pat)))"
    unfolding node_scan_sql_fst
    by (intro scan_tail_args sql_stepD(2) [OF sql_step_node_body] sql_stepD(2) [OF sql_step_add_arg])
      (simp_all add: orderByCol_def Let_def)
  obtain col where "qmarks col = 0" "fst (join_sql e q pat) =
       scan_tail e q col (snd (join_sql e q pat))
         (join_body q pat (add_arg '' AND a.project_id=?'' (ex_ProjectID e) (join_head pat)))"
    using join_sql_fst by blast
  then show "length (snd (fst (join_sql e q pat))) = qmarks (fst (fst (join_sql e q pat)))"
    by (simp add: scan_tail_args sql_stepD(2) [OF sql_step_join_body] sql_stepD(2) [OF sql_step_add_arg])
  have "balanced (start_body q pat (add_arg '' AND project_id=?'' (ex_ProjectID e) (symbols_base, [])))"
    by (intro sql_stepD(2) [OF sql_step_start_body] sql_stepD(2) [OF sql_step_add_arg]) simp_all
  then show "length (snd (bfs_start_sql e q pat)) = qmarks (fst (bfs_start_sql e q pat))"
    by (simp add: bfs_start_sql_eq Let_def balanced_def)
  show "length (snd (bfs_cte_sql startID kinds lo hi pid cap inbound)) =
     qmarks (fst (bfs_cte_sql startID kinds lo hi pid cap inbound))"
    by (simp add: bfs_cte_sql_def Let_def qmarks_inPlaceholders bfsSymbolProjectFilter_def)
qed

end
