(* ===== verification/Cypher_Exec_Props.thy ===== *)
theory Cypher_Exec_Props
  imports Cypher_Statements
begin

text \<open>
  What \<^verbatim>\<open>Execute\<close> guarantees whatever the database answers: a project's query depends on
  that project's rows only, and a plain result never exceeds the row cap.
\<close>

section \<open>Project isolation\<close>

text \<open>The statement filters on the project: the clause's placeholder is bound to it.\<close>

definition binds :: "string \<Rightarrow> string \<Rightarrow> string \<Rightarrow> arg list \<Rightarrow> bool" where
  "binds pid clause sql args \<longleftrightarrow>
     (\<exists>pre suf. sql = pre @ clause @ suf \<and> qmarks pre < length args \<and> args ! qmarks pre = ArgS pid)"

definition agree_on :: "string \<Rightarrow> 'f db \<Rightarrow> 'f db \<Rightarrow> bool" where
  "agree_on pid d d' \<longleftrightarrow>
     (\<forall>sql args. binds pid '' project_id=?'' sql args \<longrightarrow>
        db_symbols d sql args = db_symbols d' sql args \<and> db_strings d sql args = db_strings d' sql args) \<and>
     (\<forall>sql args. binds pid '' a.project_id=?'' sql args \<longrightarrow> db_joins d sql args = db_joins d' sql args) \<and>
     (\<forall>sql args. binds pid '' e.project_id = ?'' sql args \<and> binds pid '' s.project_id = ?'' sql args \<longrightarrow>
        db_hops d sql args = db_hops d' sql args) \<and>
     db_ctxErr d = db_ctxErr d'"

lemma binds_extends:
  assumes "extends (pre @ clause, ps @ [pid]) sq" and "qmarks pre = length ps"
  shows "binds pid clause (fst sq @ s) (map ArgS (snd sq) @ a)"
proof -
  obtain t u where "fst sq = (pre @ clause) @ t" "snd sq = (ps @ [pid]) @ u"
    using assms(1) by (auto simp: extends_def prefix_def)
  with assms(2) show ?thesis
    unfolding binds_def by (intro exI [of _ pre] exI [of _ "t @ s"]) (simp add: nth_append)
qed

lemma scan_tail_extends:
  "\<exists>s a. scan_tail e q col filt sq = (fst sq @ s, map ArgS (snd sq) @ a)"
  by (auto simp: scan_tail_def Let_def)

lemma node_scan_binds:
  assumes "ex_ProjectID e \<noteq> []"
  shows "binds (ex_ProjectID e) '' project_id=?'' (fst (fst (node_scan_sql e q pat)))
    (snd (fst (node_scan_sql e q pat)))"
proof -
  let ?sq = "add_arg '' AND project_id=?'' (ex_ProjectID e) (symbols_base, [])"
  have "?sq = ((symbols_base @ '' AND'') @ '' project_id=?'', [] @ [ex_ProjectID e])"
    using assms by (simp add: add_arg_def)
  then have ext: "extends ((symbols_base @ '' AND'') @ '' project_id=?'', [] @ [ex_ProjectID e])
      (node_body q pat ?sq)"
    using sql_stepD(1) [OF sql_step_node_body] by metis
  obtain s a where "fst (node_scan_sql e q pat) =
      (fst (node_body q pat ?sq) @ s, map ArgS (snd (node_body q pat ?sq)) @ a)"
    unfolding node_scan_sql_fst using scan_tail_extends by blast
  then show ?thesis using binds_extends [OF ext] by simp
qed

lemma bfs_start_binds:
  assumes "ex_ProjectID e \<noteq> []"
  shows "binds (ex_ProjectID e) '' project_id=?'' (fst (bfs_start_sql e q pat)) (snd (bfs_start_sql e q pat))"
proof -
  let ?sq = "add_arg '' AND project_id=?'' (ex_ProjectID e) (symbols_base, [])"
  have "?sq = ((symbols_base @ '' AND'') @ '' project_id=?'', [] @ [ex_ProjectID e])"
    using assms by (simp add: add_arg_def)
  then have ext: "extends ((symbols_base @ '' AND'') @ '' project_id=?'', [] @ [ex_ProjectID e])
      (start_body q pat ?sq)"
    using sql_stepD(1) [OF sql_step_start_body] by metis
  from binds_extends [OF ext, of "'' LIMIT 100''" "[]"] show ?thesis
    by (simp add: bfs_start_sql_eq Let_def)
qed

lemma join_binds:
  assumes "ex_ProjectID e \<noteq> []"
  shows "binds (ex_ProjectID e) '' a.project_id=?'' (fst (fst (join_sql e q pat))) (snd (fst (join_sql e q pat)))"
proof -
  let ?h = "join_head pat"
  let ?sq = "add_arg '' AND a.project_id=?'' (ex_ProjectID e) ?h"
  have "?sq = ((fst ?h @ '' AND'') @ '' a.project_id=?'', snd ?h @ [ex_ProjectID e])"
    using assms by (simp add: add_arg_def)
  then have ext: "extends ((fst ?h @ '' AND'') @ '' a.project_id=?'', snd ?h @ [ex_ProjectID e])
      (join_body q pat ?sq)"
    using sql_stepD(1) [OF sql_step_join_body] by metis
  have bal: "qmarks (fst ?h @ '' AND'') = length (snd ?h)"
    using balanced_base(2) [of pat] by (simp add: balanced_def)
  obtain s a where "fst (join_sql e q pat) =
      (fst (join_body q pat ?sq) @ s, map ArgS (snd (join_body q pat ?sq)) @ a)"
    using join_sql_fst [of e q pat] scan_tail_extends by metis
  then show ?thesis using binds_extends [OF ext bal] by simp
qed

lemma bindsI:
  "sql = pre @ clause @ suf \<Longrightarrow> args = ps @ ArgS pid # rest \<Longrightarrow> qmarks pre = length ps \<Longrightarrow>
     binds pid clause sql args"
  unfolding binds_def by (intro exI [of _ pre] exI [of _ suf]) simp

lemma bfs_cte_binds:
  assumes "pid \<noteq> []"
  shows "binds pid '' e.project_id = ?'' (fst (bfs_cte_sql i ks lo hi pid cap iv)) (snd (bfs_cte_sql i ks lo hi pid cap iv)) \<and>
    binds pid '' s.project_id = ?'' (fst (bfs_cte_sql i ks lo hi pid cap iv)) (snd (bfs_cte_sql i ks lo hi pid cap iv))"
proof -
  let ?rec = "if iv then ''SELECT e.from_id, r.depth + 1 FROM reach r JOIN edges e ON e.to_id = r.id''
    else ''SELECT e.to_id, r.depth + 1 FROM reach r JOIN edges e ON e.from_id = r.id''"
  let ?p1 = "''WITH RECURSIVE reach(id, depth) AS ('' @ brk2 @ ''SELECT ?, 0'' @ brk2 @ ''UNION ALL'' @ brk2 @
    ?rec @ '' AND e.kind IN ('' @ inPlaceholders (length ks) @ '') AND''"
  let ?p2 = "?p1 @ '' e.project_id = ?'' @ brk2 @ ''WHERE r.depth < ?'' @ brk1 @ ''),'' @ brk1 @
     ''reachAgg AS ('' @ brk2 @ ''SELECT id, MIN(depth) AS min_depth FROM reach'' @ brk2 @
     ''WHERE depth >= ? AND id != ?'' @ brk2 @ ''GROUP BY id'' @ brk1 @ '')'' @ brk1 @
     ''SELECT s.id, s.project_id, s.file_path, s.name, s.qualified_name, s.kind, s.language,'' @ brk2 @
     ''s.start_byte, s.end_byte, s.start_line, s.end_line, s.is_exported, s.is_entry_point, s.complexity,'' @ brk2 @
     ''s.extraction_confidence, s.signature, s.return_type, s.docstring, s.is_test, ra.min_depth'' @ brk1 @
     ''FROM reachAgg ra'' @ brk1 @ ''CROSS JOIN symbols s ON s.id = ra.id WHERE''"
  have q1: "qmarks ?p1 = length ([ArgS i] @ map ArgS ks)" by (simp add: qmarks_inPlaceholders)
  have q2: "qmarks ?p2 = length ([ArgS i] @ map ArgS ks @ [ArgS pid, ArgI hi, ArgI lo, ArgS i])"
    using q1 by simp
  have t1: "\<exists>suf. fst (bfs_cte_sql i ks lo hi pid cap iv) = ?p1 @ '' e.project_id = ?'' @ suf"
    using assms by (simp add: bfs_cte_sql_def Let_def)
  have t2: "\<exists>suf. fst (bfs_cte_sql i ks lo hi pid cap iv) = ?p2 @ '' s.project_id = ?'' @ suf"
    using assms by (simp add: bfs_cte_sql_def bfsSymbolProjectFilter_def Let_def)
  have a1: "\<exists>rest. snd (bfs_cte_sql i ks lo hi pid cap iv) = ([ArgS i] @ map ArgS ks) @ ArgS pid # rest"
    using assms by (simp add: bfs_cte_sql_def Let_def)
  have a2: "\<exists>rest. snd (bfs_cte_sql i ks lo hi pid cap iv) =
      ([ArgS i] @ map ArgS ks @ [ArgS pid, ArgI hi, ArgI lo, ArgS i]) @ ArgS pid # rest"
    using assms by (simp add: bfs_cte_sql_def Let_def)
  from t1 a1 bindsI [OF _ _ q1] t2 a2 bindsI [OF _ _ q2] show ?thesis by metis
qed

text \<open>The scans and the advisories under two databases that agree on the project.\<close>

definition same_project :: "executor \<Rightarrow> 'f db \<Rightarrow> 'f db \<Rightarrow> bool" where
  "same_project e d d' \<longleftrightarrow> ex_ProjectID e \<noteq> [] \<and> agree_on (ex_ProjectID e) d d'"

lemma same_projectD:
  assumes "same_project e d d'"
  shows "binds (ex_ProjectID e) '' project_id=?'' sql args \<Longrightarrow> db_symbols d sql args = db_symbols d' sql args"
    and "binds (ex_ProjectID e) '' project_id=?'' sql args \<Longrightarrow> db_strings d sql args = db_strings d' sql args"
    and "binds (ex_ProjectID e) '' a.project_id=?'' sql args \<Longrightarrow> db_joins d sql args = db_joins d' sql args"
    and "binds (ex_ProjectID e) '' e.project_id = ?'' sql args \<and>
      binds (ex_ProjectID e) '' s.project_id = ?'' sql args \<Longrightarrow> db_hops d sql args = db_hops d' sql args"
    and "db_ctxErr d = db_ctxErr d'"
    and "ex_ProjectID e \<noteq> []"
  using assms by (auto simp: same_project_def agree_on_def)

lemma runNodeScan_agree:
  assumes "same_project e d d'"
  shows "runNodeScan lib d e q pat = runNodeScan lib d' e q pat"
  using same_projectD(1) [OF assms node_scan_binds [OF same_projectD(6) [OF assms], of q pat]]
  by (simp add: runNodeScan_def case_prod_beta)

lemma runJoinQuery_agree:
  assumes "same_project e d d'"
  shows "runJoinQuery lib d e q pat = runJoinQuery lib d' e q pat"
  using same_projectD(3) [OF assms join_binds [OF same_projectD(6) [OF assms], of q pat]]
  by (simp add: runJoinQuery_def case_prod_beta)

lemma bfsViaCTE_agree:
  assumes "same_project e d d'"
  shows "bfsViaCTE d i ks lo hi (ex_ProjectID e) cap iv = bfsViaCTE d' i ks lo hi (ex_ProjectID e) cap iv"
  using same_projectD(4) [OF assms bfs_cte_binds [OF same_projectD(6) [OF assms], of i ks lo hi cap iv]]
  by (simp add: bfsViaCTE_def case_prod_beta)

lemma start_loop_agree:
  assumes "same_project e d d'"
  shows "start_loop lib d e q pat iv i cache acc ss = start_loop lib d' e q pat iv i cache acc ss"
  by (induction ss arbitrary: i cache acc)
    (simp_all add: same_projectD(5) [OF assms] bfsViaCTE_agree [OF assms] split: option.split sum.split prod.split)

lemma runBFS_agree:
  assumes "same_project e d d'"
  shows "runBFS lib d e q pat = runBFS lib d' e q pat"
  using same_projectD(1) [OF assms bfs_start_binds [OF same_projectD(6) [OF assms], of q pat]]
  by (simp add: runBFS_def case_prod_beta start_loop_agree [OF assms] split: sum.split)

lemma run_agree:
  assumes "same_project e d d'"
  shows "run lib d e q = run lib d' e q"
  by (simp add: run_def runNodeScan_agree [OF assms] runJoinQuery_agree [OF assms] runBFS_agree [OF assms]
      split: list.split)

lemma distinctColumn_agree:
  assumes "same_project e d d'" and "qmarks col = 0" and "qmarks table = 0"
  shows "distinctColumn table d e col = distinctColumn table d' e col"
proof -
  let ?sql = "''SELECT DISTINCT '' @ col @ '' FROM '' @ table @ '' WHERE project_id=? AND '' @ col @
    '' != '' @ sql_quotes @ '' ORDER BY '' @ col"
  have "binds (ex_ProjectID e) '' project_id=?'' ?sql [ArgS (ex_ProjectID e)]"
    using assms(2,3)
    by (intro bindsI [where pre = "''SELECT DISTINCT '' @ col @ '' FROM '' @ table @ '' WHERE''" and ps = "[]"]) auto
  from same_projectD(2) [OF assms(1) this] same_projectD(6) [OF assms(1)] show ?thesis
    by (simp add: distinctColumn_def query_strings_def)
qed

lemma kindsForSymbolName_agree:
  assumes "same_project e d d'"
  shows "kindsForSymbolName d e name = kindsForSymbolName d' e name"
proof -
  let ?sql = "''SELECT DISTINCT kind FROM symbols WHERE project_id=? AND name=? ORDER BY kind''"
  have "binds (ex_ProjectID e) '' project_id=?'' ?sql [ArgS (ex_ProjectID e), ArgS name]"
    by (intro bindsI [where pre = "''SELECT DISTINCT kind FROM symbols WHERE''" and ps = "[]"]) auto
  from same_projectD(2) [OF assms this] same_projectD(6) [OF assms] show ?thesis
    by (simp add: kindsForSymbolName_def query_strings_def)
qed

lemma enum_warnings_agree:
  assumes "same_project e d d'"
  shows "collectUnknownEnumValueWarnings d e q = collectUnknownEnumValueWarnings d' e q"
proof -
  let ?probes = "sorted_set (List.map_filter (enum_probe (edge_vars q)) (all_conditions q))"
  have "qmarks col = 0" if "(edge, col, v) \<in> set ?probes" for edge col v
    using that by (auto simp: map_filter_def enum_probe_def Let_def split: if_splits)
  then have cols: "(if edge then distinctEdgesColumn d e col else distinctSymbolsColumn d e col) =
      (if edge then distinctEdgesColumn d' e col else distinctSymbolsColumn d' e col)"
    if "(edge, col, v) \<in> set ?probes" for edge col v
    using that distinctColumn_agree [OF assms]
    by (auto simp: distinctEdgesColumn_def distinctSymbolsColumn_def)
  show ?thesis
    unfolding collectUnknownEnumValueWarnings_def
  proof (intro map_filter_cong, goal_cases)
    case (1 x)
    obtain edge col v where x: "x = (edge, col, v)" by (rule prod_cases3)
    from cols [OF 1 [unfolded x]] show ?case by (simp only: x prod.case)
  qed
qed

lemma finish_result_agree:
  assumes "same_project e d d'"
  shows "finish_result lib d e q res = finish_result lib d' e q res"
proof -
  have "distinctSymbolsColumn d e ''kind'' = distinctSymbolsColumn d' e ''kind''"
    unfolding distinctSymbolsColumn_def by (rule distinctColumn_agree [OF assms]) simp_all
  then have "collectKindLabelTypoWarnings d e q = collectKindLabelTypoWarnings d' e q"
    by (simp add: collectKindLabelTypoWarnings_def Let_def)
  moreover have "collectKindLabelMismatchWarnings d e q = collectKindLabelMismatchWarnings d' e q"
    unfolding collectKindLabelMismatchWarnings_def kindsForSymbolName_agree [OF assms] ..
  ultimately show ?thesis
    by (simp add: finish_result_def enum_warnings_agree [OF assms] Let_def)
qed

text \<open>
  C1. Project isolation: unless the caller opted into all projects, a query's whole answer, rows,
  errors and warnings, is the same under any two databases that answer alike the statements that
  filter on the caller's project.  With no project and no opt-in the query is refused.
\<close>

theorem Execute_project_isolation:
  assumes "\<not> ex_AllowAllProjects e \<or> ex_ProjectID e \<noteq> []" and "agree_on (ex_ProjectID e) d d'"
  shows "Execute lib d e query = Execute lib d' e query \<and>
    (ex_ProjectID e = [] \<longrightarrow> Execute lib d e query = Inl ExNoProject)"
proof (cases "ex_ProjectID e = []")
  case True
  with assms(1) show ?thesis by (simp add: Execute_def)
next
  case False
  with assms(2) have "same_project e d d'" by (simp add: same_project_def)
  with False show ?thesis
    by (simp add: Execute_def run_agree finish_result_agree split: option.split sum.split)
qed

text \<open>A database that answers nothing, and one that leaks a symbol to unscoped statements only.\<close>

definition empty_db :: "int db" where
  "empty_db = \<lparr>db_symbols = \<lambda>_ _. Inr ([], None), db_joins = \<lambda>_ _. Inr ([], None),
     db_hops = \<lambda>_ _. Inr ([], None), db_strings = \<lambda>_ _. Inr ([], None), db_ctxErr = \<lambda>_. None\<rparr>"

definition leaky_db :: "string \<Rightarrow> int db" where
  "leaky_db pid = empty_db\<lparr>db_symbols := \<lambda>_ args.
     if ArgS pid \<in> set args then Inr ([], None) else Inl ''unscoped''\<rparr>"

theorem Execute_project_isolation_witness:
  "let e = \<lparr>ex_MaxRows = 0, ex_ProjectID = ''p'', ex_AllowAllProjects = False\<rparr> in
   Execute int_lib empty_db e ''MATCH (n) RETURN n.name'' =
     Execute int_lib (leaky_db ''p'') e ''MATCH (n) RETURN n.name''"
proof -
  have "agree_on ''p'' empty_db (leaky_db ''p'')"
    by (auto simp: agree_on_def leaky_db_def empty_db_def binds_def) (metis nth_mem)
  then show ?thesis
    using Execute_project_isolation [of "\<lparr>ex_MaxRows = 0, ex_ProjectID = ''p'', ex_AllowAllProjects = False\<rparr>"
        empty_db "leaky_db ''p''" int_lib "''MATCH (n) RETURN n.name''"]
    by simp
qed

section \<open>The row cap\<close>

lemma run_shape:
  "run lib db e q = Inr res \<Longrightarrow> res_total res = int (length (res_rows res)) \<and>
     length (res_rows res) \<le> effective_limit q"
  by (auto simp: run_def runNodeScan_def runJoinQuery_def runBFS_def Let_def buildResult_shape
      split: list.splits if_splits sum.splits prod.splits option.splits)

lemma maxRows_bounds: "0 < maxRows e \<and> maxRows e \<le> 10000"
  by (simp add: maxRows_def)

lemma finish_result_rows:
  "res_rows (finish_result lib db e q res) = res_rows (trim_to_cap e q res)"
  "res_total (finish_result lib db e q res) = res_total (trim_to_cap e q res)"
  by (simp_all add: finish_result_def Let_def)

lemma trim_to_cap_shape:
  assumes "res_total res = int (length (res_rows res))"
  shows "res_total (trim_to_cap e q res) = int (length (res_rows (trim_to_cap e q res))) \<and>
    (\<not> hasAggregation q \<longrightarrow> int (length (res_rows (trim_to_cap e q res))) \<le> maxRows e)"
  using assms maxRows_bounds [of e] by (auto simp: trim_to_cap_def Let_def)

text \<open>
  Whatever the database answers, a query that succeeds reports exactly the rows it returns, and
  a query without aggregates never returns more than its LIMIT nor more than the executor's row
  cap, itself at most 10000.
\<close>

theorem Execute_row_cap:
  assumes "parse (\<lambda>p. gl_compile lib p \<noteq> None) query = Some (Inr q)"
    and "Execute lib db e query = Inr res"
  shows "res_total res = int (length (res_rows res)) \<and>
    (\<not> hasAggregation q \<longrightarrow>
       length (res_rows res) \<le> effective_limit q \<and>
       int (length (res_rows res)) \<le> maxRows e \<and> maxRows e \<le> 10000)"
proof -
  obtain r where r: "run lib db e q = Inr r" "res = finish_result lib db e q r"
    using assms by (auto simp: Execute_def split: if_splits sum.splits)
  have "length (res_rows (trim_to_cap e q r)) \<le> length (res_rows r)"
    by (simp add: trim_to_cap_def Let_def)
  then show ?thesis
    using run_shape [OF r(1)] trim_to_cap_shape [of r e q] maxRows_bounds [of e]
    by (auto simp: r(2) finish_result_rows)
qed

definition sample_symbol :: "string \<Rightarrow> int symRow" where
  "sample_symbol name = \<lparr>sy_ID = name, sy_ProjectID = ''p'', sy_FilePath = ''f.go'', sy_Name = name,
     sy_QualifiedName = name, sy_Kind = ''Function'', sy_Language = ''Go'', sy_StartByte = 0,
     sy_EndByte = 1, sy_StartLine = 1, sy_EndLine = 1, sy_IsExported = False, sy_IsEntryPoint = False,
     sy_Complexity = 1, sy_ExtractionConfidence = 1, sy_Signature = None, sy_ReturnType = None,
     sy_Docstring = None, sy_IsTest = False, sy_Branch = []\<rparr>"

definition symbols_db :: "string list \<Rightarrow> int db" where
  "symbols_db names = empty_db\<lparr>db_symbols := \<lambda>_ _.
     Inr (map (\<lambda>n. Inr (sample_symbol n, None, None, None)) names, None)\<rparr>"

definition capped :: executor where
  "capped = \<lparr>ex_MaxRows = 1, ex_ProjectID = ''p'', ex_AllowAllProjects = False\<rparr>"

theorem Execute_row_cap_witness:
  "case Execute int_lib (symbols_db [''a'', ''b'']) capped ''MATCH (n) RETURN n.name'' of
     Inr res \<Rightarrow> res_total res = 1 \<and> int (length (res_rows res)) \<le> maxRows capped
   | Inl _ \<Rightarrow> False"
proof -
  let ?p = "parse (\<lambda>p. gl_compile int_lib p \<noteq> None) ''MATCH (n) RETURN n.name''"
  let ?x = "Execute int_lib (symbols_db [''a'', ''b'']) capped ''MATCH (n) RETURN n.name''"
  have "case (?p, ?x) of (Some (Inr q), Inr res) \<Rightarrow> \<not> hasAggregation q \<and> res_total res = 1 | _ \<Rightarrow> False"
    by code_simp
  then show ?thesis
    using Execute_row_cap [of int_lib "''MATCH (n) RETURN n.name''"]
    by (fastforce split: option.splits sum.splits)
qed

end
