(* ===== verification/Cypher_Scans.thy ===== *)
theory Cypher_Scans
  imports Cypher_Exec_Props
begin

text \<open>
  What the three scans make of the rows the database returns: a node scan keeps the rows that satisfy
  every condition, pushed or not; a join keeps one row per logical edge, the most confident one; a
  traversal filters its start nodes before it looks at negation.
\<close>

section \<open>Node scan\<close>

text \<open>The verdict of a filter, without the cache of regular expressions.\<close>

definition keeps :: "('f, 'r) golib \<Rightarrow> whereExpr option \<Rightarrow> 'f row \<Rightarrow> bool" where
  "keeps lib filt row = (case filt of None \<Rightarrow> True | Some w \<Rightarrow> where_holds lib row w)"

lemma matchesWhere_keeps:
  assumes "cache_ok lib cache"
  shows "fst (matchesWhere lib row w cache) = keeps lib w row \<and> cache_ok lib (snd (matchesWhere lib row w cache))"
  using assms eval_where_cache [OF assms] by (simp add: matchesWhere_def keeps_def split: option.split)

lemma node_loop_filter:
  "cache_ok lib cache \<Longrightarrow> node_loop lib var filt cache acc (map Inr ss) =
     Inr (acc @ filter (keeps lib filt) (map (\<lambda>s. symRowToMap var (with_flags s)) ss))"
proof (induction ss arbitrary: cache acc)
  case (Cons s ss)
  obtain ok cache' where mw: "matchesWhere lib (symRowToMap var (with_flags s)) filt cache = (ok, cache')"
    by fastforce
  with matchesWhere_keeps [OF Cons.prems, of "symRowToMap var (with_flags s)" filt]
  have "ok = keeps lib filt (symRowToMap var (with_flags s))" "cache_ok lib cache'" by auto
  with mw Cons.IH [of cache'] show ?case by (simp add: scanSymRow_def)
qed simp

text \<open>A node scan splits the conditions of an AND chain into the pushed and the kept ones.\<close>

definition pushed :: "string \<Rightarrow> condition \<Rightarrow> bool" where
  "pushed v c \<longleftrightarrow> c_rhsProperty c = [] \<and> c_variable c = v \<and> cypherPropToCol (c_property c) \<noteq> [] \<and>
     pushableOp (c_op c)"

definition unpushed :: "string \<Rightarrow> condition \<Rightarrow> bool" where
  "unpushed v c \<longleftrightarrow> \<not> pushed v c \<and> (c_rhsProperty c \<noteq> [] \<or> c_variable c = v)"

lemma push_node_split:
  "foldl (push_node v) (sq, un) cs =
     (foldl (\<lambda>sq c. appendWhereOp sq [] (cypherPropToCol (c_property c)) c) sq (filter (pushed v) cs),
      un @ filter (unpushed v) cs)"
  by (induction cs arbitrary: sq un) (auto simp: push_node_def pushed_def unpushed_def Let_def)

lemma node_scan_filter:
  assumes "pushdownAllowed q"
  shows "snd (node_scan_sql e q pat) = andChainFromConds (filter (unpushed (pat_fromVar pat)) (q_conditions q))"
  using assms by (simp add: node_scan_sql_def push_where_def push_node_split Let_def)

lemma keeps_andChain: "keeps lib (andChainFromConds cs) row = list_all (cond_holds lib row) cs"
  by (cases cs) (auto simp: keeps_def andChainFromConds_def and_chain_from_holds)


definition by_name :: "string \<Rightarrow> queryAST" where
  "by_name v = \<lparr>q_patterns = [empty_pattern\<lparr>pat_fromVar := ''n''\<rparr>], q_conditions = [name_is v],
     q_where = Some (CondExpr (name_is v)),
     q_returnVars = [empty_returnVar\<lparr>rv_variable := ''n'', rv_property := ''name''\<rparr>],
     q_orderBy = [], q_orderDir = [], q_limit = - 1, q_distinct = False\<rparr>"


section \<open>Join\<close>

type_synonym 'f edge = "'f symRow \<times> 'f symRow \<times> string \<times> 'f"

definition edge_of :: "'f scanned \<times> 'f scanned \<times> string \<times> 'f \<Rightarrow> 'f edge" where
  "edge_of r = (let (a, b, kind, conf) = r in (with_flags a, with_flags b, kind, conf))"

definition key_of :: "'f edge \<Rightarrow> string" where
  "key_of x = (let (a, b, kind, conf) = x in edge_key a b kind)"

definition conf_of :: "'f edge \<Rightarrow> 'f" where
  "conf_of x = (let (a, b, kind, conf) = x in conf)"

definition row_of :: "pattern \<Rightarrow> 'f edge \<Rightarrow> 'f row" where
  "row_of pat x = (let (a, b, kind, conf) = x in join_row pat a b kind conf)"

text \<open>
  The representative of the edges with one key: the first one, replaced by each later one of higher
  confidence when the pattern names the edge.
\<close>

fun best_edge :: "('f, 'r) golib \<Rightarrow> pattern \<Rightarrow> 'f edge \<Rightarrow> 'f edge list \<Rightarrow> 'f edge" where
  "best_edge lib pat x [] = x"
| "best_edge lib pat x (y # ys) =
     best_edge lib pat (if pat_edgeVar pat \<noteq> [] \<and> gl_lt lib (conf_of x) (conf_of y) then y else x) ys"

definition best_row :: "('f, 'r) golib \<Rightarrow> pattern \<Rightarrow> 'f edge list \<Rightarrow> 'f row" where
  "best_row lib pat es = (case es of [] \<Rightarrow> [] | x # xs \<Rightarrow> row_of pat (best_edge lib pat x xs))"

lemma best_edge_snoc:
  "best_edge lib pat x (ys @ [y]) =
     (let b = best_edge lib pat x ys in
      if pat_edgeVar pat \<noteq> [] \<and> gl_lt lib (conf_of b) (conf_of y) then y else b)"
  by (induction ys arbitrary: x) (auto simp: Let_def)

lemma row_confidence_row_of:
  "pat_edgeVar pat \<noteq> [] \<Longrightarrow> row_confidence lib (pat_edgeVar pat) (row_of pat x) = conf_of x"
  by (auto simp: row_confidence_def row_of_def join_row_def conf_of_def Let_def split: prod.split)

lemma join_loop_foldl:
  "cache_ok lib cache \<Longrightarrow> join_loop lib pat filt cache st (map Inr rs) =
     Inr (foldl (\<lambda>st x. add_edge lib pat (key_of x) (conf_of x) (row_of pat x) st) st
       (filter (\<lambda>x. keeps lib filt (row_of pat x)) (map edge_of rs)))"
proof (induction rs arbitrary: cache st)
  case (Cons r rs)
  obtain a b kind conf where r: "edge_of r = (a, b, kind, conf)" by (cases "edge_of r")
  then have scan: "scanJoinRow (Inr r) = Inr (a, b, kind, conf)"
    by (auto simp: edge_of_def scanJoinRow_def split: prod.splits)
  obtain ok cache' where mw: "matchesWhere lib (join_row pat a b kind conf) filt cache = (ok, cache')"
    by fastforce
  with matchesWhere_keeps [OF Cons.prems, of "join_row pat a b kind conf" filt]
  have "ok = keeps lib filt (join_row pat a b kind conf)" "cache_ok lib cache'" by auto
  with mw scan r Cons.IH [of cache'] show ?case
    by (simp add: row_of_def key_of_def conf_of_def)
qed simp

lemma map_of_zip_nth:
  "distinct ks \<Longrightarrow> map_of (zip ks [0..<length ks]) k = Some i \<Longrightarrow> i < length ks \<and> ks ! i = k"
  by (auto dest!: map_of_SomeD simp: in_set_zip)

lemma map_of_zip_None: "map_of (zip ks [0..<length ks]) k = None \<longleftrightarrow> k \<notin> set ks"
  by (simp add: map_of_zip_is_None)

lemma map_update_distinct:
  "distinct ks \<Longrightarrow> i < length ks \<Longrightarrow> (map F ks)[i := y] = map (F(ks ! i := y)) ks"
  by (intro nth_equalityI) (auto simp: nth_list_update nth_eq_iff_index_eq)

lemma filter_key_Nil: "k \<notin> f ` set xs \<Longrightarrow> filter (\<lambda>y. f y = k) xs = []"
  by (induction xs) auto

lemma filter_key_Cons: "k \<in> f ` set xs \<Longrightarrow> \<exists>z ys. filter (\<lambda>y. f y = k) xs = z # ys"
  by (induction xs) auto

text \<open>The state after any number of edges: one row per key, in the order of first appearance.\<close>

definition group_row :: "('f, 'r) golib \<Rightarrow> pattern \<Rightarrow> 'f edge list \<Rightarrow> string \<Rightarrow> 'f row" where
  "group_row lib pat es k = best_row lib pat (filter (\<lambda>x. key_of x = k) es)"

definition edges_state :: "('f, 'r) golib \<Rightarrow> pattern \<Rightarrow> 'f edge list \<Rightarrow> 'f join_state" where
  "edges_state lib pat es =
     (let ks = firsts (map key_of es) in (map (group_row lib pat es) ks, zip ks [0..<length ks]))"

lemma group_row_other: "key_of x \<noteq> k \<Longrightarrow> group_row lib pat (es @ [x]) k = group_row lib pat es k"
  by (simp add: group_row_def)

lemma add_edge_new:
  assumes "key_of x \<notin> key_of ` set es"
  shows "add_edge lib pat (key_of x) (conf_of x) (row_of pat x) (edges_state lib pat es) =
    edges_state lib pat (es @ [x])"
proof -
  let ?ks = "firsts (map key_of es)"
  have none: "map_of (zip ?ks [0..<length ?ks]) (key_of x) = None" using assms by (simp add: map_of_zip_None)
  have "key_of x \<notin> fst ` set (zip ?ks [0..<length ?ks])"
    using assms by (auto dest: set_zip_leftD)
  then have add: "add_edge lib pat (key_of x) (conf_of x) (row_of pat x) (edges_state lib pat es) =
      (map (group_row lib pat es) ?ks @ [row_of pat x], zip ?ks [0..<length ?ks] @ [(key_of x, length ?ks)])"
    unfolding add_edge_def edges_state_def Let_def prod.case none option.case by (simp add: update_new)
  have "map (group_row lib pat (es @ [x])) ?ks = map (group_row lib pat es) ?ks"
    using assms by (intro map_cong refl group_row_other) auto
  moreover have "group_row lib pat (es @ [x]) (key_of x) = row_of pat x"
    using filter_key_Nil [OF assms] by (simp add: group_row_def best_row_def)
  ultimately show ?thesis
    unfolding add using assms by (simp add: edges_state_def Let_def)
qed

lemma group_row_old:
  assumes "key_of x \<in> key_of ` set es"
  obtains b where "group_row lib pat es (key_of x) = row_of pat b"
    and "group_row lib pat (es @ [x]) (key_of x) =
      (if pat_edgeVar pat \<noteq> [] \<and> gl_lt lib (conf_of b) (conf_of x) then row_of pat x else row_of pat b)"
proof -
  obtain z ys where g: "filter (\<lambda>y. key_of y = key_of x) es = z # ys"
    using filter_key_Cons [OF assms] by blast
  show ?thesis
    by (rule that [of "best_edge lib pat z ys"]) (simp_all add: group_row_def g best_row_def best_edge_snoc Let_def)
qed

lemma add_edge_old:
  assumes "key_of x \<in> key_of ` set es"
  shows "add_edge lib pat (key_of x) (conf_of x) (row_of pat x) (edges_state lib pat es) =
    edges_state lib pat (es @ [x])"
proof -
  let ?ks = "firsts (map key_of es)" and ?F = "group_row lib pat es" and ?k = "key_of x"
  obtain i where i: "map_of (zip ?ks [0..<length ?ks]) ?k = Some i"
    using assms map_of_zip_None [of ?ks ?k] by (cases "map_of (zip ?ks [0..<length ?ks]) ?k") auto
  then have nth: "i < length ?ks" "?ks ! i = ?k" using map_of_zip_nth [of ?ks ?k i] by auto
  obtain b where b: "?F ?k = row_of pat b" and new: "group_row lib pat (es @ [x]) ?k =
      (if pat_edgeVar pat \<noteq> [] \<and> gl_lt lib (conf_of b) (conf_of x) then row_of pat x else row_of pat b)"
    using group_row_old [OF assms] by blast
  have same: "(map ?F ?ks)[i := row_of pat b] = map ?F ?ks" using nth b by (simp add: list_update_same_conv)
  have conf: "row_confidence lib (pat_edgeVar pat) (map ?F ?ks ! i) = conf_of b" if "pat_edgeVar pat \<noteq> []"
    using nth b that by (simp add: row_confidence_row_of)
  have "map (group_row lib pat (es @ [x])) ?ks = (map ?F ?ks)[i := group_row lib pat (es @ [x]) ?k]"
    using nth by (subst map_update_distinct) (auto simp: group_row_other intro!: map_cong)
  moreover have "edges_state lib pat (es @ [x]) =
      (map (group_row lib pat (es @ [x])) ?ks, zip ?ks [0..<length ?ks])"
    using assms by (simp add: edges_state_def Let_def)
  ultimately show ?thesis
    unfolding add_edge_def edges_state_def [of _ _ es] Let_def prod.case i option.case new
    by (cases "pat_edgeVar pat = []") (simp_all add: same conf)
qed

lemma add_edges:
  "foldl (\<lambda>st x. add_edge lib pat (key_of x) (conf_of x) (row_of pat x) st) ([], []) es =
     edges_state lib pat es"
proof (induction es rule: rev_induct)
  case (snoc x es)
  then show ?case
    by (cases "key_of x \<in> key_of ` set es") (simp_all add: add_edge_new add_edge_old)
qed (simp add: edges_state_def)

text \<open>
  C10. A join returns one row per logical edge (source, target, kind), in the order the edges first
  appear among those the filter keeps; when the pattern names the edge the row is the one of the
  best edge of its key, and otherwise the first.
\<close>

theorem runJoinQuery_dedup:
  assumes "db_joins db (fst (fst (join_sql e q pat))) (snd (fst (join_sql e q pat))) = Inr (map Inr rs, None)"
  shows "let es = filter (\<lambda>x. keeps lib (snd (join_sql e q pat)) (row_of pat x)) (map edge_of rs) in
    runJoinQuery lib db e q pat =
      Inr (buildResult lib
        (map (group_row lib pat es) (firsts (map key_of es))) q)"
  using assms join_loop_foldl [of lib "Some Map.empty" pat "snd (join_sql e q pat)" "([], [])" rs]
  by (simp add: runJoinQuery_def case_prod_beta add_edges edges_state_def Let_def)

lemma best_edge_greatest:
  assumes "pat_edgeVar pat \<noteq> []" and "\<And>a. \<not> gl_lt lib a a"
    and "\<And>a b c. gl_lt lib a b \<Longrightarrow> gl_lt lib b c \<Longrightarrow> gl_lt lib a c"
  shows "best_edge lib pat x ys \<in> set (x # ys) \<and>
    (\<forall>y \<in> set (x # ys). \<not> gl_lt lib (conf_of (best_edge lib pat x ys)) (conf_of y))"
proof (induction ys rule: rev_induct)
  case (snoc y ys)
  let ?b = "best_edge lib pat x ys"
  show ?case
  proof (cases "gl_lt lib (conf_of ?b) (conf_of y)")
    case True
    then have best: "best_edge lib pat x (ys @ [y]) = y" using assms(1) by (simp add: best_edge_snoc)
    have "\<not> gl_lt lib (conf_of y) (conf_of z)" if "z \<in> set (x # ys)" for z
      using snoc assms(3) [OF True, of "conf_of z"] that by blast
    then show ?thesis unfolding best using assms(2) by simp
  next
    case False
    then have best: "best_edge lib pat x (ys @ [y]) = ?b" by (simp add: best_edge_snoc)
    from snoc False show ?thesis unfolding best by auto
  qed
qed (simp add: assms)

definition two_edges :: "(int scanned \<times> int scanned \<times> string \<times> int) list" where
  "two_edges = map (\<lambda>conf. ((sample_symbol ''a'', None, None, None), (sample_symbol ''b'', None, None, None),
     ''CALLS'', conf)) [1, 2]"

definition edges_db :: "int db" where
  "edges_db = empty_db\<lparr>db_joins := \<lambda>_ _. Inr (map Inr two_edges, None)\<rparr>"

definition call_pattern :: pattern where
  "call_pattern = empty_pattern\<lparr>pat_fromVar := ''a'', pat_toVar := ''b'', pat_edgeVar := ''r''\<rparr>"

definition confidences :: queryAST where
  "confidences = \<lparr>q_patterns = [call_pattern], q_conditions = [], q_where = None,
     q_returnVars = [empty_returnVar\<lparr>rv_variable := ''r'', rv_property := ''confidence''\<rparr>],
     q_orderBy = [], q_orderDir = [], q_limit = - 1, q_distinct = False\<rparr>"

theorem runJoinQuery_dedup_witness:
  "case runJoinQuery int_lib edges_db capped confidences call_pattern of
     Inr res \<Rightarrow> res_rows res = [[(''r.confidence'', AFlt 2)]] | Inl _ \<Rightarrow> False"
proof -
  let ?es = "filter (\<lambda>x. keeps int_lib (snd (join_sql capped confidences call_pattern)) (row_of call_pattern x))
    (map edge_of two_edges)"
  have "res_rows (buildResult int_lib (map (group_row int_lib call_pattern ?es)
      (firsts (map key_of ?es))) confidences) = [[(''r.confidence'', AFlt 2)]]" by code_simp
  moreover have "db_joins edges_db (fst (fst (join_sql capped confidences call_pattern)))
      (snd (fst (join_sql capped confidences call_pattern))) = Inr (map Inr two_edges, None)"
    by (simp add: edges_db_def)
  ultimately show ?thesis
    using runJoinQuery_dedup [of edges_db capped confidences call_pattern two_edges int_lib]
    by (simp add: Let_def)
qed

text \<open>
  When the pattern names the edge, the edge kept for a key is one of the scanned edges with that
  key and none of them has a higher confidence, for any irreflexive and transitive comparison of
  confidences.
\<close>

theorem best_row_most_confident:
  assumes "pat_edgeVar pat \<noteq> []" and "\<And>a. \<not> gl_lt lib a a"
    and "\<And>a b c. gl_lt lib a b \<Longrightarrow> gl_lt lib b c \<Longrightarrow> gl_lt lib a c"
    and "es \<noteq> []"
  shows "\<exists>x \<in> set es. best_row lib pat es = row_of pat x \<and>
    (\<forall>y \<in> set es. \<not> gl_lt lib (row_confidence lib (pat_edgeVar pat) (best_row lib pat es)) (conf_of y))"
proof -
  obtain x ys where es: "es = x # ys" using assms(4) by (cases es) auto
  show ?thesis
    using best_edge_greatest [OF assms(1-3), where x = x and ys = ys] assms(1)
    by (auto simp: es best_row_def row_confidence_row_of simp del: set_simps)
qed

theorem best_row_most_confident_witness:
  "\<exists>x \<in> set (map edge_of two_edges). best_row int_lib call_pattern (map edge_of two_edges) = row_of call_pattern x \<and>
     (\<forall>y \<in> set (map edge_of two_edges). \<not> gl_lt int_lib
        (row_confidence int_lib ''r'' (best_row int_lib call_pattern (map edge_of two_edges))) (conf_of y))"
  using best_row_most_confident [of call_pattern int_lib "map edge_of two_edges"]
  by (simp add: call_pattern_def int_lib_def two_edges_def)

end
