(* ===== verification/Cypher_Traversal.thy ===== *)
theory Cypher_Traversal
  imports Cypher_Scans
begin

text \<open>
  Variable-length traversals (\<^verbatim>\<open>runBFS\<close>): every row returned satisfies the whole WHERE and the
  properties written on the far end, and the rows are bounded; a negated equality on the start
  variable, however, selects the very nodes it should exclude.
\<close>

section \<open>Rows of a traversal\<close>

definition hop_ok :: "('f, 'r) golib \<Rightarrow> queryAST \<Rightarrow> pattern \<Rightarrow> bool \<Rightarrow> 'f row \<Rightarrow> bool" where
  "hop_ok lib q pat iv row \<longleftrightarrow>
     keeps lib (q_where q) row \<and>
     (if iv then matchesInlineProps lib row (pat_fromVar pat) (pat_fromProps pat)
      else matchesInlineProps lib row (pat_toVar pat) (pat_toProps pat))"

text \<open>What the loops keep: admissible rows, a consistent cache and the bound.\<close>

definition hops_inv :: "('f, 'r) golib \<Rightarrow> executor \<Rightarrow> queryAST \<Rightarrow> pattern \<Rightarrow> bool \<Rightarrow> 'r cache \<Rightarrow> 'f row list \<Rightarrow> bool" where
  "hops_inv lib e q pat iv cache acc \<longleftrightarrow>
     cache_ok lib cache \<and> list_all (hop_ok lib q pat iv) acc \<and> int (length acc) < maxRows e * 2"

lemma hop_loop_step:
  assumes "cache_ok lib cache"
  obtains cache' where "cache_ok lib cache'"
    "hop_loop lib e q pat iv s cache acc (h # hs) =
       (if hop_ok lib q pat iv (hop_row pat iv s h)
        then let acc' = acc @ [hop_row pat iv s h] in
          if int (length acc') \<ge> maxRows e * 2 then (acc', cache', True)
          else hop_loop lib e q pat iv s cache' acc' hs
        else hop_loop lib e q pat iv s cache' acc hs)"
proof -
  obtain ok cache' where mw: "matchesWhere lib (hop_row pat iv s h) (q_where q) cache = (ok, cache')"
    by fastforce
  with matchesWhere_keeps [OF assms, of "hop_row pat iv s h" "q_where q"]
  have "ok = keeps lib (q_where q) (hop_row pat iv s h)" "cache_ok lib cache'" by auto
  with mw show ?thesis by (intro that [of cache']) (auto simp: hop_ok_def Let_def)
qed

lemma hop_loop_inv:
  assumes "hops_inv lib e q pat iv cache acc"
    and "hop_loop lib e q pat iv s cache acc hs = (acc', cache', stopped)"
  shows "list_all (hop_ok lib q pat iv) acc' \<and> int (length acc') \<le> maxRows e * 2 \<and>
    (\<not> stopped \<longrightarrow> hops_inv lib e q pat iv cache' acc')"
  using assms
proof (induction hs arbitrary: cache acc)
  case Nil
  then show ?case by (auto simp: hops_inv_def)
next
  case (Cons h hs)
  from Cons.prems(1) have "cache_ok lib cache" by (simp add: hops_inv_def)
  then obtain c where c: "cache_ok lib c"
    and step: "hop_loop lib e q pat iv s cache acc (h # hs) =
       (if hop_ok lib q pat iv (hop_row pat iv s h)
        then let acc' = acc @ [hop_row pat iv s h] in
          if int (length acc') \<ge> maxRows e * 2 then (acc', c, True)
          else hop_loop lib e q pat iv s c acc' hs
        else hop_loop lib e q pat iv s c acc hs)" by (rule hop_loop_step)
  let ?m = "hop_row pat iv s h"
  consider (skip) "\<not> hop_ok lib q pat iv ?m"
    | (full) "hop_ok lib q pat iv ?m" "int (length (acc @ [?m])) \<ge> maxRows e * 2"
    | (more) "hop_ok lib q pat iv ?m" "\<not> int (length (acc @ [?m])) \<ge> maxRows e * 2" by blast
  then show ?case
  proof cases
    case skip
    with Cons.prems(2) step have "hop_loop lib e q pat iv s c acc hs = (acc', cache', stopped)" by simp
    then show ?thesis using Cons.prems(1) c by (intro Cons.IH [of c acc]) (simp_all add: hops_inv_def)
  next
    case full
    with Cons.prems step show ?thesis by (auto simp: hops_inv_def Let_def)
  next
    case more
    with Cons.prems(2) step have "hop_loop lib e q pat iv s c (acc @ [?m]) hs = (acc', cache', stopped)"
      by (simp add: Let_def)
    then show ?thesis
      using Cons.prems(1) c more by (intro Cons.IH [of c "acc @ [?m]"]) (simp_all add: hops_inv_def)
  qed
qed

lemma start_loop_inv:
  assumes "hops_inv lib e q pat iv cache acc"
    and "start_loop lib db e q pat iv i cache acc ss = Inr rows"
  shows "list_all (hop_ok lib q pat iv) rows \<and> int (length rows) \<le> maxRows e * 2"
  using assms
proof (induction ss arbitrary: i cache acc)
  case Nil
  then show ?case by (simp add: hops_inv_def)
next
  case (Cons s ss)
  from Cons.prems(2) obtain hops where hops: "bfsViaCTE db (sy_ID s) (bfs_kinds pat) (pat_minHops pat)
      (bfs_depth pat) (ex_ProjectID e) (maxRows e) iv = Inr hops" "db_ctxErr db i = None"
    by (auto split: option.splits sum.splits)
  obtain acc' cache' stopped where hl: "hop_loop lib e q pat iv s cache acc hops = (acc', cache', stopped)"
    by (rule prod_cases3)
  note inv' = hop_loop_inv [OF Cons.prems(1) hl]
  show ?case
  proof (cases stopped)
    case True
    with Cons.prems(2) hops hl inv' show ?thesis by simp
  next
    case False
    with Cons.prems(2) hops hl inv' show ?thesis by (intro Cons.IH [of cache' acc' "Suc i"]) simp_all
  qed
qed

text \<open>
  Every row a traversal feeds into the result satisfies the whole WHERE clause and the inline
  properties of the end it discovers, and there are at most twice the row cap of them, whatever the
  database returns.
\<close>

theorem runBFS_rows:
  assumes "runBFS lib db e q pat = Inr res"
  shows "\<exists>rows. res = buildResult lib rows q \<and>
    list_all (hop_ok lib q pat (shouldInvertBFS q pat)) rows \<and> int (length rows) \<le> maxRows e * 2"
proof -
  have init: "hops_inv lib e q pat (shouldInvertBFS q pat) (Some Map.empty) []"
    using maxRows_bounds [of e] by (simp add: hops_inv_def)
  from assms obtain starts rows where
    "start_loop lib db e q pat (shouldInvertBFS q pat) 0 (Some Map.empty) [] starts = Inr rows"
    "res = buildResult lib rows q"
    by (auto simp: runBFS_def Let_def case_prod_beta split: sum.splits)
  with start_loop_inv [OF init] show ?thesis by blast
qed

section \<open>A negated condition on the start node\<close>

definition not_named :: "string \<Rightarrow> condition" where
  "not_named v = (name_is v)\<lparr>c_variable := ''a'', c_negated := True\<rparr>"

lemma hop_loop_reject:
  assumes "cache_ok lib cache"
    and "\<And>h. h \<in> set hs \<Longrightarrow> \<not> hop_ok lib q pat iv (hop_row pat iv s h)"
  obtains cache' where "hop_loop lib e q pat iv s cache acc hs = (acc, cache', False)" "cache_ok lib cache'"
  using assms
proof (induction hs arbitrary: cache thesis)
  case (Cons h hs)
  from Cons.prems(2) obtain c where c: "cache_ok lib c"
    and step: "hop_loop lib e q pat iv s cache acc (h # hs) = hop_loop lib e q pat iv s c acc hs"
    using hop_loop_step [of lib cache e q pat iv s acc h hs] Cons.prems(3) [of h] by auto
  obtain cache' where "hop_loop lib e q pat iv s c acc hs = (acc, cache', False)" "cache_ok lib cache'"
    using Cons.IH [OF _ c] Cons.prems(3) by (metis list.set_intros(2))
  with step show ?case by (intro Cons.prems(1)) simp_all
qed simp

lemma hop_row_start_name:
  assumes "pat_fromVar pat = ''a''" and "pat_toVar pat = ''b''"
  shows "row_get (hop_row pat False s h) ''a.name'' = AStr (sy_Name s)"
  using assms by (simp add: hop_row_def copy_into_def symRowToMap_def row_get_def)

lemma not_named_rejects:
  assumes "pat_fromVar pat = ''a''" "pat_toVar pat = ''b''" "q_where q = Some (CondExpr (not_named v))" "sy_Name s = v"
  shows "\<not> hop_ok lib q pat False (hop_row pat False s h)"
  using hop_row_start_name [OF assms(1,2), of s h] assms(3,4)
  by (simp add: hop_ok_def keeps_def cond_holds_def evalCondition_def not_named_def name_is_def
      empty_condition_def cond_key_def eval_eq_def Let_def)

lemma start_loop_not_named:
  assumes "pat_fromVar pat = ''a''" "pat_toVar pat = ''b''" "q_where q = Some (CondExpr (not_named v))"
    and "\<And>i. db_ctxErr db i = None" and "\<And>sql args. \<exists>rs. db_hops db sql args = Inr (map Inr rs, None)"
    and "list_all (\<lambda>s. sy_Name s = v) ss" and "cache_ok lib cache"
  shows "start_loop lib db e q pat False i cache acc ss = Inr acc"
  using assms(6,7)
proof (induction ss arbitrary: i cache)
  case (Cons s ss)
  have scan: "scan_hops (map Inr rs) = Inr (map (\<lambda>(s, d). (with_flags s, d)) rs)" for rs :: "('a scanned \<times> int) list"
    by (induction rs) auto
  let ?cte = "bfs_cte_sql (sy_ID s) (bfs_kinds pat) (pat_minHops pat) (bfs_depth pat) (ex_ProjectID e) (maxRows e) False"
  obtain rs where rs: "db_hops db (fst ?cte) (snd ?cte) = Inr (map Inr rs, None)" using assms(5) by blast
  obtain hops where hops: "bfsViaCTE db (sy_ID s) (bfs_kinds pat) (pat_minHops pat)
      (bfs_depth pat) (ex_ProjectID e) (maxRows e) False = Inr hops"
    using rs by (simp add: bfsViaCTE_def case_prod_beta scan)
  obtain cache' where "hop_loop lib e q pat False s cache acc hops = (acc, cache', False)" "cache_ok lib cache'"
    using hop_loop_reject [OF Cons.prems(2) not_named_rejects [OF assms(1-3)], of hops s] Cons.prems(1)
    by auto
  with Cons hops assms(4) show ?case by simp
qed simp

text \<open>
  The start nodes of a traversal are preselected by the equalities on the start variable with
  their negation ignored: for \<^verbatim>\<open>WHERE NOT a.name = v\<close> the statement asks for the nodes named v,
  all of which the WHERE then rejects, so the query never returns a row.
\<close>

theorem negated_start_returns_nothing:
  assumes "pat_fromVar pat = ''a''" and "pat_toVar pat = ''b''"
    and "q_conditions q = [not_named v]" and "q_where q = Some (CondExpr (not_named v))"
    and "\<And>i. db_ctxErr db i = None" and "\<And>sql args. \<exists>rs. db_hops db sql args = Inr (map Inr rs, None)"
    and "db_symbols db (fst (bfs_start_sql e q pat)) (snd (bfs_start_sql e q pat)) =
      Inr (map Inr (filter (\<lambda>(s, _). sy_Name s = v) table), None)"
  shows "has_suffix (fst (bfs_start_sql e q pat)) '' AND name=? LIMIT 100'' \<and>
    last (snd (bfs_start_sql e q pat)) = ArgS v \<and>
    runBFS lib db e q pat = Inr (buildResult lib [] q)"
proof (intro conjI)
  have allowed: "pushdownAllowed q" using assms(4) by (simp add: pushdownAllowed_def whereIsAndChainOfLeaves_def)
  have fields: "c_variable (not_named v) = ''a''" "c_property (not_named v) = ''name''" "c_op (not_named v) = ''=''"
    "c_value (not_named v) = v" by (simp_all add: not_named_def name_is_def)
  have out: "\<not> shouldInvertBFS q pat"
    using assms(1-3) by (simp add: shouldInvertBFS_def fields name_col)
  obtain sq where sq: "bfs_start_sql e q pat = (fst sq @ '' AND name=? LIMIT 100'', map ArgS (snd sq @ [v]))"
    using assms(1,3) allowed out
    by (simp add: bfs_start_sql_def bfs_start_def fields name_col Let_def)
  from sq show "has_suffix (fst (bfs_start_sql e q pat)) '' AND name=? LIMIT 100''"
    "last (snd (bfs_start_sql e q pat)) = ArgS v" by (simp_all add: has_suffix_def suffix_def)
  let ?ss = "filter (\<lambda>(s, _). sy_Name s = v) table"
  have scan: "scan_all (map Inr rs) = Inr (map with_flags rs)" for rs :: "'a scanned list"
    by (induction rs) (auto simp: scanSymRow_def)
  have "list_all (\<lambda>s. sy_Name s = v) (map with_flags ?ss)"
    by (auto simp: list_all_iff with_flags_def)
  then have "start_loop lib db e q pat False 0 (Some Map.empty) [] (map with_flags ?ss) = Inr []"
    by (intro start_loop_not_named [OF assms(1,2,4,5,6)]) simp_all
  with assms(7) out show "runBFS lib db e q pat = Inr (buildResult lib [] q)"
    by (simp add: runBFS_def case_prod_beta scan)
qed

definition not_x_query :: queryAST where
  "not_x_query = (by_name ''x'')\<lparr>q_conditions := [not_named ''x''], q_where := Some (CondExpr (not_named ''x''))\<rparr>"

definition reach_pattern :: pattern where
  "reach_pattern = call_pattern\<lparr>pat_maxHops := 2\<rparr>"

theorem negated_start_returns_nothing_witness:
  "runBFS int_lib (symbols_db [''x'']) capped not_x_query reach_pattern = Inr (buildResult int_lib [] not_x_query)"
  using negated_start_returns_nothing [of reach_pattern not_x_query "''x''" "symbols_db [''x'']" capped
      "[(sample_symbol ''x'', None, None, None), (sample_symbol ''y'', None, None, None)]" int_lib]
  by (simp add: reach_pattern_def call_pattern_def not_x_query_def symbols_db_def empty_db_def sample_symbol_def)

theorem runBFS_rows_witness:
  "\<exists>rows. buildResult int_lib [] not_x_query = buildResult int_lib rows not_x_query \<and>
    list_all (hop_ok int_lib not_x_query reach_pattern (shouldInvertBFS not_x_query reach_pattern)) rows \<and>
    int (length rows) \<le> maxRows capped * 2"
proof -
  have "runBFS int_lib (symbols_db []) capped not_x_query reach_pattern = Inr (buildResult int_lib [] not_x_query)"
    by (simp add: runBFS_def case_prod_beta symbols_db_def)
  then show ?thesis by (rule runBFS_rows)
qed

end
