(* ===== verification/Trace_Closure.thy ===== *)
theory Trace_Closure
  imports Pincher_Prelude
begin

text \<open>
  Call-graph traces (\<^verbatim>\<open>internal/db/closure.go\<close>, \<^verbatim>\<open>traceViaCTE\<close> in \<^verbatim>\<open>internal/db/db.go\<close>
  and \<^verbatim>\<open>TraceByID\<close> in \<^verbatim>\<open>internal/index/indexer.go\<close>).  The tables are lists of rows and each
  SQL statement is the list operation it denotes; the order in which the database or a Go map
  yields rows is a parameter wherever the code leaves it open.  Every database call may fail: the
  faults are a function of the step.
\<close>

section \<open>Tables\<close>

record edge_row =
  er_project :: string
  er_from :: string
  er_to :: string
  er_kind :: string

record closure_row =
  cr_project :: string
  cr_from :: string
  cr_to :: string
  cr_depth :: nat
  cr_via :: string

record store =
  st_edges :: "edge_row list"
  st_closure :: "closure_row list"

record traceResult =
  tr_SymbolID :: string
  tr_Depth :: nat
  tr_ViaKind :: string

datatype dbstep =
    ReadEdges | ScanEdge nat | EdgeIter | BeginTx | DeletePrior | Prepare | InsertRow nat
  | CloseStmt | CommitTx | CountRows | FindStart | TraceQuery bool | TraceEmit bool

type_synonym faults = "dbstep \<Rightarrow> string option"

datatype trace_err = BadDepth int | NoKinds | NotFound string | StepErr dbstep string

definition trace_kinds :: "string list" where
  "trace_kinds = [''CALLS'', ''HTTP_CALLS'', ''ASYNC_CALLS'']"

definition select_edges :: "edge_row list \<Rightarrow> string \<Rightarrow> edge_row list" where
  "select_edges edges pid = filter (\<lambda>r. er_project r = pid \<and> er_kind r \<in> set trace_kinds) edges"

definition insert_or_ignore :: "closure_row \<Rightarrow> closure_row list \<Rightarrow> closure_row list" where
  "insert_or_ignore r t =
     (if list_ex (\<lambda>x. cr_project x = cr_project r \<and> cr_from x = cr_from r \<and> cr_to x = cr_to r) t
      then t else t @ [r])"

definition delete_project :: "string \<Rightarrow> closure_row list \<Rightarrow> closure_row list" where
  "delete_project pid t = filter (\<lambda>r. cr_project r \<noteq> pid) t"

section \<open>Settings\<close>

definition ClosureEnabled :: "string \<Rightarrow> bool" where
  "ClosureEnabled v \<longleftrightarrow> v = ''1'' \<or> v = ''true'' \<or> v = ''TRUE''"

definition ClosureMaxDepth :: "string \<Rightarrow> int" where
  "ClosureMaxDepth v =
     (if v = [] then 3
      else let (n, err) = atoi v in
        if err \<or> n < 1 then 3 else if n > 8 then 8 else n)"

section \<open>Building the closure\<close>

type_synonym adjacency = "(string \<times> (string \<times> string) list) list"

definition adj_get :: "adjacency \<Rightarrow> string \<Rightarrow> (string \<times> string) list" where
  "adj_get adj u = (case map_of adj u of None \<Rightarrow> [] | Some es \<Rightarrow> es)"

definition add_adj :: "edge_row \<Rightarrow> adjacency \<Rightarrow> adjacency" where
  "add_adj r adj = AList.update (er_from r) (adj_get adj (er_from r) @ [(er_to r, er_kind r)]) adj"

fun read_edges :: "faults \<Rightarrow> nat \<Rightarrow> adjacency \<Rightarrow> edge_row list \<Rightarrow> trace_err + adjacency" where
  "read_edges faults i adj [] =
     (case faults EdgeIter of Some e \<Rightarrow> Inl (StepErr EdgeIter e) | None \<Rightarrow> Inr adj)"
| "read_edges faults i adj (r # rs) =
     (case faults (ScanEdge i) of
        Some e \<Rightarrow> Inl (StepErr (ScanEdge i) e)
      | None \<Rightarrow> read_edges faults (Suc i) (add_adj r adj) rs)"

text \<open>
  The transaction: the table so far and the number of inserts, or the first error, after which the
  code returns and the remaining steps do nothing.
\<close>

type_synonym tx = "trace_err + closure_row list \<times> nat"

definition tx_insert :: "faults \<Rightarrow> closure_row \<Rightarrow> tx \<Rightarrow> tx" where
  "tx_insert faults r tx =
     (case tx of
        Inl e \<Rightarrow> Inl e
      | Inr (t, n) \<Rightarrow>
          (case faults (InsertRow n) of
             Some e \<Rightarrow> Inl (StepErr (InsertRow n) e)
           | None \<Rightarrow> Inr (insert_or_ignore r t, Suc n)))"

type_synonym bfs = "(string \<rightharpoonup> nat) \<times> (string \<times> string) list \<times> tx"

definition visit_edge :: "faults \<Rightarrow> string \<Rightarrow> string \<Rightarrow> nat \<Rightarrow> bfs \<Rightarrow> string \<times> string \<Rightarrow> bfs" where
  "visit_edge faults pid from d st e =
     (let (seen, next', tx) = st; (to, kind) = e in
      if seen to \<noteq> None then st
      else (seen(to \<mapsto> d), next' @ [(to, kind)],
            tx_insert faults \<lparr>cr_project = pid, cr_from = from, cr_to = to, cr_depth = d, cr_via = kind\<rparr> tx))"

definition visit_node :: "faults \<Rightarrow> adjacency \<Rightarrow> string \<Rightarrow> string \<Rightarrow> nat \<Rightarrow> bfs \<Rightarrow> string \<times> string \<Rightarrow> bfs" where
  "visit_node faults adj pid from d st u = foldl (visit_edge faults pid from d) st (adj_get adj (fst u))"

fun bfs_levels :: "faults \<Rightarrow> adjacency \<Rightarrow> string \<Rightarrow> string \<Rightarrow> nat \<Rightarrow> nat \<Rightarrow> (string \<rightharpoonup> nat) \<Rightarrow>
    (string \<times> string) list \<Rightarrow> tx \<Rightarrow> tx" where
  "bfs_levels faults adj pid from d 0 seen frontier tx = tx"
| "bfs_levels faults adj pid from d (Suc left) seen frontier tx =
     (if frontier = [] then tx
      else let (seen', next', tx') = foldl (visit_node faults adj pid from d) (seen, [], tx) frontier
        in bfs_levels faults adj pid from (Suc d) left seen' next' tx')"

definition bfs_source :: "faults \<Rightarrow> adjacency \<Rightarrow> string \<Rightarrow> nat \<Rightarrow> tx \<Rightarrow> string \<Rightarrow> tx" where
  "bfs_source faults adj pid maxDepth tx from =
     bfs_levels faults adj pid from 1 maxDepth [from \<mapsto> 0] [(from, [])] tx"

text \<open>
  \<open>ord\<close> is the order in which ranging over the adjacency map yields its keys.  An error after the
  transaction has begun rolls it back: the store is the old one.
\<close>

definition BuildClosure :: "faults \<Rightarrow> (string list \<Rightarrow> string list) \<Rightarrow> store \<Rightarrow> string \<Rightarrow> int \<Rightarrow>
    trace_err option \<times> store" where
  "BuildClosure faults ord st pid maxDepth =
     (let step = (\<lambda>s k. case faults s of Some e \<Rightarrow> (Some (StepErr s e), st) | None \<Rightarrow> k) in
      if maxDepth < 1 then (Some (BadDepth maxDepth), st)
      else step ReadEdges
        (case read_edges faults 0 [] (select_edges (st_edges st) pid) of
           Inl e \<Rightarrow> (Some e, st)
         | Inr adj \<Rightarrow>
             step BeginTx (step DeletePrior (step Prepare
               (case foldl (bfs_source faults adj pid (nat maxDepth))
                       (Inr (delete_project pid (st_closure st), 0)) (ord (map fst adj)) of
                  Inl e \<Rightarrow> (Some e, st)
                | Inr (t, _) \<Rightarrow> step CloseStmt (step CommitTx (None, st\<lparr>st_closure := t\<rparr>)))))))"

definition ClosureRowCount :: "store \<Rightarrow> string \<Rightarrow> nat" where
  "ClosureRowCount st pid = length (filter (\<lambda>r. cr_project r = pid) (st_closure st))"

section \<open>Reading a trace from the closure\<close>

definition result_of :: "bool \<Rightarrow> closure_row \<Rightarrow> traceResult" where
  "result_of outbound r =
     \<lparr>tr_SymbolID = (if outbound then cr_to r else cr_from r), tr_Depth = cr_depth r, tr_ViaKind = cr_via r\<rparr>"

definition select_closure :: "store \<Rightarrow> string \<Rightarrow> string \<Rightarrow> int \<Rightarrow> bool \<Rightarrow> traceResult list" where
  "select_closure st pid startID maxDepth outbound =
     take 500 (sort_key (\<lambda>r. (tr_Depth r, tr_SymbolID r)) (map (result_of outbound)
       (filter (\<lambda>r. cr_project r = pid \<and> (if outbound then cr_from r else cr_to r) = startID \<and>
                    int (cr_depth r) \<le> maxDepth) (st_closure st))))"

definition emit_dir :: "faults \<Rightarrow> bool \<Rightarrow> 'a list \<Rightarrow> trace_err + 'a list" where
  "emit_dir faults outbound rows =
     (case faults (TraceQuery outbound) of
        Some e \<Rightarrow> Inl (StepErr (TraceQuery outbound) e)
      | None \<Rightarrow>
          (case faults (TraceEmit outbound) of
             Some e \<Rightarrow> Inl (StepErr (TraceEmit outbound) e)
           | None \<Rightarrow> Inr rows))"

definition dirs :: "string \<Rightarrow> bool list" where
  "dirs direction =
     (if direction = ''outbound'' \<or> direction = ''both'' then [True] else []) @
     (if direction = ''inbound'' \<or> direction = ''both'' then [False] else [])"

definition TraceViaClosure :: "faults \<Rightarrow> store \<Rightarrow> string \<Rightarrow> string \<Rightarrow> string \<Rightarrow> int \<Rightarrow>
    trace_err + traceResult list" where
  "TraceViaClosure faults st pid startID direction maxDepth =
     foldl (\<lambda>acc dir. case acc of
         Inl e \<Rightarrow> Inl e
       | Inr out \<Rightarrow>
           (case emit_dir faults dir (select_closure st pid startID maxDepth dir) of
              Inl e \<Rightarrow> Inl e | Inr rs \<Rightarrow> Inr (out @ rs)))
       (Inr []) (dirs direction)"

section \<open>The recursive traversal\<close>

text \<open>
  The recursive query: \<open>reach\<close> starts with the start node at depth 0 and every round joins the
  rows of the last one with the edges (UNION ALL keeps duplicates); grouping keeps each other
  node at its least depth and least kind.
\<close>

definition cte_edges :: "edge_row list \<Rightarrow> string \<Rightarrow> string list \<Rightarrow> edge_row list" where
  "cte_edges edges pid kinds =
     filter (\<lambda>r. er_kind r \<in> set kinds \<and> (pid = [] \<or> er_project r = pid)) edges"

definition cte_step :: "edge_row list \<Rightarrow> bool \<Rightarrow> (string \<times> nat \<times> string) list \<Rightarrow> (string \<times> nat \<times> string) list" where
  "cte_step es outbound rows =
     concat (map (\<lambda>(i, depth, _). map (\<lambda>e. (if outbound then er_to e else er_from e, Suc depth, er_kind e))
       (filter (\<lambda>e. (if outbound then er_from e else er_to e) = i) es)) rows)"

fun cte_reach :: "edge_row list \<Rightarrow> bool \<Rightarrow> nat \<Rightarrow> (string \<times> nat \<times> string) list \<Rightarrow> (string \<times> nat \<times> string) list" where
  "cte_reach es outbound 0 rows = rows"
| "cte_reach es outbound (Suc n) rows = rows @ cte_reach es outbound n (cte_step es outbound rows)"

definition min_list_by :: "('a \<Rightarrow> 'b :: linorder) \<Rightarrow> 'a list \<Rightarrow> 'b" where
  "min_list_by f xs = Min (f ` set xs)"

definition cte_rows :: "edge_row list \<Rightarrow> string \<Rightarrow> string list \<Rightarrow> string \<Rightarrow> nat \<Rightarrow> bool \<Rightarrow> traceResult list" where
  "cte_rows edges pid kinds startID maxDepth outbound =
     (let rows = filter (\<lambda>(i, d, _). i \<noteq> startID \<and> d > 0)
            (cte_reach (cte_edges edges pid kinds) outbound maxDepth [(startID, 0, [])]);
          group = (\<lambda>i. filter (\<lambda>(j, _). j = i) rows)
      in take 500 (sort_key tr_Depth (map (\<lambda>i.
           \<lparr>tr_SymbolID = i, tr_Depth = min_list_by (fst \<circ> snd) (group i),
            tr_ViaKind = min_list_by (snd \<circ> snd) (group i)\<rparr>) (remdups (map fst rows)))))"

definition keep_min :: "(string \<times> traceResult) list \<Rightarrow> traceResult \<Rightarrow> (string \<times> traceResult) list" where
  "keep_min byID r =
     (case map_of byID (tr_SymbolID r) of
        Some old \<Rightarrow> (if tr_Depth r < tr_Depth old then AList.update (tr_SymbolID r) r byID else byID)
      | None \<Rightarrow> AList.update (tr_SymbolID r) r byID)"

text \<open>
  Rows of equal depth come in an order SQL leaves open, which no caller sees short of the limit:
  the results are collected in a Go map, and \<open>ord\<close> is the order in which ranging over it yields them.
\<close>

definition traceViaCTE :: "faults \<Rightarrow> (traceResult list \<Rightarrow> traceResult list) \<Rightarrow> store \<Rightarrow> string \<Rightarrow> string \<Rightarrow> string \<Rightarrow> string list \<Rightarrow> int \<Rightarrow>
    trace_err + traceResult list" where
  "traceViaCTE faults ord st pid startID direction edgeKinds maxDepth =
     (if edgeKinds = [] then Inl NoKinds
      else case foldl (\<lambda>acc dir. case acc of
           Inl e \<Rightarrow> Inl e
         | Inr byID \<Rightarrow>
             (case emit_dir faults dir (cte_rows (st_edges st) pid edgeKinds startID (nat maxDepth) dir) of
                Inl e \<Rightarrow> Inl e | Inr rs \<Rightarrow> Inr (foldl keep_min byID rs)))
         (Inr []) (dirs direction) of
        Inl e \<Rightarrow> Inl e
      | Inr byID \<Rightarrow> Inr (ord (map snd byID)))"

section \<open>Traces with symbols\<close>

record 'sym hop =
  hop_Symbol :: 'sym
  hop_Depth :: nat
  hop_Via :: string
  hop_Risk :: string

definition RiskLabel :: "nat \<Rightarrow> string" where
  "RiskLabel depth =
     (if depth = 1 then ''CRITICAL'' else if depth = 2 then ''HIGH'' else if depth = 3 then ''MEDIUM'' else ''LOW'')"

text \<open>\<open>get\<close> is \<^verbatim>\<open>GetSymbolScoped\<close> or \<^verbatim>\<open>GetSymbol\<close>: a failed or empty lookup is \<^term>\<open>None\<close>.\<close>

definition materializeHops :: "(string \<Rightarrow> 'sym option) \<Rightarrow> traceResult list \<Rightarrow> bool \<Rightarrow> 'sym hop list" where
  "materializeHops get rs addRisk =
     take 500 (List.map_filter (\<lambda>r. map_option (\<lambda>sym.
       \<lparr>hop_Symbol = sym, hop_Depth = tr_Depth r, hop_Via = tr_ViaKind r,
        hop_Risk = (if addRisk then RiskLabel (tr_Depth r) else [])\<rparr>) (get (tr_SymbolID r))) rs)"

definition isDefaultTraceKinds :: "string list \<Rightarrow> bool" where
  "isDefaultTraceKinds kinds \<longleftrightarrow> length kinds = 3 \<and> list_all (\<lambda>k. k \<in> set trace_kinds) kinds"

definition TraceByID :: "faults \<Rightarrow> faults \<Rightarrow> (traceResult list \<Rightarrow> traceResult list) \<Rightarrow> string \<Rightarrow> store \<Rightarrow> (string \<Rightarrow> string \<Rightarrow> 'sym option) \<Rightarrow> string \<Rightarrow> string \<Rightarrow>
    string \<Rightarrow> int \<Rightarrow> bool \<Rightarrow> string list \<Rightarrow> trace_err + 'sym hop list" where
  "TraceByID fast slow ord env st get pid symbolID direction maxDepth addRisk edgeKinds =
     (let maxDepth = (if maxDepth \<le> 0 \<or> maxDepth > 5 then 3 else maxDepth);
          kinds = (if edgeKinds = [] then trace_kinds else edgeKinds);
          cte = (case traceViaCTE slow ord st pid symbolID direction kinds maxDepth of
                   Inl e \<Rightarrow> Inl e | Inr rs \<Rightarrow> Inr (materializeHops (get pid) rs addRisk))
      in if ClosureEnabled env \<and> pid \<noteq> [] \<and> isDefaultTraceKinds kinds \<and>
           fast CountRows = None \<and> ClosureRowCount st pid > 0
         then (case TraceViaClosure fast st pid symbolID direction maxDepth of
                 Inr rs \<Rightarrow> Inr (materializeHops (get pid) rs addRisk)
               | Inl _ \<Rightarrow> cte)
         else cte)"

text \<open>\<open>byName\<close> is \<^verbatim>\<open>GetSymbolsByName\<close>: an error or the ids of the symbols with the name, in order.\<close>

definition Trace :: "faults \<Rightarrow> faults \<Rightarrow> (traceResult list \<Rightarrow> traceResult list) \<Rightarrow> string \<Rightarrow> store \<Rightarrow>
    (string \<Rightarrow> string \<Rightarrow> 'sym option) \<Rightarrow> (string \<Rightarrow> string \<Rightarrow> string + string list) \<Rightarrow> string \<Rightarrow> string \<Rightarrow> string \<Rightarrow> int \<Rightarrow>
    bool \<Rightarrow> trace_err + 'sym hop list" where
  "Trace fast slow ord env st get byName pid name direction maxDepth addRisk =
     (case byName pid name of
        Inl e \<Rightarrow> Inl (StepErr FindStart e)
      | Inr [] \<Rightarrow> Inl (NotFound name)
      | Inr (i # _) \<Rightarrow> TraceByID fast slow ord env st get pid i direction maxDepth addRisk [])"

end
