(* ===== verification/Trace_Closure_Props.thy ===== *)
theory Trace_Closure_Props
  imports Trace_Closure
begin

text \<open>
  The closure table is exactly the set of pairs at distance 1 to the depth limit, each at its
  distance; a failed build leaves the table as it was; and reading it answers a trace as the
  recursive query does.  Distances are stated on the graph of the selected edges by powers of the
  edge relation.
\<close>

section \<open>Distances\<close>

definition dist :: "('a \<times> 'a) set \<Rightarrow> 'a \<Rightarrow> 'a \<Rightarrow> nat \<Rightarrow> bool" where
  "dist G s v n \<longleftrightarrow> (s, v) \<in> G ^^ n \<and> (\<forall>k < n. (s, v) \<notin> G ^^ k)"

lemma dist_unique: "dist G s v m \<Longrightarrow> dist G s v n \<Longrightarrow> m = n"
  unfolding dist_def by (metis linorder_neqE_nat)

lemma dist_0 [simp]: "dist G s v 0 \<longleftrightarrow> v = s"
  by (auto simp: dist_def)

lemma dist_exists: "(s, v) \<in> G ^^ n \<Longrightarrow> \<exists>k \<le> n. dist G s v k"
  unfolding dist_def
  by (rule exI [of _ "LEAST k. (s, v) \<in> G ^^ k"]) (metis Least_le LeastI not_less_Least)

lemma dist_Suc:
  "dist G s v (Suc n) \<longleftrightarrow> (\<exists>u. dist G s u n \<and> (u, v) \<in> G) \<and> (\<forall>k \<le> n. \<not> dist G s v k)" (is "_ \<longleftrightarrow> ?R")
proof
  assume d: "dist G s v (Suc n)"
  then obtain u where u: "(s, u) \<in> G ^^ n" "(u, v) \<in> G" by (auto simp: dist_def)
  then obtain k where k: "k \<le> n" "dist G s u k" using dist_exists by metis
  with u(2) have "(s, v) \<in> G ^^ Suc k" by (auto simp: dist_def)
  with d have "\<not> Suc k < Suc n" unfolding dist_def by blast
  with k have "dist G s u n" by simp
  moreover have "\<forall>k \<le> n. \<not> dist G s v k" using d dist_unique by fastforce
  ultimately show ?R using u(2) by blast
next
  assume r: ?R
  then have "(s, v) \<in> G ^^ Suc n" by (auto simp: dist_def)
  moreover have "(s, v) \<notin> G ^^ k" if "k < Suc n" for k
    using r dist_exists [of s v k G] that by (metis le_trans less_Suc_eq_le)
  ultimately show "dist G s v (Suc n)" by (simp add: dist_def)
qed

lemma dist_converse: "dist (G\<inverse>) s v n \<longleftrightarrow> dist G v s n"
proof -
  have "(G\<inverse>) ^^ n = (G ^^ n)\<inverse>" for n
    by (induction n) (simp_all add: converse_relcomp [symmetric] relpow_commute)
  then show ?thesis by (auto simp: dist_def)
qed

section \<open>Breadth-first search\<close>

definition edges_of :: "adjacency \<Rightarrow> (string \<times> string) set" where
  "edges_of adj = {(u, v). v \<in> fst ` set (adj_get adj u)}"

text \<open>
  What the search has recorded for a source: beside the rows it started with, one row per seen node
  other than the source, at the depth it was seen, through an edge from a node one step nearer.
\<close>

definition recorded :: "adjacency \<Rightarrow> string \<Rightarrow> string \<Rightarrow> (string \<rightharpoonup> nat) \<Rightarrow> closure_row set \<Rightarrow> bool" where
  "recorded adj pid from seen N \<longleftrightarrow>
     (\<forall>r \<in> N. cr_project r = pid \<and> cr_from r = from \<and> 0 < cr_depth r \<and> seen (cr_to r) = Some (cr_depth r) \<and>
        (\<exists>u. seen u = Some (cr_depth r - 1) \<and> (cr_to r, cr_via r) \<in> set (adj_get adj u))) \<and>
     (\<forall>v k. seen v = Some k \<and> 0 < k \<longrightarrow> (\<exists>r \<in> N. cr_to r = v)) \<and>
     inj_on cr_to N"

definition fresh_source :: "string \<Rightarrow> string \<Rightarrow> closure_row list \<Rightarrow> bool" where
  "fresh_source pid from t \<longleftrightarrow> (\<forall>r \<in> set t. cr_project r = pid \<longrightarrow> cr_from r \<noteq> from)"

lemma tx_insert_Inl [simp]: "tx_insert faults r (Inl e) = Inl e"
  by (simp add: tx_insert_def)

lemma visit_edge_simps:
  "seen to \<noteq> None \<Longrightarrow> visit_edge faults pid from d (seen, nx, tx) (to, kind) = (seen, nx, tx)"
  "seen to = None \<Longrightarrow> visit_edge faults pid from d (seen, nx, tx) (to, kind) =
     (seen(to \<mapsto> d), nx @ [(to, kind)],
      tx_insert faults \<lparr>cr_project = pid, cr_from = from, cr_to = to, cr_depth = d, cr_via = kind\<rparr> tx)"
  by (simp_all add: visit_edge_def)

lemma visit_edges_Inl:
  "snd (snd (foldl (visit_edge faults pid from d) (seen, nx, Inl e) es)) = Inl e"
proof (induction es arbitrary: seen nx)
  case (Cons e es)
  then show ?case by (cases e; cases "seen (fst e) = None") (simp_all add: visit_edge_simps)
qed simp

lemma recorded_insert:
  assumes "recorded adj pid from seen N" "seen to = None" "seen u = Some d" "(to, kind) \<in> set (adj_get adj u)"
    and "r = \<lparr>cr_project = pid, cr_from = from, cr_to = to, cr_depth = Suc d, cr_via = kind\<rparr>"
  shows "recorded adj pid from (seen(to \<mapsto> Suc d)) (insert r N)"
proof -
  have new: "cr_to x \<noteq> to" if "x \<in> N" for x
    using assms(1,2) that by (auto simp: recorded_def)
  have grow: "\<exists>w. (seen(to \<mapsto> Suc d)) w = Some k \<and> P w" if "\<exists>w. seen w = Some k \<and> P w" for k P
    using that assms(2) by (metis fun_upd_other option.distinct(1))
  show ?thesis
    unfolding recorded_def
  proof (intro conjI ballI)
    fix x assume "x \<in> insert r N"
    then show "cr_project x = pid" "cr_from x = from" "0 < cr_depth x"
      "(seen(to \<mapsto> Suc d)) (cr_to x) = Some (cr_depth x)"
      using assms(1,5) new by (auto simp: recorded_def)
    show "\<exists>w. (seen(to \<mapsto> Suc d)) w = Some (cr_depth x - 1) \<and> (cr_to x, cr_via x) \<in> set (adj_get adj w)"
      using \<open>x \<in> insert r N\<close> assms(1,3,4,5) by (intro grow) (auto simp: recorded_def)
  next
    show "\<forall>v k. (seen(to \<mapsto> Suc d)) v = Some k \<and> 0 < k \<longrightarrow> (\<exists>r \<in> insert r N. cr_to r = v)"
      using assms(1,5) by (auto simp: recorded_def)
    show "inj_on cr_to (insert r N)"
      using assms(1,5) new by (auto simp: recorded_def inj_on_def)
  qed
qed

lemma visit_new:
  assumes "foldl (visit_edge faults pid from (Suc d)) (seen, nx, Inr (t, n)) ((to, kind) # es) = (seen', nx', Inr (t', n'))"
    and "seen to = None" and "set t = set t0 \<union> N" and "recorded adj pid from seen N" and "fresh_source pid from t0"
  shows "foldl (visit_edge faults pid from (Suc d)) (seen(to \<mapsto> Suc d), nx @ [(to, kind)],
      Inr (t @ [\<lparr>cr_project = pid, cr_from = from, cr_to = to, cr_depth = Suc d, cr_via = kind\<rparr>], Suc n)) es =
    (seen', nx', Inr (t', n'))"
proof -
  have "\<not> list_ex (\<lambda>x. cr_project x = pid \<and> cr_from x = from \<and> cr_to x = to) t"
    using assms(2-5) by (auto simp: list_ex_iff fresh_source_def recorded_def)
  moreover have "faults (InsertRow n) = None"
  proof (rule ccontr)
    assume "faults (InsertRow n) \<noteq> None"
    then obtain msg where "faults (InsertRow n) = Some msg" by auto
    with assms(1,2) visit_edges_Inl [of faults pid "from" "Suc d" "seen(to \<mapsto> Suc d)" "nx @ [(to, kind)]"]
    show False by (simp add: visit_edge_simps(2) tx_insert_def) (metis snd_conv sum.distinct(1))
  qed
  ultimately show ?thesis
    using assms(1,2) by (simp add: visit_edge_simps(2) tx_insert_def insert_or_ignore_def)
qed

lemma visit_edges:
  assumes "foldl (visit_edge faults pid from (Suc d)) (seen, nx, Inr (t, n)) es = (seen', nx', Inr (t', n'))"
    and "\<And>e. e \<in> set es \<Longrightarrow> \<exists>u. seen u = Some d \<and> e \<in> set (adj_get adj u)"
    and "set t = set t0 \<union> N" and "recorded adj pid from seen N" and "fresh_source pid from t0"
  shows "seen' = (\<lambda>v. if seen v = None \<and> v \<in> fst ` set es then Some (Suc d) else seen v) \<and>
    fst ` set nx' = fst ` set nx \<union> (fst ` set es - dom seen) \<and>
    (\<exists>N'. set t' = set t0 \<union> N' \<and> recorded adj pid from seen' N')"
  using assms(1-4)
proof (induction es arbitrary: seen nx t n N)
  case Nil
  then show ?case by (auto simp: fun_eq_iff)
next
  case (Cons e es)
  obtain to kind where e: "e = (to, kind)" by (cases e)
  show ?case
  proof (cases "seen to = None")
    case False
    then have "foldl (visit_edge faults pid from (Suc d)) (seen, nx, Inr (t, n)) es = (seen', nx', Inr (t', n'))"
      using Cons.prems(1) e by (simp add: visit_edge_simps(1))
    note IH = Cons.IH [OF this Cons.prems(2) [OF list.set_intros(2)] Cons.prems(3,4)]
    have seen: "(\<lambda>v. if seen v = None \<and> v \<in> fst ` set (e # es) then Some (Suc d) else seen v) =
      (\<lambda>v. if seen v = None \<and> v \<in> fst ` set es then Some (Suc d) else seen v)"
      using False e by (intro ext) auto
    have nodes: "fst ` set (e # es) - dom seen = fst ` set es - dom seen" using False e by auto
    show ?thesis unfolding seen nodes by (rule IH)
  next
    case True
    let ?r = "\<lparr>cr_project = pid, cr_from = from, cr_to = to, cr_depth = Suc d, cr_via = kind\<rparr>"
    obtain u where u: "seen u = Some d" "(to, kind) \<in> set (adj_get adj u)" using Cons.prems(2) e by auto
    have rest: "foldl (visit_edge faults pid from (Suc d)) (seen(to \<mapsto> Suc d), nx @ [(to, kind)], Inr (t @ [?r], Suc n)) es =
        (seen', nx', Inr (t', n'))"
      using Cons.prems(1,3,4) assms(5) True e by (intro visit_new) simp_all
    have edges: "\<exists>w. (seen(to \<mapsto> Suc d)) w = Some d \<and> e' \<in> set (adj_get adj w)" if "e' \<in> set es" for e'
      using Cons.prems(2) [of e'] that True by (metis fun_upd_other list.set_intros(2) option.distinct(1))
    have "set (t @ [?r]) = set t0 \<union> insert ?r N" using Cons.prems(3) by auto
    note IH = Cons.IH [OF rest edges this recorded_insert [OF Cons.prems(4) True u refl]]
    have seen: "(\<lambda>v. if seen v = None \<and> v \<in> fst ` set (e # es) then Some (Suc d) else seen v) =
      (\<lambda>v. if (seen(to \<mapsto> Suc d)) v = None \<and> v \<in> fst ` set es then Some (Suc d) else (seen(to \<mapsto> Suc d)) v)"
      using True e by (intro ext) simp
    have nodes: "fst ` set nx \<union> (fst ` set (e # es) - dom seen) =
        fst ` set (nx @ [(to, kind)]) \<union> (fst ` set es - dom (seen(to \<mapsto> Suc d)))"
      using True e by auto
    show ?thesis unfolding seen nodes by (rule IH)
  qed
qed

section \<open>Levels and sources\<close>

lemma visit_nodes:
  "foldl (visit_node faults adj pid from d) st us =
     foldl (visit_edge faults pid from d) st (concat (map (\<lambda>u. adj_get adj (fst u)) us))"
  by (induction us arbitrary: st) (simp_all add: visit_node_def)

definition seen_to :: "adjacency \<Rightarrow> string \<Rightarrow> nat \<Rightarrow> (string \<rightharpoonup> nat) \<Rightarrow> bool" where
  "seen_to adj from d seen \<longleftrightarrow> (\<forall>v k. seen v = Some k \<longleftrightarrow> k \<le> d \<and> dist (edges_of adj) from v k)"

lemma seen_to_None: "seen_to adj from d seen \<Longrightarrow> seen v = None \<longleftrightarrow> (\<forall>k \<le> d. \<not> dist (edges_of adj) from v k)"
  unfolding seen_to_def by (metis not_None_eq)

lemma level_targets:
  assumes "fst ` set frontier = {v. dist (edges_of adj) from v d}"
  shows "fst ` set (concat (map (\<lambda>u. adj_get adj (fst u)) frontier)) =
    {v. \<exists>u. dist (edges_of adj) from u d \<and> (u, v) \<in> edges_of adj}"
proof -
  have "fst ` set (concat (map (\<lambda>u. adj_get adj (fst u)) frontier)) =
      (\<Union>u \<in> fst ` set frontier. fst ` set (adj_get adj u))"
    by (simp add: image_UN)
  then show ?thesis unfolding assms by (simp add: edges_of_def set_eq_iff)
qed

lemma level_step:
  assumes "seen_to adj from d seen" and "fst ` set frontier = {v. dist (edges_of adj) from v d}"
    and "foldl (visit_node faults adj pid from (Suc d)) (seen, [], Inr (t, n)) frontier = (seen', nx', Inr (t', n'))"
    and "set t = set t0 \<union> N" "recorded adj pid from seen N" "fresh_source pid from t0"
  shows "seen_to adj from (Suc d) seen' \<and> fst ` set nx' = {v. dist (edges_of adj) from v (Suc d)} \<and>
    (\<exists>N'. set t' = set t0 \<union> N' \<and> recorded adj pid from seen' N')"
proof -
  let ?es = "concat (map (\<lambda>u. adj_get adj (fst u)) frontier)"
  have src: "\<exists>u. seen u = Some d \<and> e \<in> set (adj_get adj u)" if "e \<in> set ?es" for e
    using that assms(1,2) by (fastforce simp: seen_to_def)
  note level = visit_edges [OF assms(3) [unfolded visit_nodes] src assms(4-6)]
  have new: "v \<in> fst ` set ?es \<and> seen v = None \<longleftrightarrow> dist (edges_of adj) from v (Suc d)" for v
    unfolding level_targets [OF assms(2)] seen_to_None [OF assms(1)] dist_Suc by blast
  have seen': "seen' v = (if seen v = None \<and> v \<in> fst ` set ?es then Some (Suc d) else seen v)" for v
    using level by simp
  have "seen' v = Some k \<longleftrightarrow> k \<le> Suc d \<and> dist (edges_of adj) from v k" for v k
  proof (cases "seen v = None \<and> v \<in> fst ` set ?es")
    case True
    then have "dist (edges_of adj) from v (Suc d)" "seen' v = Some (Suc d)" using new seen' by metis+
    then show ?thesis using dist_unique by (metis option.inject order_refl)
  next
    case False
    then have "\<not> dist (edges_of adj) from v (Suc d)" "seen' v = seen v" using new seen' by metis+
    then show ?thesis using assms(1) unfolding seen_to_def by (metis le_Suc_eq)
  qed
  moreover have "fst ` set nx' = {v. dist (edges_of adj) from v (Suc d)}"
    using level new by (simp add: set_eq_iff dom_def)
  moreover have "\<exists>N'. set t' = set t0 \<union> N' \<and> recorded adj pid from seen' N'" using level by blast
  ultimately show ?thesis unfolding seen_to_def by blast
qed

lemma dist_prefix: "dist G s v (n + k) \<Longrightarrow> \<exists>u. dist G s u n"
  by (induction k arbitrary: v) (auto simp: dist_Suc)

lemma visit_nodes_Inl:
  "snd (snd (foldl (visit_node faults adj pid from d) (seen, nx, Inl e) us)) = Inl e"
  unfolding visit_nodes by (rule visit_edges_Inl)

lemma levels_Inl: "bfs_levels faults adj pid from d n seen fr (Inl e) = Inl e"
proof (induction n arbitrary: d seen fr)
  case (Suc n)
  then show ?case using visit_nodes_Inl [of faults adj pid "from" d seen "[]" e fr]
    by (auto simp: Let_def split: prod.split)
qed simp

lemma bfs_levels_ok:
  assumes "bfs_levels faults adj pid from (Suc d) left seen frontier (Inr (t, n)) = Inr (t', n')"
    and "seen_to adj from d seen" and "fst ` set frontier = {v. dist (edges_of adj) from v d}"
    and "set t = set t0 \<union> N" "recorded adj pid from seen N" and fresh: "fresh_source pid from t0"
  shows "\<exists>seen' N'. seen_to adj from (d + left) seen' \<and> set t' = set t0 \<union> N' \<and> recorded adj pid from seen' N'"
  using assms(1-5)
proof (induction left arbitrary: d seen frontier t n N)
  case 0
  then show ?case by auto
next
  case (Suc left)
  show ?case
  proof (cases "frontier = []")
    case True
    then have "\<not> dist (edges_of adj) from v (d + k)" for v k
      using Suc.prems(3) dist_prefix [of "edges_of adj" "from" v d k] by auto
    then have "\<not> dist (edges_of adj) from v k" if "d \<le> k" for v k using that le_Suc_ex by blast
    then have "seen_to adj from (d + Suc left) seen"
      using Suc.prems(2) unfolding seen_to_def by (metis le_cases le_add1 order_trans)
    with True Suc.prems show ?thesis by auto
  next
    case False
    obtain seen1 nx1 tx1 where lvl: "foldl (visit_node faults adj pid from (Suc d)) (seen, [], Inr (t, n)) frontier =
        (seen1, nx1, tx1)" by (rule prod_cases3)
    with Suc.prems(1) False have more: "bfs_levels faults adj pid from (Suc (Suc d)) left seen1 nx1 tx1 = Inr (t', n')"
      by simp
    then obtain t1 n1 where tx1: "tx1 = Inr (t1, n1)"
      by (cases tx1) (auto simp: levels_Inl)
    obtain N1 where step: "seen_to adj from (Suc d) seen1" "fst ` set nx1 = {v. dist (edges_of adj) from v (Suc d)}"
      "set t1 = set t0 \<union> N1" "recorded adj pid from seen1 N1"
      using level_step [OF Suc.prems(2,3) lvl [unfolded tx1] Suc.prems(4,5) fresh] by blast
    from Suc.IH [OF more [unfolded tx1] step] show ?thesis by simp
  qed
qed

text \<open>What one source contributes: a row for every node at distance 1 to the limit.\<close>

definition source_rows :: "adjacency \<Rightarrow> string \<Rightarrow> nat \<Rightarrow> string \<Rightarrow> closure_row set \<Rightarrow> bool" where
  "source_rows adj pid D from N \<longleftrightarrow>
     (\<forall>r \<in> N. cr_project r = pid \<and> cr_from r = from \<and> 0 < cr_depth r \<and> cr_depth r \<le> D \<and>
        dist (edges_of adj) from (cr_to r) (cr_depth r) \<and>
        (\<exists>u. dist (edges_of adj) from u (cr_depth r - 1) \<and> (cr_to r, cr_via r) \<in> set (adj_get adj u))) \<and>
     (\<forall>v k. 0 < k \<and> k \<le> D \<and> dist (edges_of adj) from v k \<longrightarrow> (\<exists>r \<in> N. cr_to r = v)) \<and>
     inj_on cr_to N"

lemma bfs_source_ok:
  assumes "bfs_source faults adj pid D (Inr (t, n)) from = Inr (t', n')" and "fresh_source pid from t"
  shows "\<exists>N. set t' = set t \<union> N \<and> source_rows adj pid D from N"
proof -
  have "seen_to adj from 0 [from \<mapsto> 0]" by (auto simp: seen_to_def)
  moreover have "fst ` set [(from, [])] = {v. dist (edges_of adj) from v 0}" by simp
  moreover have "recorded adj pid from [from \<mapsto> 0] {}" by (auto simp: recorded_def)
  ultimately obtain seen' N' where *: "seen_to adj from D seen'" "set t' = set t \<union> N'" "recorded adj pid from seen' N'"
    using bfs_levels_ok [of faults adj pid "from" 0 D "[from \<mapsto> 0]" "[(from, [])]" t n t' n' t "{}"] assms
    by (auto simp: bfs_source_def)
  then have "source_rows adj pid D from N'"
    unfolding source_rows_def recorded_def seen_to_def by metis
  with * show ?thesis by blast
qed

lemma bfs_sources_Inl: "foldl (bfs_source faults adj pid D) (Inl e) fs = Inl e"
  by (induction fs) (simp_all add: bfs_source_def levels_Inl)

lemma bfs_sources_ok:
  assumes "foldl (bfs_source faults adj pid D) (Inr (t, n)) fs = Inr (t', n')"
    and "distinct fs" and "\<And>f. f \<in> set fs \<Longrightarrow> fresh_source pid f t"
  shows "\<exists>N. set t' = set t \<union> (\<Union>f \<in> set fs. N f) \<and> (\<forall>f \<in> set fs. source_rows adj pid D f (N f))"
  using assms
proof (induction fs arbitrary: t n)
  case (Cons f fs)
  obtain t1 n1 where one: "bfs_source faults adj pid D (Inr (t, n)) f = Inr (t1, n1)"
    using Cons.prems(1) by (cases "bfs_source faults adj pid D (Inr (t, n)) f") (auto simp: bfs_sources_Inl)
  obtain M where M: "set t1 = set t \<union> M" "source_rows adj pid D f M"
    using bfs_source_ok [OF one] Cons.prems(3) by auto
  have fresh: "fresh_source pid g t1" if "g \<in> set fs" for g
    using M Cons.prems(2) Cons.prems(3) [of g] that by (auto simp: fresh_source_def source_rows_def)
  obtain N where N: "set t' = set t1 \<union> (\<Union>g \<in> set fs. N g)" "\<forall>g \<in> set fs. source_rows adj pid D g (N g)"
    using Cons.IH [OF _ _ fresh, of n1] Cons.prems(1,2) one by auto
  have "set t' = set t \<union> (\<Union>g \<in> set (f # fs). (N(f := M)) g)"
    using N(1) M(1) Cons.prems(2) by auto
  moreover have "\<forall>g \<in> set (f # fs). source_rows adj pid D g ((N(f := M)) g)"
    using N(2) M(2) Cons.prems(2) by auto
  ultimately show ?case by blast
qed simp

lemma adj_get_add:
  "set (adj_get (add_adj r adj) u) =
     set (adj_get adj u) \<union> (if er_from r = u then {(er_to r, er_kind r)} else {})"
  by (auto simp: add_adj_def adj_get_def update_conv)

definition build_adj :: "edge_row list \<Rightarrow> adjacency" where
  "build_adj rows = foldl (\<lambda>adj r. add_adj r adj) [] rows"

lemma read_edges_build:
  "read_edges faults i adj rows = Inr adj' \<Longrightarrow> adj' = foldl (\<lambda>adj r. add_adj r adj) adj rows"
  by (induction rows arbitrary: i adj) (auto split: option.splits)

lemma build_adj_get:
  "set (adj_get (build_adj rows) u) = (\<lambda>r. (er_to r, er_kind r)) ` {r \<in> set rows. er_from r = u}"
  unfolding build_adj_def
proof (induction rows rule: rev_induct)
  case (snoc r rows)
  then show ?case by (auto simp: adj_get_add)
qed (simp add: adj_get_def)

lemma build_adj_keys:
  "fst ` set (build_adj rows) = er_from ` set rows \<and> distinct (map fst (build_adj rows))"
  unfolding build_adj_def
proof (induction rows rule: rev_induct)
  case (snoc r rows)
  then show ?case by (simp add: add_adj_def dom_update distinct_update)
qed simp

definition project_graph :: "edge_row list \<Rightarrow> string \<Rightarrow> (string \<times> string) set" where
  "project_graph edges pid = (\<lambda>r. (er_from r, er_to r)) ` set (select_edges edges pid)"

lemma edges_of_build: "edges_of (build_adj (select_edges edges pid)) = project_graph edges pid"
  unfolding edges_of_def build_adj_get project_graph_def by (auto simp: image_iff)

section \<open>The closure table\<close>

lemma BuildClosure_success:
  assumes "BuildClosure faults ord st pid D = (None, st')"
  obtains t n where "1 \<le> D" "st' = st\<lparr>st_closure := t\<rparr>"
    "foldl (bfs_source faults (build_adj (select_edges (st_edges st) pid)) pid (nat D))
       (Inr (delete_project pid (st_closure st), 0))
       (ord (map fst (build_adj (select_edges (st_edges st) pid)))) = Inr (t, n)"
proof -
  obtain adj where adj: "read_edges faults 0 [] (select_edges (st_edges st) pid) = Inr adj"
    using assms by (auto simp: BuildClosure_def Let_def split: if_splits option.splits sum.splits)
  then have "adj = build_adj (select_edges (st_edges st) pid)"
    unfolding build_adj_def by (rule read_edges_build)
  with assms adj that show ?thesis
    by (auto simp: BuildClosure_def Let_def split: if_splits option.splits sum.splits)
qed

text \<open>The table a build must leave: the graph's pairs at distance 1 to D, and the rows of other projects.\<close>

definition closure_of :: "edge_row list \<Rightarrow> string \<Rightarrow> int \<Rightarrow> closure_row list \<Rightarrow> bool" where
  "closure_of edges pid D t \<longleftrightarrow>
     (\<forall>a b d. (\<exists>r \<in> set t. cr_project r = pid \<and> cr_from r = a \<and> cr_to r = b \<and> cr_depth r = d) \<longleftrightarrow>
        0 < d \<and> int d \<le> D \<and> dist (project_graph edges pid) a b d)"

definition via_ok :: "edge_row list \<Rightarrow> string \<Rightarrow> closure_row \<Rightarrow> bool" where
  "via_ok edges pid r \<longleftrightarrow>
     (\<exists>e \<in> set (select_edges edges pid). er_to e = cr_to r \<and> er_kind e = cr_via r \<and>
        dist (project_graph edges pid) (cr_from r) (er_from e) (cr_depth r - 1))"

lemma dist_source: "dist (project_graph edges pid) a b d \<Longrightarrow> 0 < d \<Longrightarrow> a \<in> er_from ` set (select_edges edges pid)"
proof (cases d)
  case (Suc k)
  assume "dist (project_graph edges pid) a b d"
  then obtain c where "(a, c) \<in> project_graph edges pid"
    using relpow_Suc_D2 Suc unfolding dist_def by metis
  then show ?thesis by (auto simp: project_graph_def)
qed simp

lemma sources_closure:
  assumes rows: "set t = set t0 \<union> (\<Union>f \<in> fs. N f)"
    and src: "\<forall>f \<in> fs. source_rows (build_adj (select_edges edges pid)) pid (nat D) f (N f)"
    and fs: "fs = er_from ` set (select_edges edges pid)"
    and t0: "\<forall>r \<in> set t0. cr_project r \<noteq> pid" and D: "1 \<le> D"
  shows "closure_of edges pid D t \<and> (\<forall>r \<in> set t. cr_project r = pid \<longrightarrow> via_ok edges pid r)"
proof
  let ?G = "project_graph edges pid"
  have own: "\<exists>f \<in> fs. r \<in> N f" if "r \<in> set t" "cr_project r = pid" for r using rows t0 that by auto
  have N: "cr_project r = pid" "cr_from r = f" "0 < cr_depth r" "int (cr_depth r) \<le> D" "dist ?G f (cr_to r) (cr_depth r)"
    if "f \<in> fs" "r \<in> N f" for f r
    using src D that unfolding source_rows_def edges_of_build by (auto simp: le_nat_iff)
  have via: "via_ok edges pid r" if r: "f \<in> fs" "r \<in> N f" for f r
  proof -
    obtain u where u: "dist ?G f u (cr_depth r - 1)"
      "(cr_to r, cr_via r) \<in> (\<lambda>r. (er_to r, er_kind r)) ` {r \<in> set (select_edges edges pid). er_from r = u}"
      using src r unfolding source_rows_def edges_of_build build_adj_get by blast
    then show ?thesis using N(2) [OF r] unfolding via_ok_def by auto
  qed
  show "\<forall>r \<in> set t. cr_project r = pid \<longrightarrow> via_ok edges pid r" using own via by blast
  show "closure_of edges pid D t"
    unfolding closure_of_def
  proof (intro allI iffI)
    fix a b d
    assume "\<exists>r \<in> set t. cr_project r = pid \<and> cr_from r = a \<and> cr_to r = b \<and> cr_depth r = d"
    then show "0 < d \<and> int d \<le> D \<and> dist ?G a b d" using own N by metis
  next
    fix a b d
    assume d: "0 < d \<and> int d \<le> D \<and> dist ?G a b d"
    then have a: "a \<in> fs" using dist_source fs by metis
    have "d \<le> nat D" using d by linarith
    with a d src obtain r where r: "r \<in> N a" "cr_to r = b"
      unfolding source_rows_def edges_of_build by blast
    then have "cr_depth r = d" using N(5) [OF a r(1)] d dist_unique by metis
    with r N [OF a r(1)] a rows show "\<exists>r \<in> set t. cr_project r = pid \<and> cr_from r = a \<and> cr_to r = b \<and> cr_depth r = d"
      by blast
  qed
qed

lemma BuildClosure_table:
  assumes "BuildClosure faults ord st pid D = (None, st')" and "\<And>ks. mset (ord ks) = mset ks"
  shows "closure_of (st_edges st) pid D (st_closure st') \<and>
    (\<forall>r \<in> set (st_closure st'). cr_project r = pid \<longrightarrow> via_ok (st_edges st) pid r) \<and>
    {r \<in> set (st_closure st'). cr_project r \<noteq> pid} = {r \<in> set (st_closure st). cr_project r \<noteq> pid} \<and>
    st_edges st' = st_edges st"
proof -
  let ?adj = "build_adj (select_edges (st_edges st) pid)" and ?t0 = "delete_project pid (st_closure st)"
  obtain t n where st': "1 \<le> D" "st' = st\<lparr>st_closure := t\<rparr>"
    and run: "foldl (bfs_source faults ?adj pid (nat D)) (Inr (?t0, 0)) (ord (map fst ?adj)) = Inr (t, n)"
    using BuildClosure_success [OF assms(1)] by blast
  have perm: "distinct (ord (map fst ?adj))" "set (ord (map fst ?adj)) = er_from ` set (select_edges (st_edges st) pid)"
    using build_adj_keys assms(2) by (metis mset_eq_imp_distinct_iff, metis build_adj_keys set_map set_mset_mset)
  have fresh: "fresh_source pid f ?t0" for f by (simp add: fresh_source_def delete_project_def)
  obtain N where N: "set t = set ?t0 \<union> (\<Union>f \<in> set (ord (map fst ?adj)). N f)"
    "\<forall>f \<in> set (ord (map fst ?adj)). source_rows ?adj pid (nat D) f (N f)"
    using bfs_sources_ok [OF run perm(1) fresh] by blast
  have "\<forall>r \<in> set ?t0. cr_project r \<noteq> pid" by (simp add: delete_project_def)
  note cl = sources_closure [OF N perm(2) this st'(1)]
  have "{r \<in> set t. cr_project r \<noteq> pid} = {r \<in> set (st_closure st). cr_project r \<noteq> pid}"
    using N by (auto simp: delete_project_def source_rows_def)
  with cl show ?thesis by (simp add: st'(2))
qed

text \<open>
  C2. A successful build leaves exactly the pairs of symbols connected by a shortest path of 1 to
  D call edges of the project, each with the length of that path and with the kind of the last
  edge of one; the rows of other projects and the edges are untouched.
\<close>

theorem BuildClosure_exact:
  assumes "BuildClosure faults ord st pid D = (None, st')" and "\<And>ks. mset (ord ks) = mset ks"
  shows "closure_of (st_edges st) pid D (st_closure st') \<and>
    (\<forall>r \<in> set (st_closure st'). cr_project r = pid \<longrightarrow> via_ok (st_edges st) pid r) \<and>
    {r \<in> set (st_closure st'). cr_project r \<noteq> pid} = {r \<in> set (st_closure st). cr_project r \<noteq> pid} \<and>
    st_edges st' = st_edges st"
  by (rule BuildClosure_table [OF assms])

definition call_edge :: "string \<Rightarrow> string \<Rightarrow> edge_row" where
  "call_edge a b = \<lparr>er_project = ''p'', er_from = a, er_to = b, er_kind = ''CALLS''\<rparr>"

definition chain_store :: store where
  "chain_store = \<lparr>st_edges = [call_edge ''a'' ''b'', call_edge ''b'' ''c'', call_edge ''a'' ''c''], st_closure = []\<rparr>"

definition chain_closure :: store where
  "chain_closure = snd (BuildClosure (\<lambda>_. None) id chain_store ''p'' 2)"

lemma chain_built: "BuildClosure (\<lambda>_. None) id chain_store ''p'' 2 = (None, chain_closure)"
proof -
  have "fst (BuildClosure (\<lambda>_. None) id chain_store ''p'' 2) = None" by code_simp
  then show ?thesis unfolding chain_closure_def by (metis prod.collapse)
qed

theorem BuildClosure_exact_witness:
  "closure_of (st_edges chain_store) ''p'' 2 (st_closure chain_closure) \<and> length (st_closure chain_closure) = 3"
proof -
  have "length (st_closure chain_closure) = 3" by code_simp
  with BuildClosure_exact [OF chain_built] show ?thesis by simp
qed

text \<open>With no fault every step of a build succeeds.\<close>

lemma visit_edges_Inr:
  "\<exists>x. snd (snd (foldl (visit_edge (\<lambda>_. None) pid from d) (seen, nx, Inr y) es)) = Inr x"
proof (induction es arbitrary: seen nx y)
  case (Cons e es)
  obtain to kind where "e = (to, kind)" by (cases e)
  moreover obtain t n where "y = (t, n)" by (cases y)
  ultimately show ?case
    using Cons by (cases "seen to = None") (simp_all add: visit_edge_simps tx_insert_def)
qed simp

lemma levels_Inr: "\<exists>x. bfs_levels (\<lambda>_. None) adj pid from d n seen fr (Inr y) = Inr x"
proof (induction n arbitrary: d seen fr y)
  case (Suc n)
  obtain seen' nx' tx' where lvl: "foldl (visit_node (\<lambda>_. None) adj pid from d) (seen, [], Inr y) fr = (seen', nx', tx')"
    by (rule prod_cases3)
  moreover have "\<exists>x. tx' = Inr x"
    using visit_edges_Inr [of pid "from" d seen "[]" y] lvl unfolding visit_nodes by (metis snd_conv)
  ultimately show ?case using Suc by auto
qed simp

lemma sources_Inr: "\<exists>x. foldl (bfs_source (\<lambda>_. None) adj pid D) (Inr y) fs = Inr x"
proof (induction fs arbitrary: y)
  case (Cons f fs)
  obtain x where "bfs_source (\<lambda>_. None) adj pid D (Inr y) f = Inr x"
    using levels_Inr unfolding bfs_source_def by blast
  with Cons show ?case by simp
qed simp

lemma read_edges_Inr: "\<exists>adj'. read_edges (\<lambda>_. None) i adj rows = Inr adj'"
  by (induction rows arbitrary: i adj) simp_all

text \<open>
  A build that fails, at any database step and for any reason, leaves the store as it was; a
  depth below 1 always fails; and with no database fault and a depth of at least 1 it succeeds.
\<close>

theorem BuildClosure_atomic:
  "(fst (BuildClosure faults ord st pid D) = None \<or> snd (BuildClosure faults ord st pid D) = st) \<and>
   fst (BuildClosure (\<lambda>_. None) ord st pid D) = (if D < 1 then Some (BadDepth D) else None)"
proof
  show "fst (BuildClosure faults ord st pid D) = None \<or> snd (BuildClosure faults ord st pid D) = st"
    by (simp add: BuildClosure_def Let_def split: option.split sum.split prod.split)
  obtain adj where adj: "read_edges (\<lambda>_. None) 0 [] (select_edges (st_edges st) pid) = Inr adj"
    using read_edges_Inr by blast
  moreover obtain x where "foldl (bfs_source (\<lambda>_. None) adj pid (nat D))
      (Inr (delete_project pid (st_closure st), 0)) (ord (map fst adj)) = Inr x"
    using sources_Inr by blast
  ultimately show "fst (BuildClosure (\<lambda>_. None) ord st pid D) = (if D < 1 then Some (BadDepth D) else None)"
    by (cases x) (simp add: BuildClosure_def)
qed

end
