(* ===== verification/Trace_Paths.thy ===== *)
theory Trace_Paths
  imports Trace_Closure_Props
begin

text \<open>
  The two ways to answer a trace agree: reading the closure table and running the recursive query
  give the same symbols at the same depths, in either direction, as long as neither hits the row
  limit.
\<close>

lemma pair_set_eqI: "(\<And>i k. (i, k) \<in> A \<longleftrightarrow> (i, k) \<in> B) \<Longrightarrow> A = B"
  by auto

section \<open>The recursive query\<close>

definition cte_graph :: "edge_row list \<Rightarrow> bool \<Rightarrow> (string \<times> string) set" where
  "cte_graph es outbound =
     (\<lambda>e. (if outbound then er_from e else er_to e, if outbound then er_to e else er_from e)) ` set es"

definition at_depth :: "(string \<times> nat \<times> string) list \<Rightarrow> (string \<times> nat) set" where
  "at_depth rows = {(i, d). \<exists>v. (i, d, v) \<in> set rows}"

lemma at_depth_append: "at_depth (a @ b) = at_depth a \<union> at_depth b"
  by (auto simp: at_depth_def)

lemma cte_step_mem:
  "(j, m, v) \<in> set (cte_step es outbound rows) \<longleftrightarrow>
     (\<exists>i k w e. (i, k, w) \<in> set rows \<and> e \<in> set es \<and> (if outbound then er_from e else er_to e) = i \<and>
        j = (if outbound then er_to e else er_from e) \<and> m = Suc k \<and> v = er_kind e)"
  unfolding cte_step_def by (cases outbound) (fastforce split: prod.splits)+

lemma cte_step_depth:
  assumes "at_depth rows = A \<times> {d}"
  shows "at_depth (cte_step es outbound rows) = (cte_graph es outbound `` A) \<times> {Suc d}"
proof -
  have ids: "(\<exists>v. (i, k, v) \<in> set rows) \<longleftrightarrow> i \<in> A \<and> k = d" for i k
    using assms unfolding at_depth_def set_eq_iff by (auto dest: spec [of _ "(i, k)"])
  have "(\<exists>v. (j, m, v) \<in> set (cte_step es outbound rows)) \<longleftrightarrow>
      (\<exists>i k. (\<exists>w. (i, k, w) \<in> set rows) \<and> m = Suc k \<and> (i, j) \<in> cte_graph es outbound)" for j m
    unfolding cte_step_mem cte_graph_def by blast
  then show ?thesis unfolding ids at_depth_def by auto
qed

lemma cte_reach_depth:
  "at_depth rows = A \<times> {d} \<Longrightarrow>
     at_depth (cte_reach es outbound n rows) = {(i, d + k) | i k. k \<le> n \<and> i \<in> (cte_graph es outbound ^^ k) `` A}"
proof (induction n arbitrary: rows A d)
  case (Suc n)
  let ?G = "cte_graph es outbound"
  have split: "at_depth (cte_reach es outbound (Suc n) rows) =
      A \<times> {d} \<union> {(i, Suc d + k) | i k. k \<le> n \<and> i \<in> (?G ^^ k) `` (?G `` A)}"
    using Suc.IH [OF cte_step_depth [OF Suc.prems]] Suc.prems by (simp add: at_depth_append)
  have image: "(?G ^^ k) `` (?G `` A) = (?G ^^ Suc k) `` A" for k
    by (simp only: relpow.simps relcomp_Image relpow_commute [symmetric])
  show ?case
  proof (intro set_eqI)
    fix x :: "string \<times> nat"
    obtain i m where x: "x = (i, m)" by (cases x)
    have "(i, m) \<in> at_depth (cte_reach es outbound (Suc n) rows) \<longleftrightarrow>
        (m = d \<and> i \<in> (?G ^^ 0) `` A) \<or> (\<exists>k. m = d + Suc k \<and> Suc k \<le> Suc n \<and> i \<in> (?G ^^ Suc k) `` A)"
      unfolding split image by auto
    also have "\<dots> \<longleftrightarrow> (\<exists>k. m = d + k \<and> k \<le> Suc n \<and> i \<in> (?G ^^ k) `` A)"
      by (metis add_0_right le0 not0_implies_Suc)
    finally show "x \<in> at_depth (cte_reach es outbound (Suc n) rows) \<longleftrightarrow>
        x \<in> {(i, d + k) | i k. k \<le> Suc n \<and> i \<in> (?G ^^ k) `` A}" unfolding x by blast
  qed
qed auto

text \<open>A row list restricted by the outer query, grouped and limited.\<close>

definition reached :: "(string \<times> string) set \<Rightarrow> string \<Rightarrow> int \<Rightarrow> (string \<times> nat) set" where
  "reached G s n = {(i, k). 0 < k \<and> int k \<le> n \<and> dist G s i k}"

lemma dist_self: "dist G s s k \<Longrightarrow> k = 0"
  using dist_unique [of G s s 0 k] by simp

lemma Min_dist:
  assumes "K = {k. 0 < k \<and> k \<le> n \<and> (s, i) \<in> G ^^ k}" and "K \<noteq> {}" and "i \<noteq> s"
  shows "0 < Min K \<and> Min K \<le> n \<and> dist G s i (Min K)"
proof -
  have fin: "finite K" unfolding assms(1) by simp
  then have mem: "Min K \<in> K" using assms(2) by simp
  have "(s, i) \<notin> G ^^ k" if "k < Min K" for k
  proof
    assume "(s, i) \<in> G ^^ k"
    moreover have "k \<noteq> 0" using calculation assms(3) by (cases k) auto
    ultimately have "k \<in> K" using that mem unfolding assms(1) by auto
    with fin that show False by (simp add: leD)
  qed
  moreover have "0 < Min K \<and> Min K \<le> n \<and> (s, i) \<in> G ^^ Min K" using mem assms(1) by blast
  ultimately show ?thesis unfolding dist_def by blast
qed

definition outer_rows :: "edge_row list \<Rightarrow> bool \<Rightarrow> string \<Rightarrow> nat \<Rightarrow> (string \<times> nat \<times> string) list" where
  "outer_rows es outbound s n =
     filter (\<lambda>(i, d, _). i \<noteq> s \<and> d > 0) (cte_reach es outbound n [(s, 0, [])])"

lemma outer_rows_mem:
  "(\<exists>v. (i, k, v) \<in> set (outer_rows es outbound s n)) \<longleftrightarrow>
     i \<noteq> s \<and> 0 < k \<and> k \<le> n \<and> (s, i) \<in> cte_graph es outbound ^^ k"
proof -
  have "at_depth [(s, 0, [])] = {s} \<times> {0 :: nat}" by (auto simp: at_depth_def)
  from cte_reach_depth [OF this, of es outbound n]
  have "(\<exists>v. (i, k, v) \<in> set (cte_reach es outbound n [(s, 0, [])])) \<longleftrightarrow>
      k \<le> n \<and> (s, i) \<in> cte_graph es outbound ^^ k"
    unfolding at_depth_def set_eq_iff by (auto dest: spec [of _ "(i, k)"])
  then show ?thesis by (auto simp: outer_rows_def)
qed

lemma group_min:
  fixes es s n outbound
  defines "rows \<equiv> outer_rows es outbound s n"
  assumes "i \<in> fst ` set rows"
  shows "min_list_by (fst \<circ> snd) (filter (\<lambda>(j, _). j = i) rows) = k \<longleftrightarrow>
    0 < k \<and> k \<le> n \<and> dist (cte_graph es outbound) s i k"
proof -
  let ?K = "{k. 0 < k \<and> k \<le> n \<and> (s, i) \<in> cte_graph es outbound ^^ k}"
  obtain k0 v0 where "(i, k0, v0) \<in> set rows" using assms(2) by auto
  then have "\<exists>v. (i, k0, v) \<in> set rows" by blast
  then have i: "i \<noteq> s" "k0 \<in> ?K" unfolding rows_def outer_rows_mem by auto
  have "(fst \<circ> snd) ` set (filter (\<lambda>(j, _). j = i) rows) = {k. \<exists>v. (i, k, v) \<in> set rows}"
    by (force simp: image_iff)
  also have "\<dots> = ?K" unfolding rows_def outer_rows_mem using i(1) by simp
  finally have min: "min_list_by (fst \<circ> snd) (filter (\<lambda>(j, _). j = i) rows) = Min ?K"
    by (simp add: min_list_by_def)
  define m where "m = Min ?K"
  have m: "0 < m \<and> m \<le> n \<and> dist (cte_graph es outbound) s i m"
    unfolding m_def using i by (intro Min_dist) auto
  show ?thesis
    unfolding min m_def [symmetric]
  proof
    assume "m = k"
    with m show "0 < k \<and> k \<le> n \<and> dist (cte_graph es outbound) s i k" by simp
  next
    assume "0 < k \<and> k \<le> n \<and> dist (cte_graph es outbound) s i k"
    with m show "m = k" by (auto intro: dist_unique)
  qed
qed

lemma take_short: "length (take 500 xs) < 500 \<Longrightarrow> take 500 xs = xs"
  by simp

text \<open>The rows before the limit.\<close>

definition grouped :: "(string \<times> nat \<times> string) list \<Rightarrow> traceResult list" where
  "grouped rows = sort_key tr_Depth (map (\<lambda>i.
     \<lparr>tr_SymbolID = i, tr_Depth = min_list_by (fst \<circ> snd) (filter (\<lambda>(j, _). j = i) rows),
      tr_ViaKind = min_list_by (snd \<circ> snd) (filter (\<lambda>(j, _). j = i) rows)\<rparr>) (remdups (map fst rows)))"

lemma cte_rows_grouped:
  "cte_rows edges pid kinds s n outbound = take 500 (grouped (outer_rows (cte_edges edges pid kinds) outbound s n))"
  unfolding cte_rows_def grouped_def outer_rows_def Let_def ..

lemma grouped_ids: "distinct (map tr_SymbolID (grouped rows))"
proof -
  have "mset (map tr_SymbolID (grouped rows)) = mset (remdups (map fst rows))"
    by (simp add: grouped_def multiset.map_comp comp_def)
  then show ?thesis by (metis distinct_remdups mset_eq_imp_distinct_iff)
qed

lemma cte_rows_distinct: "distinct (map tr_SymbolID (cte_rows edges pid kinds s n outbound))"
  unfolding cte_rows_grouped take_map [symmetric] by (intro distinct_take grouped_ids)

lemma grouped_mem:
  "(i, k) \<in> (\<lambda>r. (tr_SymbolID r, tr_Depth r)) ` set (grouped rows) \<longleftrightarrow>
     i \<in> fst ` set rows \<and> min_list_by (fst \<circ> snd) (filter (\<lambda>(j, _). j = i) rows) = k"
  by (simp add: grouped_def image_image) (auto simp: image_iff)

lemma cte_rows_reached:
  assumes "length (cte_rows edges pid kinds s n outbound) < 500"
  shows "(\<lambda>r. (tr_SymbolID r, tr_Depth r)) ` set (cte_rows edges pid kinds s n outbound) =
    reached (cte_graph (cte_edges edges pid kinds) outbound) s (int n)"
proof -
  let ?es = "cte_edges edges pid kinds" and ?G = "cte_graph (cte_edges edges pid kinds) outbound"
  let ?rows = "outer_rows ?es outbound s n"
  have eq: "cte_rows edges pid kinds s n outbound = grouped ?rows"
    using take_short [of "grouped ?rows"] assms by (simp add: cte_rows_grouped)
  have "(i, k) \<in> (\<lambda>r. (tr_SymbolID r, tr_Depth r)) ` set (grouped ?rows) \<longleftrightarrow> (i, k) \<in> reached ?G s (int n)" for i k
  proof -
    have "(i, k) \<in> (\<lambda>r. (tr_SymbolID r, tr_Depth r)) ` set (grouped ?rows) \<longleftrightarrow>
        i \<in> fst ` set ?rows \<and> 0 < k \<and> k \<le> n \<and> dist ?G s i k"
      unfolding grouped_mem using group_min [of i ?es outbound s n k] by blast
    also have "\<dots> \<longleftrightarrow> (\<exists>k v. (i, k, v) \<in> set ?rows) \<and> 0 < k \<and> k \<le> n \<and> dist ?G s i k" by force
    also have "\<dots> \<longleftrightarrow> 0 < k \<and> k \<le> n \<and> dist ?G s i k"
      unfolding outer_rows_mem using dist_self by (auto simp: dist_def)
    finally show ?thesis by (simp add: reached_def)
  qed
  then show ?thesis unfolding eq by (rule pair_set_eqI)
qed

lemma keep_min_new:
  "distinct (map tr_SymbolID rs) \<Longrightarrow> fst ` set byID \<inter> tr_SymbolID ` set rs = {} \<Longrightarrow>
     foldl keep_min byID rs = byID @ map (\<lambda>r. (tr_SymbolID r, r)) rs"
proof (induction rs arbitrary: byID)
  case (Cons r rs)
  have "map_of byID (tr_SymbolID r) = None" using Cons.prems(2) by (simp add: map_of_eq_None_iff)
  then have "keep_min byID r = byID @ [(tr_SymbolID r, r)]"
    using Cons.prems(2) by (simp add: keep_min_def update_new)
  with Cons show ?case by auto
qed simp

section \<open>Agreement\<close>

lemma cte_graph_project:
  assumes "pid \<noteq> []"
  shows "cte_graph (cte_edges edges pid trace_kinds) True = project_graph edges pid"
    and "cte_graph (cte_edges edges pid trace_kinds) False = (project_graph edges pid)\<inverse>"
proof -
  have "cte_edges edges pid trace_kinds = select_edges edges pid"
    using assms by (simp add: cte_edges_def select_edges_def conj_commute)
  then show "cte_graph (cte_edges edges pid trace_kinds) True = project_graph edges pid"
    "cte_graph (cte_edges edges pid trace_kinds) False = (project_graph edges pid)\<inverse>"
    by (auto simp: cte_graph_def project_graph_def)
qed

lemma select_closure_reached:
  assumes "closure_of edges pid D (st_closure st)" and "m \<le> D" and "length (select_closure st pid s m outbound) < 500"
  shows "(\<lambda>r. (tr_SymbolID r, tr_Depth r)) ` set (select_closure st pid s m outbound) =
    reached (if outbound then project_graph edges pid else (project_graph edges pid)\<inverse>) s m"
proof -
  let ?f = "\<lambda>r. cr_project r = pid \<and> (if outbound then cr_from r else cr_to r) = s \<and> int (cr_depth r) \<le> m"
  let ?id = "\<lambda>r. (if outbound then cr_to r else cr_from r, cr_depth r)"
  have "set (select_closure st pid s m outbound) = result_of outbound ` {r \<in> set (st_closure st). ?f r}"
    using assms(3) unfolding select_closure_def by (simp add: take_short)
  then have eq: "(\<lambda>r. (tr_SymbolID r, tr_Depth r)) ` set (select_closure st pid s m outbound) =
      ?id ` {r \<in> set (st_closure st). ?f r}"
    by (simp add: image_image result_of_def)
  let ?Q = "\<lambda>i k. (\<exists>r \<in> set (st_closure st). cr_project r = pid \<and> cr_from r = (if outbound then s else i) \<and>
    cr_to r = (if outbound then i else s) \<and> cr_depth r = k) \<and> int k \<le> m"
  have "(i, k) \<in> ?id ` {r \<in> set (st_closure st). ?f r} \<longleftrightarrow> ?Q i k" for i k
    by (cases outbound) auto
  moreover have "?Q i k \<longleftrightarrow>
      (i, k) \<in> reached (if outbound then project_graph edges pid else (project_graph edges pid)\<inverse>) s m" for i k
    using assms(1) [unfolded closure_of_def, rule_format, of "if outbound then s else i" "if outbound then i else s" k] assms(2)
    by (cases outbound) (auto simp: reached_def dist_converse)
  ultimately show ?thesis unfolding eq by (intro pair_set_eqI) (rule trans)
qed



section \<open>Where they differ\<close>

text \<open>
  In both directions at once the closure path lists a symbol of a cycle twice, once per direction,
  where the recursive path merges the two; and a list of three kinds that repeats one of the
  default kinds is taken for the default set, so the fast path answers it with all three.
\<close>

definition cycle_closure :: store where
  "cycle_closure = snd (BuildClosure (\<lambda>_. None) id
     \<lparr>st_edges = [call_edge ''a'' ''b'', call_edge ''b'' ''a''], st_closure = []\<rparr> ''p'' 1)"

lemma both_directions_differ:
  "case (TraceViaClosure (\<lambda>_. None) cycle_closure ''p'' ''a'' ''both'' 1,
         traceViaCTE (\<lambda>_. None) rev cycle_closure ''p'' ''a'' ''both'' trace_kinds 1) of
     (Inr rs, Inr rs') \<Rightarrow> map tr_SymbolID rs = [''b'', ''b''] \<and> map tr_SymbolID rs' = [''b'']
   | _ \<Rightarrow> False"
  by code_simp

lemma repeated_kind_is_default: "isDefaultTraceKinds [''CALLS'', ''CALLS'', ''CALLS'']"
  by code_simp

end
