(* ===== verification/Supervisor.thy ===== *)
theory Supervisor
  imports Pincher_Prelude
begin

text \<open>
  The process supervisor (\<^verbatim>\<open>internal/supervisor/supervisor.go\<close>): two pumps, a liveness probe
  and a circuit breaker around an inner process that may exit at any time.  Each handler is a
  function on the supervisor's state; what it reads from outside, the clock, the spawner, the
  results of writes, is an argument.  \<^verbatim>\<open>encoding/json\<close> is a parameter: one field per structure
  the code decodes into.  Frames to the client, lines to an inner process and kills are logged in
  the state.
\<close>

section \<open>Configuration, environment and state\<close>

record jsonlib =
  js_init :: "string \<Rightarrow> (string \<times> string) option"
  js_call :: "string \<Rightarrow> (string \<times> string \<times> string) option"
  js_line :: "string \<Rightarrow> (string \<times> string) option"
  js_id :: "string \<Rightarrow> string option"
  js_str :: "string \<Rightarrow> string option"

record config =
  cf_ProbeTimeout :: int
  cf_MaxRestarts :: int
  cf_RestartWindow :: int
  cf_RespawnQuietWindow :: int
  cf_RespawnAttempts :: int
  cf_ExitOnGiveUp :: bool

datatype retry_err = Cancelled | FailedAfter nat string

datatype give_up = Exhausted retry_err | Breaker int

datatype reason =
    NoReason
  | InnerExited int
  | ProbeTimedOut
  | RespawnFailed nat nat string
  | RespawnRecovered nat
  | DegradedBy give_up
  | RecoveredFrom give_up

record probeState =
  pr_id :: int
  pr_sentAt :: int

record status =
  su_Alive :: bool
  su_Restarts :: int
  su_ProbesSent :: int
  su_ProbesAnswered :: int
  su_ProbesTimedOut :: int
  su_LastRestartReason :: reason
  su_Emitted :: int
  su_EmitFailed :: int
  su_Degraded :: bool
  su_DegradedReason :: "give_up option"
  su_DegradedSince :: "int option"

datatype frame =
    Forwarded string
  | StatusReply string status
  | Unavailable string "give_up option"
  | ToolsListChanged

record sup =
  s_inner :: "nat option"
  s_initParams :: string
  s_initializedLine :: string
  s_initReplayCounter :: int
  s_quietUntil :: "int option"
  s_pendingProbe :: "probeState option"
  s_probeIDCounter :: int
  s_timers :: "probeState list"
  s_history :: "int list"
  s_Restarts :: int
  s_ProbesSent :: int
  s_ProbesAnswered :: int
  s_ProbesTimedOut :: int
  s_Emitted :: int
  s_EmitFailed :: int
  s_lastReason :: reason
  s_nextReason :: reason
  s_degraded :: bool
  s_degradedReason :: "give_up option"
  s_degradedSince :: "int option"
  s_out :: "frame list"
  s_wrote :: "(nat \<times> string) list"
  s_killed :: "nat list"

definition probeIDPrefix :: string where "probeIDPrefix = ''__pincher_supervisor_probe_''"
definition initIDPrefix :: string where "initIDPrefix = ''__pincher_supervisor_init_''"
definition SupervisorStatusToolName :: string where "SupervisorStatusToolName = ''pincher.supervisor.status''"

text \<open>Durations are nanoseconds.\<close>

definition defaultRestartWindow :: int where "defaultRestartWindow = 60 * 10 ^ 9"
definition defaultRespawnQuietWindow :: int where "defaultRespawnQuietWindow = 500 * 10 ^ 6"

definition max_restarts :: "config \<Rightarrow> int" where
  "max_restarts cf = (if cf_MaxRestarts cf = 0 then 5 else cf_MaxRestarts cf)"

definition restart_window :: "config \<Rightarrow> int" where
  "restart_window cf = (if cf_RestartWindow cf = 0 then defaultRestartWindow else cf_RestartWindow cf)"

section \<open>Client to inner\<close>

definition maybeCaptureInit :: "jsonlib \<Rightarrow> string \<Rightarrow> sup \<Rightarrow> sup" where
  "maybeCaptureInit js line st =
     (case js_init js line of
        None \<Rightarrow> st
      | Some (method, params) \<Rightarrow>
          (if method = ''initialize''
           then st\<lparr>s_initParams := (if params = [] then ''{}'' else params)\<rparr>
           else if method = ''notifications/initialized'' \<or> method = ''initialized''
           then st\<lparr>s_initializedLine := line\<rparr>
           else st))"

definition Status :: "sup \<Rightarrow> status" where
  "Status st =
     \<lparr>su_Alive = (s_inner st \<noteq> None), su_Restarts = s_Restarts st, su_ProbesSent = s_ProbesSent st,
      su_ProbesAnswered = s_ProbesAnswered st, su_ProbesTimedOut = s_ProbesTimedOut st,
      su_LastRestartReason = s_lastReason st, su_Emitted = s_Emitted st, su_EmitFailed = s_EmitFailed st,
      su_Degraded = s_degraded st, su_DegradedReason = s_degradedReason st,
      su_DegradedSince = s_degradedSince st\<rparr>"

text \<open>A frame to the client is logged only when the write succeeds.\<close>

definition emit :: "bool \<Rightarrow> frame \<Rightarrow> sup \<Rightarrow> sup" where
  "emit ok f st = (if ok then st\<lparr>s_out := s_out st @ [f]\<rparr> else st)"

definition handleStatusToolCall :: "jsonlib \<Rightarrow> bool \<Rightarrow> string \<Rightarrow> sup \<Rightarrow> bool \<times> sup" where
  "handleStatusToolCall js ok line st =
     (case js_call js line of
        None \<Rightarrow> (False, st)
      | Some (i, method, name) \<Rightarrow>
          (if method \<noteq> ''tools/call'' \<or> name \<noteq> SupervisorStatusToolName then (False, st)
           else (True, emit ok (StatusReply i (Status st)) st)))"

definition replyInnerUnavailable :: "jsonlib \<Rightarrow> bool \<Rightarrow> string \<Rightarrow> sup \<Rightarrow> sup" where
  "replyInnerUnavailable js ok line st =
     (case js_id js line of
        None \<Rightarrow> st
      | Some i \<Rightarrow> (if i = [] \<or> i = ''null'' then st else emit ok (Unavailable i (s_degradedReason st)) st))"

text \<open>\<open>ok\<close> is whether the write to the pipe succeeds; the result is whether an error is returned.\<close>

definition writeToInner :: "bool \<Rightarrow> string \<Rightarrow> sup \<Rightarrow> bool \<times> sup" where
  "writeToInner ok line st =
     (case s_inner st of
        None \<Rightarrow> (True, st)
      | Some p \<Rightarrow> (if ok then (False, st\<lparr>s_wrote := s_wrote st @ [(p, line)]\<rparr>) else (True, st)))"

definition client_line :: "jsonlib \<Rightarrow> bool \<Rightarrow> bool \<Rightarrow> string \<Rightarrow> sup \<Rightarrow> sup" where
  "client_line js outOk inOk line st =
     (let st1 = maybeCaptureInit js line st; (handled, st2) = handleStatusToolCall js outOk line st1 in
      if handled then st2
      else if s_degraded st2 then replyInnerUnavailable js outOk line st2
      else snd (writeToInner inOk line st2))"

section \<open>Inner to client\<close>

datatype innerLineKind =
    InnerLineForward | InnerLineProbeResponse | InnerLineInitReplayResponse | InnerLineQuietWindowNotification

definition classifyInnerLine :: "jsonlib \<Rightarrow> int \<Rightarrow> string \<Rightarrow> sup \<Rightarrow> innerLineKind \<times> sup" where
  "classifyInnerLine js now line st =
     (case js_line js line of
        None \<Rightarrow> (InnerLineForward, st)
      | Some (i, method) \<Rightarrow>
          (if i = [] \<and> method \<noteq> [] then
             (case s_quietUntil st of
                Some t \<Rightarrow> (if now < t then (InnerLineQuietWindowNotification, st) else (InnerLineForward, st))
              | None \<Rightarrow> (InnerLineForward, st))
           else if i = [] then (InnerLineForward, st)
           else case js_str js i of
             None \<Rightarrow> (InnerLineForward, st)
           | Some s \<Rightarrow>
               (if has_prefix s probeIDPrefix then (InnerLineProbeResponse, st\<lparr>s_pendingProbe := None\<rparr>)
                else if has_prefix s initIDPrefix then (InnerLineInitReplayResponse, st)
                else (InnerLineForward, st))))"

definition inner_line :: "jsonlib \<Rightarrow> bool \<Rightarrow> int \<Rightarrow> string \<Rightarrow> sup \<Rightarrow> sup" where
  "inner_line js ok now line st =
     (let (k, st1) = classifyInnerLine js now line st in
      case k of
        InnerLineProbeResponse \<Rightarrow> st1\<lparr>s_ProbesAnswered := s_ProbesAnswered st1 + 1\<rparr>
      | InnerLineInitReplayResponse \<Rightarrow> st1
      | InnerLineQuietWindowNotification \<Rightarrow> st1
      | InnerLineForward \<Rightarrow> emit ok (Forwarded line) st1)"

section \<open>Liveness probe\<close>

definition quoted :: "string \<Rightarrow> string" where
  "quoted s = [dquote] @ s @ [dquote]"

definition probe_line :: "int \<Rightarrow> string" where
  "probe_line n =
     ''{'' @ quoted ''jsonrpc'' @ '':'' @ quoted ''2.0'' @ '','' @ quoted ''id'' @ '':'' @
     quoted (probeIDPrefix @ itoa n) @ '','' @ quoted ''method'' @ '':'' @ quoted ''tools/list'' @ '','' @
     quoted ''params'' @ '':{}}'' @ [newline]"

text \<open>A probe that was written leaves a timer behind, whatever happens to the inner process later.\<close>

definition sendProbe :: "bool \<Rightarrow> int \<Rightarrow> sup \<Rightarrow> sup" where
  "sendProbe ok now st =
     (if s_pendingProbe st \<noteq> None then st
      else
        let n = s_probeIDCounter st + 1; p = \<lparr>pr_id = n, pr_sentAt = now\<rparr>;
            st1 = st\<lparr>s_probeIDCounter := n, s_pendingProbe := Some p\<rparr>;
            (failed, st2) = writeToInner ok (probe_line n) st1
        in if failed then st2\<lparr>s_pendingProbe := None\<rparr>
           else st2\<lparr>s_ProbesSent := s_ProbesSent st2 + 1, s_timers := s_timers st2 @ [p]\<rparr>)"

definition killInner :: "sup \<Rightarrow> sup" where
  "killInner st = (case s_inner st of None \<Rightarrow> st | Some p \<Rightarrow> st\<lparr>s_killed := s_killed st @ [p]\<rparr>)"

text \<open>The timer's closure: it acts only if its own probe is still the pending one.\<close>

definition probe_timeout :: "probeState \<Rightarrow> sup \<Rightarrow> sup" where
  "probe_timeout p st =
     (let st0 = st\<lparr>s_timers := remove1 p (s_timers st)\<rparr> in
      if s_pendingProbe st0 = Some p
      then killInner (st0\<lparr>s_pendingProbe := None, s_ProbesTimedOut := s_ProbesTimedOut st0 + 1,
             s_nextReason := ProbeTimedOut\<rparr>)
      else st0)"

section \<open>Respawn and circuit breaker\<close>

record spawn_env =
  sp_spawn :: "string + nat"
  sp_now :: int
  sp_initErr :: "string option"
  sp_initializedErr :: "string option"
  sp_emitOk :: bool

definition init_line :: "int \<Rightarrow> string \<Rightarrow> string" where
  "init_line n params =
     ''{'' @ quoted ''jsonrpc'' @ '':'' @ quoted ''2.0'' @ '','' @ quoted ''id'' @ '':'' @
     quoted (initIDPrefix @ itoa n) @ '','' @ quoted ''method'' @ '':'' @ quoted ''initialize'' @ '','' @
     quoted ''params'' @ '':'' @ params @ ''}'' @ [newline]"

definition replay_init :: "spawn_env \<Rightarrow> nat \<Rightarrow> sup \<Rightarrow> string option \<times> sup" where
  "replay_init env p st =
     (if s_initParams st = [] then (None, st)
      else let n = s_initReplayCounter st + 1; st1 = st\<lparr>s_initReplayCounter := n\<rparr> in
        case sp_initErr env of
          Some err \<Rightarrow> (Some (''replay initialize: '' @ err), st1\<lparr>s_killed := s_killed st1 @ [p]\<rparr>)
        | None \<Rightarrow> (None, st1\<lparr>s_wrote := s_wrote st1 @ [(p, init_line n (s_initParams st1))]\<rparr>))"

definition replay_initialized :: "spawn_env \<Rightarrow> nat \<Rightarrow> sup \<Rightarrow> string option \<times> sup" where
  "replay_initialized env p st =
     (if s_initializedLine st = [] then (None, st)
      else case sp_initializedErr env of
        Some err \<Rightarrow> (Some (''replay initialized: '' @ err), st\<lparr>s_killed := s_killed st @ [p]\<rparr>)
      | None \<Rightarrow> (None, st\<lparr>s_wrote := s_wrote st @ [(p, s_initializedLine st)]\<rparr>))"

definition notify_list_changed :: "spawn_env \<Rightarrow> sup \<Rightarrow> sup" where
  "notify_list_changed env st =
     (if sp_emitOk env
      then (emit True ToolsListChanged st)\<lparr>s_Emitted := s_Emitted st + 1\<rparr>
      else st\<lparr>s_EmitFailed := s_EmitFailed st + 1\<rparr>)"

definition respawn :: "config \<Rightarrow> spawn_env \<Rightarrow> sup \<Rightarrow> string option \<times> sup" where
  "respawn cf env st =
     (case sp_spawn env of
        Inl err \<Rightarrow> (Some err, st)
      | Inr p \<Rightarrow>
          (let quiet = (if cf_RespawnQuietWindow cf = 0 then defaultRespawnQuietWindow else cf_RespawnQuietWindow cf);
               st1 = st\<lparr>s_quietUntil := Some (sp_now env + quiet)\<rparr>
           in case replay_init env p st1 of
                (Some err, st2) \<Rightarrow> (Some err, st2)
              | (None, st2) \<Rightarrow>
                  (case replay_initialized env p st2 of
                     (Some err, st3) \<Rightarrow> (Some err, st3)
                   | (None, st3) \<Rightarrow> (None, notify_list_changed env (st3\<lparr>s_inner := Some p\<rparr>)))))"

text \<open>Cancellation is seen before an attempt or while waiting after a failed one.\<close>

record ctx =
  cx_before :: "nat \<Rightarrow> bool"
  cx_wait :: "nat \<Rightarrow> bool"

definition retry_attempt :: "config \<Rightarrow> spawn_env \<Rightarrow> bool \<Rightarrow> bool \<Rightarrow> nat \<Rightarrow> nat \<Rightarrow> sup \<Rightarrow> retry_err option option \<times> sup" where
  "retry_attempt cf env before wait attempts attempt st =
     (if before then (Some (Some Cancelled), st)
      else case respawn cf env st of
        (None, st1) \<Rightarrow>
          (Some None, if attempt > 1 then st1\<lparr>s_lastReason := RespawnRecovered attempt\<rparr> else st1)
      | (Some err, st1) \<Rightarrow>
          (let st2 = st1\<lparr>s_lastReason := RespawnFailed attempt attempts err\<rparr> in
           if attempt = attempts then (Some (Some (FailedAfter attempts err)), st2)
           else if wait then (Some (Some Cancelled), st2)
           else (None, st2)))"

text \<open>An iteration without a result goes on to the next one; the last one always has a result.\<close>

fun retry_loop :: "config \<Rightarrow> (nat \<Rightarrow> spawn_env) \<Rightarrow> ctx \<Rightarrow> nat \<Rightarrow> nat \<Rightarrow> nat \<Rightarrow> sup \<Rightarrow> retry_err option \<times> sup" where
  "retry_loop cf env cx attempts attempt 0 st = (Some (FailedAfter attempts []), st)"
| "retry_loop cf env cx attempts attempt (Suc left) st =
     (case retry_attempt cf (env attempt) (cx_before cx attempt) (cx_wait cx attempt) attempts attempt st of
        (Some r, st1) \<Rightarrow> (r, st1)
      | (None, st1) \<Rightarrow> retry_loop cf env cx attempts (Suc attempt) left st1)"

definition respawn_attempts :: "config \<Rightarrow> nat" where
  "respawn_attempts cf = (if cf_RespawnAttempts cf \<le> 0 then 10 else nat (cf_RespawnAttempts cf))"

definition respawnWithRetry :: "config \<Rightarrow> (nat \<Rightarrow> spawn_env) \<Rightarrow> ctx \<Rightarrow> sup \<Rightarrow> retry_err option \<times> sup" where
  "respawnWithRetry cf env cx st = retry_loop cf env cx (respawn_attempts cf) 1 (respawn_attempts cf) st"

definition trim_history :: "config \<Rightarrow> int \<Rightarrow> int list \<Rightarrow> int list" where
  "trim_history cf now hist = filter (\<lambda>t. t > now - restart_window cf) hist @ [now]"

text \<open>The result is the number of restarts when the breaker trips.\<close>

definition recordRestart :: "config \<Rightarrow> int \<Rightarrow> sup \<Rightarrow> int option \<times> sup" where
  "recordRestart cf now st =
     (let keep = trim_history cf now (s_history st); st1 = st\<lparr>s_history := keep\<rparr> in
      (if int (length keep) > max_restarts cf then Some (int (length keep)) else None, st1))"

definition shutdownInner :: "sup \<Rightarrow> sup" where
  "shutdownInner st =
     (case s_inner st of None \<Rightarrow> st | Some p \<Rightarrow> st\<lparr>s_killed := s_killed st @ [p], s_inner := None\<rparr>)"

definition enter_degraded :: "int \<Rightarrow> give_up \<Rightarrow> sup \<Rightarrow> sup" where
  "enter_degraded now why st =
     st\<lparr>s_degradedReason := Some why, s_degradedSince := Some now, s_lastReason := DegradedBy why, s_degraded := True\<rparr>"

text \<open>One tick of the slow retry loop; the flag says that it returns.\<close>

definition degraded_tick :: "config \<Rightarrow> spawn_env \<Rightarrow> give_up \<Rightarrow> sup \<Rightarrow> bool \<times> sup" where
  "degraded_tick cf env why st =
     (case respawn cf env st of
        (Some _, st1) \<Rightarrow> (False, st1)
      | (None, st1) \<Rightarrow>
          (True, st1\<lparr>s_history := [], s_lastReason := RecoveredFrom why, s_degradedReason := None,
                   s_degradedSince := None, s_degraded := False, s_Restarts := s_Restarts st1 + 1\<rparr>))"

section \<open>The inner pump as a state machine\<close>

datatype mode = Pumping | Retrying nat | DegradedMode give_up | Done "retry_err option" "int option"

definition note_exit :: "int \<Rightarrow> sup \<Rightarrow> sup" where
  "note_exit exitCode st =
     st\<lparr>s_nextReason := NoReason,
        s_lastReason := (if s_nextReason st = NoReason then InnerExited exitCode else s_nextReason st)\<rparr>"

text \<open>What the pump does with the outcome of the retries, up to its next read or the end.\<close>

definition after_retry :: "config \<Rightarrow> int \<Rightarrow> retry_err option \<Rightarrow> sup \<Rightarrow> mode \<times> sup" where
  "after_retry cf now r st =
     (case r of
        Some err \<Rightarrow>
          (if cf_ExitOnGiveUp cf then (Done (Some err) None, st)
           else (DegradedMode (Exhausted err), enter_degraded now (Exhausted err) st))
      | None \<Rightarrow>
          (let st1 = st\<lparr>s_Restarts := s_Restarts st + 1\<rparr> in
           case recordRestart cf now st1 of
             (None, st2) \<Rightarrow> (Pumping, st2)
           | (Some n, st2) \<Rightarrow>
               (if cf_ExitOnGiveUp cf then (Done None (Some n), st2)
                else (DegradedMode (Breaker n), enter_degraded now (Breaker n) (shutdownInner st2)))))"

definition inner_exited :: "config \<Rightarrow> int \<Rightarrow> (nat \<Rightarrow> spawn_env) \<Rightarrow> ctx \<Rightarrow> int \<Rightarrow> sup \<Rightarrow> mode \<times> sup" where
  "inner_exited cf exitCode env cx now st =
     (let (r, st1) = respawnWithRetry cf env cx (note_exit exitCode st) in after_retry cf now r st1)"

definition init_sup :: "nat \<Rightarrow> sup" where
  "init_sup p =
     \<lparr>s_inner = Some p, s_initParams = [], s_initializedLine = [], s_initReplayCounter = 0, s_quietUntil = None,
      s_pendingProbe = None, s_probeIDCounter = 0, s_timers = [], s_history = [], s_Restarts = 0,
      s_ProbesSent = 0, s_ProbesAnswered = 0, s_ProbesTimedOut = 0, s_Emitted = 0, s_EmitFailed = 0,
      s_lastReason = NoReason, s_nextReason = NoReason, s_degraded = False, s_degradedReason = None,
      s_degradedSince = None, s_out = [], s_wrote = [], s_killed = []\<rparr>"

text \<open>
  The goroutines interleave: a step is the stretch of one of them between two points where it
  blocks, so a client line or a probe may come between two attempts of a respawn.  A timer may fire
  at any time after its probe was sent.
\<close>

definition running :: "mode \<Rightarrow> bool" where
  "running m \<longleftrightarrow> (case m of Done _ _ \<Rightarrow> False | _ \<Rightarrow> True)"

inductive sup_step :: "config \<Rightarrow> jsonlib \<Rightarrow> mode \<times> sup \<Rightarrow> mode \<times> sup \<Rightarrow> bool" for cf js where
  ClientLine: "running m \<Longrightarrow> sup_step cf js (m, st) (m, client_line js outOk inOk line st)"
| ProbeTick: "running m \<Longrightarrow> sup_step cf js (m, st) (m, sendProbe ok now st)"
| ProbeTimeout: "running m \<Longrightarrow> p \<in> set (s_timers st) \<Longrightarrow> sup_step cf js (m, st) (m, probe_timeout p st)"
| InnerLine: "sup_step cf js (Pumping, st) (Pumping, inner_line js ok now line st)"
| InnerExit: "sup_step cf js (Pumping, st) (Retrying 1, note_exit exitCode st)"
| RetryFailed: "retry_attempt cf env before wait (respawn_attempts cf) k st = (None, st') \<Longrightarrow>
    sup_step cf js (Retrying k, st) (Retrying (Suc k), st')"
| RetryEnded: "retry_attempt cf env before wait (respawn_attempts cf) k st = (Some r, st') \<Longrightarrow>
    sup_step cf js (Retrying k, st) (after_retry cf now r st')"
| DegradedTick: "degraded_tick cf env w st = (recovered, st') \<Longrightarrow>
    sup_step cf js (DegradedMode w, st) (if recovered then Pumping else DegradedMode w, st')"
| Shutdown: "running m \<Longrightarrow> sup_step cf js (m, st) (Done None None, shutdownInner st)"
| Drain: "sup_step cf js (Done r n, st) (Done r n, shutdownInner st)"

inductive sup_reachable :: "config \<Rightarrow> jsonlib \<Rightarrow> mode \<times> sup \<Rightarrow> bool" for cf js where
  Start: "sup_reachable cf js (Pumping, init_sup p)"
| Step: "sup_reachable cf js x \<Longrightarrow> sup_step cf js x y \<Longrightarrow> sup_reachable cf js y"

end
