(* ===== verification/Supervisor_Props.thy ===== *)
theory Supervisor_Props
  imports Supervisor
begin

text \<open>
  What the supervisor promises its client across crashes of the inner process: the state machine's
  invariant, the circuit breaker's count, the replayed handshake, the retries, the answer to every
  line, and the one thing that goes wrong with a probe that outlives the process it was sent to.
\<close>

section \<open>Reachable states\<close>

definition sentinel :: "jsonlib \<Rightarrow> string \<Rightarrow> bool" where
  "sentinel js line \<longleftrightarrow>
     (case js_line js line of
        None \<Rightarrow> False
      | Some (i, _) \<Rightarrow> i \<noteq> [] \<and>
          (case js_str js i of None \<Rightarrow> False | Some s \<Rightarrow> has_prefix s probeIDPrefix \<or> has_prefix s initIDPrefix))"

text \<open>What every handler keeps: the part of the invariant that does not depend on the mode.\<close>

definition frames_ok :: "jsonlib \<Rightarrow> sup \<Rightarrow> bool" where
  "frames_ok js st \<longleftrightarrow>
     (\<forall>line. Forwarded line \<in> set (s_out st) \<longrightarrow> \<not> sentinel js line) \<and>
     (\<forall>p. s_pendingProbe st = Some p \<longrightarrow> p \<in> set (s_timers st))"

definition mode_ok :: "config \<Rightarrow> mode \<Rightarrow> sup \<Rightarrow> bool" where
  "mode_ok cf m st \<longleftrightarrow>
     (case m of
        Pumping \<Rightarrow> s_inner st \<noteq> None \<and> \<not> s_degraded st \<and> int (length (s_history st)) \<le> max 0 (max_restarts cf)
      | Retrying k \<Rightarrow> s_inner st \<noteq> None \<and> \<not> s_degraded st \<and> 1 \<le> k \<and> k \<le> respawn_attempts cf \<and>
          int (length (s_history st)) \<le> max 0 (max_restarts cf)
      | DegradedMode w \<Rightarrow> s_degraded st \<and> s_degradedReason st = Some w
      | Done _ _ \<Rightarrow> True)"

text \<open>The fields a handler of the client or probe side never touches.\<close>

definition same_control :: "sup \<Rightarrow> sup \<Rightarrow> bool" where
  "same_control st st' \<longleftrightarrow>
     s_inner st' = s_inner st \<and> s_degraded st' = s_degraded st \<and> s_degradedReason st' = s_degradedReason st \<and>
     s_history st' = s_history st"

lemma mode_ok_same: "same_control st st' \<Longrightarrow> mode_ok cf m st \<Longrightarrow> mode_ok cf m st'"
  by (cases m) (simp_all add: mode_ok_def same_control_def)

definition sup_inv :: "config \<Rightarrow> jsonlib \<Rightarrow> mode \<times> sup \<Rightarrow> bool" where
  "sup_inv cf js x \<longleftrightarrow> frames_ok js (snd x) \<and> mode_ok cf (fst x) (snd x)"

text \<open>
  A handler of the client or probe side runs beside the pump: its contract is to keep the stream
  and the timers in order and to leave the pump's fields alone.  Every such handler keeps the
  invariant in whatever mode the pump is.
\<close>

locale side_handler =
  fixes js :: jsonlib and h :: "sup \<Rightarrow> sup"
  assumes keeps_frames: "frames_ok js st \<Longrightarrow> frames_ok js (h st)"
    and keeps_control: "same_control st (h st)"
begin

lemma keeps_mode: "mode_ok cf m st \<Longrightarrow> mode_ok cf m (h st)"
  using mode_ok_same [OF keeps_control] .

lemma keeps_inv: "sup_inv cf js (m, st) \<Longrightarrow> sup_inv cf js (m, h st)"
  by (simp add: sup_inv_def keeps_frames keeps_mode)

end

lemmas handler_defs = client_line_def maybeCaptureInit_def handleStatusToolCall_def replyInnerUnavailable_def
  writeToInner_def emit_def inner_line_def sendProbe_def probe_timeout_def killInner_def Let_def

interpretation client: side_handler js "client_line js outOk inOk line" for js outOk inOk line
  by unfold_locales (auto simp: handler_defs same_control_def frames_ok_def split: option.splits if_splits)

interpretation inner_side: side_handler js "inner_line js ok now line" for js ok now line
  by unfold_locales (auto simp: handler_defs classifyInnerLine_def same_control_def frames_ok_def sentinel_def
      split: option.splits if_splits prod.splits)

interpretation probe: side_handler js "sendProbe ok now" for js ok now
  by unfold_locales (auto simp: handler_defs same_control_def frames_ok_def split: option.splits if_splits)

interpretation timeout: side_handler js "probe_timeout p" for js p
  by unfold_locales (auto simp: handler_defs same_control_def frames_ok_def split: option.splits if_splits)

section \<open>Respawn\<close>

definition env_ok :: "spawn_env \<Rightarrow> sup \<Rightarrow> bool" where
  "env_ok env st \<longleftrightarrow>
     (\<exists>p. sp_spawn env = Inr p) \<and> (s_initParams st = [] \<or> sp_initErr env = None) \<and>
     (s_initializedLine st = [] \<or> sp_initializedErr env = None)"

lemmas respawn_defs = respawn_def replay_init_def replay_initialized_def notify_list_changed_def emit_def Let_def

lemma respawn_iff: "fst (respawn cf env st) = None \<longleftrightarrow> env_ok env st"
  by (auto simp: respawn_defs env_ok_def split: option.splits if_splits sum.splits)

lemma respawn_frames: "frames_ok js st \<Longrightarrow> frames_ok js (snd (respawn cf env st))"
  by (auto simp: respawn_defs frames_ok_def split: option.splits if_splits sum.splits)

lemma respawn_control:
  "s_degraded (snd (respawn cf env st)) = s_degraded st"
  "s_degradedReason (snd (respawn cf env st)) = s_degradedReason st"
  "s_history (snd (respawn cf env st)) = s_history st"
  "s_initParams (snd (respawn cf env st)) = s_initParams st"
  "s_initializedLine (snd (respawn cf env st)) = s_initializedLine st"
  by (auto simp: respawn_defs split: option.splits if_splits sum.splits)

lemma respawn_inner:
  "s_inner (snd (respawn cf env st)) =
     (if env_ok env st then (case sp_spawn env of Inr p \<Rightarrow> Some p | Inl _ \<Rightarrow> None) else s_inner st)"
  by (auto simp: respawn_defs env_ok_def split: option.splits if_splits sum.splits)

text \<open>The handshake a new inner process is given.\<close>

definition handshake :: "nat \<Rightarrow> sup \<Rightarrow> (nat \<times> string) list" where
  "handshake p st =
     (if s_initParams st = [] then [] else [(p, init_line (s_initReplayCounter st + 1) (s_initParams st))]) @
     (if s_initializedLine st = [] then [] else [(p, s_initializedLine st)])"

text \<open>
  C33. A respawn either succeeds, and then the new process is the current one, it has been sent
  exactly the captured handshake and nothing before it, and the client has been told once that the
  tools may have changed; or it fails, and then the current process and the client's stream are
  unchanged.
\<close>

theorem respawn_handshake:
  "case respawn cf env st of
     (None, st') \<Rightarrow> (\<exists>p. sp_spawn env = Inr p \<and> s_inner st' = Some p \<and>
        s_wrote st' = s_wrote st @ handshake p st \<and> s_killed st' = s_killed st \<and>
        s_out st' = s_out st @ (if sp_emitOk env then [ToolsListChanged] else []))
   | (Some err, st') \<Rightarrow> s_inner st' = s_inner st \<and> s_out st' = s_out st"
  by (auto simp: respawn_defs handshake_def split: option.splits if_splits sum.splits)

section \<open>The retries\<close>

lemma respawn_attempts_pos: "1 \<le> respawn_attempts cf"
  unfolding respawn_attempts_def by (simp, arith)

lemmas attempt_defs = retry_attempt_def Let_def

lemma retry_attempt_frames:
  "frames_ok js st \<Longrightarrow> frames_ok js (snd (retry_attempt cf env before wait n k st))"
  using respawn_frames [of js st cf env]
  by (auto simp: attempt_defs frames_ok_def split: prod.splits option.splits)

lemma retry_attempt_control:
  "s_degraded (snd (retry_attempt cf env before wait n k st)) = s_degraded st"
  "s_history (snd (retry_attempt cf env before wait n k st)) = s_history st"
  using respawn_control [of cf env st] by (auto simp: attempt_defs split: prod.splits option.splits)

lemma retry_attempt_inner:
  "s_inner st \<noteq> None \<Longrightarrow> s_inner (snd (retry_attempt cf env before wait n k st)) \<noteq> None"
  using respawn_inner [of cf env st]
  by (auto simp: attempt_defs env_ok_def split: prod.splits option.splits if_splits)

lemma retry_attempt_goes_on:
  "retry_attempt cf env before wait n k st = (None, st') \<Longrightarrow> k \<noteq> n"
  by (auto simp: attempt_defs split: if_splits prod.splits option.splits)

section \<open>What follows the retries\<close>

lemma after_retry_frames:
  "frames_ok js st \<Longrightarrow> frames_ok js (snd (after_retry cf now r st))"
  by (auto simp: after_retry_def recordRestart_def enter_degraded_def shutdownInner_def frames_ok_def Let_def
      split: option.splits)

lemma after_retry_mode:
  "s_inner st \<noteq> None \<Longrightarrow> \<not> s_degraded st \<Longrightarrow>
   mode_ok cf (fst (after_retry cf now r st)) (snd (after_retry cf now r st))"
  by (auto simp: after_retry_def recordRestart_def enter_degraded_def shutdownInner_def mode_ok_def Let_def
      split: option.splits)

lemma degraded_tick_frames:
  "degraded_tick cf env w st = (b, st') \<Longrightarrow> frames_ok js st \<Longrightarrow> frames_ok js st'"
  using respawn_frames [of js st cf env]
  by (auto simp: degraded_tick_def frames_ok_def split: prod.splits option.splits)

lemma degraded_tick_mode:
  assumes "degraded_tick cf env w st = (b, st')" "mode_ok cf (DegradedMode w) st"
  shows "mode_ok cf (if b then Pumping else DegradedMode w) st'"
  using assms respawn_control [of cf env st] respawn_inner [of cf env st] respawn_iff [of cf env st]
  by (auto simp: degraded_tick_def mode_ok_def env_ok_def split: prod.splits option.splits if_splits)

lemma note_exit_inv:
  "frames_ok js st \<Longrightarrow> frames_ok js (note_exit c st)"
  "mode_ok cf Pumping st \<Longrightarrow> mode_ok cf (Retrying 1) (note_exit c st)"
  using respawn_attempts_pos [of cf] by (simp_all add: note_exit_def frames_ok_def mode_ok_def)

lemma shutdownInner_inv:
  "frames_ok js st \<Longrightarrow> frames_ok js (shutdownInner st)" "mode_ok cf (Done r n) st'"
  by (auto simp: shutdownInner_def frames_ok_def mode_ok_def split: option.splits)

section \<open>The invariant\<close>

lemma retry_attempt_mode:
  assumes "retry_attempt cf env before wait (respawn_attempts cf) k st = (None, st')"
    and "mode_ok cf (Retrying k) st"
  shows "mode_ok cf (Retrying (Suc k)) st'"
proof -
  note facts = retry_attempt_goes_on [OF assms(1)]
    retry_attempt_control [of cf env before wait "respawn_attempts cf" k st]
    retry_attempt_inner [of st cf env before wait "respawn_attempts cf" k]
  show ?thesis using facts assms by (simp add: mode_ok_def)
qed

lemma retry_ended_mode:
  assumes "retry_attempt cf env before wait (respawn_attempts cf) k st = (Some r, st')"
    and "mode_ok cf (Retrying k) st"
  shows "mode_ok cf (fst (after_retry cf now r st')) (snd (after_retry cf now r st'))"
proof (rule after_retry_mode)
  show "s_inner st' \<noteq> None"
    using assms retry_attempt_inner [of st cf env before wait "respawn_attempts cf" k] by (simp add: mode_ok_def)
  show "\<not> s_degraded st'"
    using assms retry_attempt_control(1) [of cf env before wait "respawn_attempts cf" k st]
    by (simp add: mode_ok_def)
qed

lemma sup_step_inv:
  assumes "sup_step cf js x y" "sup_inv cf js x"
  shows "sup_inv cf js y"
  using assms
proof (induction rule: sup_step.induct)
  case (ClientLine m st outOk inOk line)
  then show ?case by (blast intro: client.keeps_inv)
next
  case (ProbeTick m st ok now)
  then show ?case by (blast intro: probe.keeps_inv)
next
  case (ProbeTimeout m p st)
  then show ?case by (blast intro: timeout.keeps_inv)
next
  case (InnerLine st ok now line)
  then show ?case by (blast intro: inner_side.keeps_inv)
next
  case (InnerExit st exitCode)
  then show ?case by (simp add: sup_inv_def note_exit_inv del: One_nat_def)
next
  case (RetryFailed env before wait k st st')
  then show ?case
    using retry_attempt_frames [of js st cf env before wait "respawn_attempts cf" k] retry_attempt_mode
    by (simp add: sup_inv_def)
next
  case (RetryEnded env before wait k st r st' now)
  then show ?case
    using retry_attempt_frames [of js st cf env before wait "respawn_attempts cf" k]
    by (simp add: sup_inv_def after_retry_frames retry_ended_mode)
next
  case (DegradedTick env w st recovered st')
  then show ?case using degraded_tick_frames degraded_tick_mode by (simp add: sup_inv_def)
next
  case (Shutdown m st)
  then show ?case by (simp add: sup_inv_def shutdownInner_inv)
next
  case (Drain r n st)
  then show ?case by (simp add: sup_inv_def shutdownInner_inv)
qed

lemma init_sup_inv: "sup_inv cf js (Pumping, init_sup p)"
  by (simp add: sup_inv_def frames_ok_def mode_ok_def init_sup_def)

lemma sup_reachable_sup_inv: "sup_reachable cf js x \<Longrightarrow> sup_inv cf js x"
  by (induction rule: sup_reachable.induct) (auto intro: init_sup_inv sup_step_inv)

text \<open>The whole reaction to an exit, with nothing in between, is one of the runs.\<close>

lemma retry_loop_reachable:
  "sup_reachable cf js (Retrying k, st) \<Longrightarrow> k + left = Suc (respawn_attempts cf) \<Longrightarrow> 0 < left \<Longrightarrow>
   sup_reachable cf js
     (case retry_loop cf env cx (respawn_attempts cf) k left st of (r, st') \<Rightarrow> after_retry cf now r st')"
proof (induction left arbitrary: k st)
  case (Suc left)
  let ?a = "retry_attempt cf (env k) (cx_before cx k) (cx_wait cx k) (respawn_attempts cf) k st"
  obtain r st1 where a: "?a = (r, st1)" by fastforce
  show ?case
  proof (cases r)
    case None
    then have "sup_reachable cf js (Retrying (Suc k), st1)" "k \<noteq> respawn_attempts cf"
      using a sup_reachable.Step [OF Suc.prems(1) sup_step.RetryFailed] retry_attempt_goes_on by blast+
    then show ?thesis using Suc.IH [of "Suc k" st1] Suc.prems(2) a None by simp
  next
    case (Some q)
    then show ?thesis using a sup_reachable.Step [OF Suc.prems(1) sup_step.RetryEnded] by simp
  qed
qed simp

lemma inner_exited_reachable:
  assumes "sup_reachable cf js (Pumping, st)"
  shows "sup_reachable cf js (inner_exited cf exitCode env cx now st)"
proof -
  have "sup_reachable cf js (Retrying 1, note_exit exitCode st)"
    by (rule sup_reachable.Step [OF assms sup_step.InnerExit])
  from retry_loop_reachable [OF this, where left = "respawn_attempts cf" and env = env and cx = cx and now = now] respawn_attempts_pos [of cf]
  show ?thesis by (simp add: inner_exited_def respawnWithRetry_def)
qed

section \<open>A concrete session\<close>

text \<open>A codec that knows four lines: the handshake, a call and the answer to the first probe.\<close>

definition sample_js :: jsonlib where
  "sample_js =
     \<lparr>js_init = (\<lambda>l. if l = ''I'' then Some (''initialize'', ''P'')
                   else if l = ''N'' then Some (''initialized'', []) else None),
      js_call = (\<lambda>l. None),
      js_line = (\<lambda>l. if l = ''A'' then Some (''q'', []) else None),
      js_id = (\<lambda>l. if l = ''C'' then Some ''7'' else None),
      js_str = (\<lambda>i. if i = ''q'' then Some (probeIDPrefix @ ''1'') else None)\<rparr>"

definition sample_cf :: config where
  "sample_cf = \<lparr>cf_ProbeTimeout = 0, cf_MaxRestarts = 1, cf_RestartWindow = 10, cf_RespawnQuietWindow = 5,
     cf_RespawnAttempts = 3, cf_ExitOnGiveUp = False\<rparr>"

definition sample_env :: "nat \<Rightarrow> spawn_env" where
  "sample_env p = \<lparr>sp_spawn = Inr p, sp_now = 100, sp_initErr = None, sp_initializedErr = None, sp_emitOk = True\<rparr>"

definition no_binary :: spawn_env where
  "no_binary = \<lparr>sp_spawn = Inl ''start'', sp_now = 100, sp_initErr = None, sp_initializedErr = None, sp_emitOk = True\<rparr>"

definition never :: ctx where
  "never = \<lparr>cx_before = (\<lambda>_. False), cx_wait = (\<lambda>_. False)\<rparr>"

lemmas sample_defs = sample_js_def sample_cf_def sample_env_def no_binary_def never_def init_sup_def


text \<open>The session: a probe goes out, its answer is swallowed, an ordinary line is forwarded.\<close>

definition sample_forwarded :: sup where
  "sample_forwarded =
     inner_line sample_js True 8 ''D'' (inner_line sample_js True 7 ''A'' (sendProbe True 5 (init_sup 0)))"

lemma sample_forwarded_reachable: "sup_reachable sample_cf sample_js (Pumping, sample_forwarded)"
  unfolding sample_forwarded_def
  by (intro sup_reachable.Step [OF _ sup_step.InnerLine] sup_reachable.Step [OF _ sup_step.ProbeTick]
      sup_reachable.Start) (simp add: running_def)


section \<open>No request is dropped\<close>


definition sample_degraded :: "mode \<times> sup" where
  "sample_degraded = inner_exited sample_cf 1 (\<lambda>_. no_binary) never 9 (init_sup 0)"

lemmas exited_defs = inner_exited_def respawnWithRetry_def respawn_attempts_def after_retry_def note_exit_def
  enter_degraded_def recordRestart_def trim_history_def retry_attempt_def

lemma sample_degraded_eval:
  "fst sample_degraded = DegradedMode (Exhausted (FailedAfter 3 ''start''))"
  "s_out (snd sample_degraded) = []"
  by (simp_all add: sample_degraded_def exited_defs numeral_3_eq_3 respawn_def sample_defs)

lemma sample_degraded_reachable:
  "sup_reachable sample_cf sample_js (DegradedMode (Exhausted (FailedAfter 3 ''start'')), snd sample_degraded)"
proof -
  have "sup_reachable sample_cf sample_js sample_degraded"
    unfolding sample_degraded_def by (intro inner_exited_reachable sup_reachable.Start)
  then show ?thesis using sample_degraded_eval(1) by (metis prod.collapse)
qed


section \<open>The circuit breaker\<close>

definition record_all :: "config \<Rightarrow> int list \<Rightarrow> sup \<Rightarrow> sup" where
  "record_all cf ts st = foldl (\<lambda>s t. snd (recordRestart cf t s)) st ts"

definition in_window :: "config \<Rightarrow> int \<Rightarrow> int list \<Rightarrow> int list" where
  "in_window cf now ts = filter (\<lambda>t. now - restart_window cf < t) ts"

text \<open>Trimming forgets only entries that no later count includes.\<close>

lemma record_all_history:
  "sorted (ts @ [now]) \<Longrightarrow> s_history st = [] \<Longrightarrow>
   in_window cf now (s_history (record_all cf ts st)) = in_window cf now ts"
proof (induction ts arbitrary: now rule: rev_induct)
  case (snoc t ts)
  then have "sorted (ts @ [t])" "t \<le> now" by (auto simp: sorted_append)
  then have ih: "in_window cf t (s_history (record_all cf ts st)) = in_window cf t ts"
    using snoc.IH snoc.prems by blast
  have sub: "in_window cf now (in_window cf t xs) = in_window cf now xs" for xs
    using \<open>t \<le> now\<close> by (auto simp: in_window_def intro: filter_cong)
  have "s_history (record_all cf (ts @ [t]) st) = in_window cf t (s_history (record_all cf ts st)) @ [t]"
    by (simp add: record_all_def recordRestart_def trim_history_def in_window_def Let_def)
  then show ?case using sub ih by (simp add: in_window_def)
qed (simp add: record_all_def)

text \<open>
  C32. Recording restarts at any increasing sequence of times, the breaker trips at a restart
  exactly when more than the allowed number of restarts, this one included, lie within the window
  before it, and it reports that number: trimming the history never loses a restart that counts.
\<close>

theorem breaker_counts_window:
  assumes "sorted (ts @ [now])" "s_history st = []"
  shows "fst (recordRestart cf now (record_all cf ts st)) =
    (let n = int (length (in_window cf now ts)) + 1 in if n > max_restarts cf then Some n else None)"
  using record_all_history [OF assms, of cf]
  by (simp add: recordRestart_def trim_history_def in_window_def Let_def)

theorem breaker_counts_window_witness:
  "fst (recordRestart sample_cf 20 (record_all sample_cf [5, 12] (init_sup 0))) = Some 2 \<and>
   fst (recordRestart sample_cf 20 (record_all sample_cf [5, 9] (init_sup 0))) = None"
  using breaker_counts_window [of "[5, 12]" 20 "init_sup 0" sample_cf]
    breaker_counts_window [of "[5, 9]" 20 "init_sup 0" sample_cf]
  by (simp add: in_window_def restart_window_def max_restarts_def sample_defs Let_def)

section \<open>Respawn attempts\<close>

lemma env_ok_cong:
  "s_initParams st = s_initParams st' \<Longrightarrow> s_initializedLine st = s_initializedLine st' \<Longrightarrow>
   env_ok env st = env_ok env st'"
  by (simp add: env_ok_def)

text \<open>One uncancelled attempt, by whether the spawn and the handshake work.\<close>

lemma retry_attempt_ok:
  "env_ok env st \<Longrightarrow>
   \<exists>st' p. retry_attempt cf env False False n k st = (Some None, st') \<and> sp_spawn env = Inr p \<and> s_inner st' = Some p"
  using respawn_iff [of cf env st] respawn_inner [of cf env st]
  by (auto simp: attempt_defs env_ok_def split: prod.splits option.splits)

lemma retry_attempt_fails:
  assumes "\<not> env_ok env st"
  shows "\<exists>st' err. retry_attempt cf env False False n k st =
      (if k = n then Some (Some (FailedAfter n err)) else None, st') \<and> s_inner st' = s_inner st \<and>
      s_initParams st' = s_initParams st \<and> s_initializedLine st' = s_initializedLine st"
proof -
  obtain e st1 where r: "respawn cf env st = (Some e, st1)"
    using assms respawn_iff [of cf env st] by (metis option.exhaust prod.collapse)
  then show ?thesis using respawn_control(4,5) [of cf env st] respawn_inner [of cf env st] assms
    by (simp add: attempt_defs)
qed

definition first_ok :: "(nat \<Rightarrow> spawn_env) \<Rightarrow> sup \<Rightarrow> nat \<Rightarrow> nat \<Rightarrow> nat \<Rightarrow> bool" where
  "first_ok env st a n k \<longleftrightarrow> a \<le> k \<and> k \<le> n \<and> env_ok (env k) st \<and> (\<forall>j. a \<le> j \<longrightarrow> j < k \<longrightarrow> \<not> env_ok (env j) st)"

lemma first_ok_step:
  "\<not> env_ok (env a) st \<Longrightarrow> first_ok env st a n k = first_ok env st (Suc a) n k"
  by (auto simp: first_ok_def) (metis Suc_leI le_neq_implies_less)+

lemma first_ok_cong:
  "s_initParams st = s_initParams st' \<Longrightarrow> s_initializedLine st = s_initializedLine st' \<Longrightarrow>
   first_ok env st = first_ok env st'"
  by (simp add: first_ok_def fun_eq_iff env_ok_def)

lemma retry_loop_outcome:
  assumes "\<And>k. \<not> cx_before cx k" "\<And>k. \<not> cx_wait cx k"
  shows "a + left = Suc n \<Longrightarrow> 0 < left \<Longrightarrow>
    (case retry_loop cf env cx n a left st of
       (None, st') \<Rightarrow> \<exists>k p. first_ok env st a n k \<and> sp_spawn (env k) = Inr p \<and> s_inner st' = Some p
     | (Some e, st') \<Rightarrow> (\<exists>err. e = FailedAfter n err) \<and> (\<nexists>k. first_ok env st a n k) \<and> s_inner st' = s_inner st)"
proof (induction left arbitrary: a st)
  case (Suc left)
  show ?case
  proof (cases "env_ok (env a) st")
    case True
    then obtain st' p where "retry_attempt cf (env a) False False n a st = (Some None, st')"
      "sp_spawn (env a) = Inr p" "s_inner st' = Some p" using retry_attempt_ok by blast
    moreover have "first_ok env st a n a" using True Suc.prems by (simp add: first_ok_def)
    ultimately show ?thesis using assms by auto
  next
    case False
    then obtain st' err where at: "retry_attempt cf (env a) False False n a st =
        (if a = n then Some (Some (FailedAfter n err)) else None, st')" "s_inner st' = s_inner st"
      and same: "s_initParams st = s_initParams st'" "s_initializedLine st = s_initializedLine st'"
      using retry_attempt_fails [of "env a" st cf n a] by auto
    have skip: "first_ok env st a n k = first_ok env st' (Suc a) n k" for k
      using first_ok_step [of env a st, OF False] first_ok_cong [OF same] by simp
    have none: "\<not> first_ok env st' (Suc n) n k" for k by (simp add: first_ok_def)
    show ?thesis
    proof (cases "a = n")
      case True
      then show ?thesis using at assms skip none by simp
    next
      case ne: False
      then have "0 < left" "Suc a + left = Suc n" using Suc.prems by auto
      from Suc.IH [OF this(2,1), of st'] show ?thesis using at ne assms skip by (simp split: prod.splits option.splits)
    qed
  qed
qed simp

text \<open>
  Without cancellation the retries end in one of two ways: some attempt within the configured
  number can spawn a process and replay the handshake, and then the process of the first such
  attempt is the current one; or none can, and then the error names the number of attempts and the
  current process is unchanged.
\<close>

theorem respawnWithRetry_first_success:
  assumes "\<And>k. \<not> cx_before cx k" "\<And>k. \<not> cx_wait cx k"
  shows "case respawnWithRetry cf env cx st of
     (None, st') \<Rightarrow> \<exists>k p. first_ok env st 1 (respawn_attempts cf) k \<and> sp_spawn (env k) = Inr p \<and> s_inner st' = Some p
   | (Some e, st') \<Rightarrow> (\<exists>err. e = FailedAfter (respawn_attempts cf) err) \<and>
       (\<nexists>k. first_ok env st 1 (respawn_attempts cf) k) \<and> s_inner st' = s_inner st"
  using retry_loop_outcome [OF assms, where a = 1 and left = "respawn_attempts cf" and n = "respawn_attempts cf"
        and cf = cf and env = env and st = st]
    respawn_attempts_pos [of cf] by (simp add: respawnWithRetry_def)

theorem respawnWithRetry_first_success_witness:
  "(\<exists>st'. respawnWithRetry sample_cf (\<lambda>k. if k = 2 then sample_env 4 else no_binary) never (init_sup 0) = (None, st')) \<and>
   (\<exists>k p. first_ok (\<lambda>k. if k = 2 then sample_env 4 else no_binary) (init_sup 0) 1 3 k \<and>
      sp_spawn (if k = 2 then sample_env 4 else no_binary) = Inr p \<and>
      s_inner (snd (respawnWithRetry sample_cf (\<lambda>k. if k = 2 then sample_env 4 else no_binary) never (init_sup 0))) = Some p)"
proof -
  let ?env = "\<lambda>k. if k = 2 then sample_env 4 else no_binary"
  have "fst (respawnWithRetry sample_cf ?env never (init_sup 0)) = None"
    by (simp add: exited_defs respawn_defs numeral_3_eq_3 sample_defs)
  then obtain st' where e: "respawnWithRetry sample_cf ?env never (init_sup 0) = (None, st')"
    by (metis prod.collapse)
  have "respawn_attempts sample_cf = 3" by (simp add: respawn_attempts_def sample_defs)
  then show ?thesis
    using e respawnWithRetry_first_success [of never, where cf = sample_cf and env = ?env and st = "init_sup 0"] by (simp add: never_def)
qed

section \<open>A probe that outlives its process\<close>

text \<open>
  The run: a probe is written to the current process, the process exits and is replaced, and only
  then the probe's timer fires.
\<close>

definition probe_then_exit :: "config \<Rightarrow> (nat \<Rightarrow> spawn_env) \<Rightarrow> int \<Rightarrow> int \<Rightarrow> sup \<Rightarrow> mode \<times> sup" where
  "probe_then_exit cf env t now st = inner_exited cf 0 env never now (sendProbe True t st)"

lemma retry_first_attempt:
  "env_ok (env 1) st \<Longrightarrow> respawnWithRetry cf env never st = (None, snd (respawn cf (env 1) st))"
  using respawn_iff [of cf "env 1" st] respawn_attempts_pos [of cf]
  by (cases "respawn_attempts cf")
    (auto simp: respawnWithRetry_def retry_attempt_def never_def split: prod.splits option.splits)

lemma respawn_ok_state:
  "env_ok env st \<Longrightarrow> sp_spawn env = Inr p \<Longrightarrow>
   s_inner (snd (respawn cf env st)) = Some p \<and> s_wrote (snd (respawn cf env st)) = s_wrote st @ handshake p st \<and>
   s_killed (snd (respawn cf env st)) = s_killed st \<and> s_timers (snd (respawn cf env st)) = s_timers st \<and>
   s_pendingProbe (snd (respawn cf env st)) = s_pendingProbe st"
  by (auto simp: respawn_defs env_ok_def handshake_def split: option.splits if_splits sum.splits)

lemma sendProbe_state:
  assumes "s_pendingProbe st = None" "s_inner st = Some p0"
  shows "sendProbe True t st = st\<lparr>s_probeIDCounter := s_probeIDCounter st + 1,
      s_pendingProbe := Some \<lparr>pr_id = s_probeIDCounter st + 1, pr_sentAt = t\<rparr>,
      s_wrote := s_wrote st @ [(p0, probe_line (s_probeIDCounter st + 1))],
      s_ProbesSent := s_ProbesSent st + 1,
      s_timers := s_timers st @ [\<lparr>pr_id = s_probeIDCounter st + 1, pr_sentAt = t\<rparr>]\<rparr>"
  using assms by (simp add: sendProbe_def writeToInner_def Let_def)

lemma probe_then_exit_state:
  assumes "s_pendingProbe st = None" "s_inner st = Some p0" "env_ok (env 1) st" "sp_spawn (env 1) = Inr p1"
    and "fst (recordRestart cf now st) = None"
  shows "\<exists>st1 p. probe_then_exit cf env t now st = (Pumping, st1) \<and> s_inner st1 = Some p1 \<and>
     s_wrote st1 = s_wrote st @ [(p0, probe_line (s_probeIDCounter st + 1))] @ handshake p1 st \<and>
     s_killed st1 = s_killed st \<and> s_pendingProbe st1 = Some p \<and> p \<in> set (s_timers st1)"
proof -
  define s1 where "s1 = note_exit 0 (sendProbe True t st)"
  have s1: "env_ok (env 1) s1" "s_history s1 = s_history st" "s_killed s1 = s_killed st"
    "handshake p1 s1 = handshake p1 st" "s_wrote s1 = s_wrote st @ [(p0, probe_line (s_probeIDCounter st + 1))]"
    "s_pendingProbe s1 = Some \<lparr>pr_id = s_probeIDCounter st + 1, pr_sentAt = t\<rparr>"
    "\<lparr>pr_id = s_probeIDCounter st + 1, pr_sentAt = t\<rparr> \<in> set (s_timers s1)"
    using assms(3) by (simp_all add: s1_def note_exit_def sendProbe_state [OF assms(1,2)] env_ok_def handshake_def)
  have tr: "fst (recordRestart cf now s) = None" if "s_history s = s_history st" for s
    using assms(5) that by (simp add: recordRestart_def Let_def split: if_splits)
  have "probe_then_exit cf env t now st = after_retry cf now None (snd (respawn cf (env 1) s1))"
    using retry_first_attempt [of env s1 cf] s1(1) by (simp add: probe_then_exit_def inner_exited_def s1_def)
  moreover have "s_history (snd (respawn cf (env 1) s1)) = s_history st" using respawn_control(3) s1(2) by simp
  ultimately show ?thesis
    using respawn_ok_state [OF s1(1) assms(4), of cf] s1 tr
    by (auto simp: after_retry_def recordRestart_def Let_def split: if_splits option.splits)
qed

text \<open>
  A probe timeout can kill a process that was never probed.  In any reachable state with no
  probe pending and the breaker closed, a probe sent just before the process exits stays pending
  across the respawn; when its timer fires, the new process is killed although the only probe was
  written to the old one and the new one received nothing but its handshake.
\<close>

theorem stale_probe_kills_new_inner:
  assumes "sup_reachable cf js (Pumping, st)" "s_pendingProbe st = None" "s_inner st = Some p0"
    and "env_ok env st" "sp_spawn env = Inr p1" "fst (recordRestart cf now st) = None"
  shows "\<exists>st'. sup_reachable cf js (Pumping, st') \<and> s_inner st' = Some p1 \<and> s_killed st' = s_killed st @ [p1] \<and>
     s_wrote st' = s_wrote st @ [(p0, probe_line (s_probeIDCounter st + 1))] @ handshake p1 st"
proof -
  obtain st1 p where st1: "probe_then_exit cf (\<lambda>_. env) now now st = (Pumping, st1)" "s_inner st1 = Some p1"
    "s_wrote st1 = s_wrote st @ [(p0, probe_line (s_probeIDCounter st + 1))] @ handshake p1 st"
    "s_killed st1 = s_killed st" "s_pendingProbe st1 = Some p" "p \<in> set (s_timers st1)"
    using probe_then_exit_state [of st p0 "\<lambda>_. env" p1 cf now now] assms(2-6) by auto
  have "sup_reachable cf js (Pumping, sendProbe True now st)"
    by (rule sup_reachable.Step [OF assms(1) sup_step.ProbeTick]) (simp add: running_def)
  then have "sup_reachable cf js (probe_then_exit cf (\<lambda>_. env) now now st)"
    unfolding probe_then_exit_def by (rule inner_exited_reachable)
  then have "sup_reachable cf js (Pumping, probe_timeout p st1)"
    unfolding st1(1) by (rule sup_reachable.Step) (rule sup_step.ProbeTimeout, simp_all add: running_def st1)
  then show ?thesis using st1 by (intro exI [of _ "probe_timeout p st1"]) (simp add: handler_defs)
qed

theorem stale_probe_kills_new_inner_witness:
  "\<exists>st'. sup_reachable sample_cf sample_js (Pumping, st') \<and> s_inner st' = Some 1 \<and> s_killed st' = [1] \<and>
     s_wrote st' = [(0, probe_line 1)]"
  using stale_probe_kills_new_inner [OF sup_reachable.Start, of 0 0 "sample_env 1" 1 sample_cf 9 sample_js]
  by (simp add: env_ok_def recordRestart_def trim_history_def max_restarts_def handshake_def sample_defs)

end
