(* ===== verification/Index_Lock.thy ===== *)
theory Index_Lock
  imports Pincher_Prelude
begin

text \<open>
  The cross-process project lock (\<^verbatim>\<open>internal/index/lockfile.go\<close>) and the reaper of orphaned locks
  (\<^verbatim>\<open>internal/index/orphan.go\<close>).  The world is the lock directory, the clock and the process table.
  A file has an inode: a process that created a file still writes to it after another process has
  removed its name.  \<^verbatim>\<open>encoding/json\<close>, the hash and the lookup of executables are parameters;
  the operating system may refuse every call.  Paths are Unix paths and the lock directory,
  \<^verbatim>\<open>filepath.Join(dataDir, "locks")\<close>, is an argument.
\<close>

section \<open>Data\<close>

record lockInfo =
  li_PID :: int
  li_StartTime :: int
  li_ProjectID :: string
  li_BinaryVersion :: string

record lfile =
  lf_ino :: nat
  lf_data :: string
  lf_mtime :: int

datatype sigres = SigOk | SigEPERM | SigErr

record world =
  w_files :: "string \<rightharpoonup> lfile"
  w_nextIno :: nat
  w_now :: int
  w_find :: "int \<Rightarrow> bool"
  w_signal :: "int \<Rightarrow> sigres"

text \<open>Decoding yields what was decoded and whether there was an error; the hash is printed in hex.\<close>

record oslib =
  os_hash :: "string \<Rightarrow> string"
  os_marshal :: "lockInfo \<Rightarrow> string"
  os_unmarshal :: "string \<Rightarrow> lockInfo \<times> bool"
  os_windows :: bool

record io =
  io_mkdirErr :: "string option"
  io_openErr :: "nat \<Rightarrow> string option"
  io_writeErr :: "string option"
  io_statErr :: bool
  io_readErr :: "string \<Rightarrow> bool"
  io_removeOk :: "string \<Rightarrow> bool"

definition zero_info :: lockInfo where
  "zero_info = \<lparr>li_PID = 0, li_StartTime = 0, li_ProjectID = [], li_BinaryVersion = []\<rparr>"

datatype holder_text = Holder lockInfo | HolderVersion lockInfo | HolderSkew lockInfo string

datatype lock_err =
    MkdirErr string | WriteErr string | CreateErr string | AlreadyIndexed string holder_text | ExhaustedRetries

section \<open>Acquiring and releasing\<close>

text \<open>Seconds.\<close>

definition lockStaleAge :: int where "lockStaleAge = 24 * 60 * 60"

definition projectLockPath :: "oslib \<Rightarrow> string \<Rightarrow> string \<Rightarrow> string" where
  "projectLockPath lib lockDir projectID = lockDir @ ''/'' @ os_hash lib projectID @ ''.lock''"

definition processExists :: "oslib \<Rightarrow> world \<Rightarrow> int \<Rightarrow> bool" where
  "processExists lib w pid \<longleftrightarrow>
     (if pid \<le> 0 then False else if \<not> w_find w pid then False else if os_windows lib then True
      else w_signal w pid = SigOk \<or> w_signal w pid = SigEPERM)"

definition readLockInfo :: "io \<Rightarrow> oslib \<Rightarrow> world \<Rightarrow> string \<Rightarrow> lockInfo \<times> bool" where
  "readLockInfo io lib w path =
     (case w_files w path of
        None \<Rightarrow> (zero_info, True)
      | Some f \<Rightarrow> (if io_readErr io path then (zero_info, True) else os_unmarshal lib (lf_data f)))"

definition isStaleLockfile :: "io \<Rightarrow> oslib \<Rightarrow> world \<Rightarrow> string \<Rightarrow> bool" where
  "isStaleLockfile io lib w path \<longleftrightarrow>
     (case w_files w path of
        None \<Rightarrow> False
      | Some f \<Rightarrow>
          (if io_statErr io then False
           else if w_now w - lf_mtime f > lockStaleAge then True
           else let (info, err) = readLockInfo io lib w path in
             if err then True else \<not> processExists lib w (li_PID info)))"

definition remove_file :: "string \<Rightarrow> world \<Rightarrow> world" where
  "remove_file path w = w\<lparr>w_files := (w_files w)(path := None)\<rparr>"

definition remove :: "io \<Rightarrow> string \<Rightarrow> world \<Rightarrow> world" where
  "remove io path w = (if io_removeOk io path then remove_file path w else w)"

text \<open>\<^verbatim>\<open>O_CREATE|O_EXCL\<close> makes an empty file; the payload is written to the inode it made.\<close>

definition create_file :: "string \<Rightarrow> world \<Rightarrow> nat \<times> world" where
  "create_file path w =
     (w_nextIno w,
      w\<lparr>w_files := (w_files w)(path \<mapsto> \<lparr>lf_ino = w_nextIno w, lf_data = [], lf_mtime = w_now w\<rparr>),
        w_nextIno := Suc (w_nextIno w)\<rparr>)"

definition write_file :: "string \<Rightarrow> nat \<Rightarrow> string \<Rightarrow> world \<Rightarrow> world" where
  "write_file path ino data w =
     (case w_files w path of
        None \<Rightarrow> w
      | Some f \<Rightarrow>
          (if lf_ino f = ino then w\<lparr>w_files := (w_files w)(path \<mapsto> f\<lparr>lf_data := data, lf_mtime := w_now w\<rparr>)\<rparr> else w))"

definition describeLockHolder :: "lockInfo \<Rightarrow> string \<Rightarrow> holder_text" where
  "describeLockHolder holder callerBinaryVersion =
     (if li_BinaryVersion holder = [] then Holder holder
      else if callerBinaryVersion \<noteq> [] \<and> li_BinaryVersion holder \<noteq> callerBinaryVersion
      then HolderSkew holder callerBinaryVersion
      else HolderVersion holder)"

fun acquire_loop :: "io \<Rightarrow> oslib \<Rightarrow> string \<Rightarrow> string \<Rightarrow> string \<Rightarrow> string \<Rightarrow> nat \<Rightarrow> nat \<Rightarrow> world \<Rightarrow>
    (lock_err + string) \<times> world" where
  "acquire_loop io lib path payload projectID ver attempt 0 w = (Inl ExhaustedRetries, w)"
| "acquire_loop io lib path payload projectID ver attempt (Suc left) w =
     (case io_openErr io attempt of
        Some e \<Rightarrow> (Inl (CreateErr e), w)
      | None \<Rightarrow>
          (if w_files w path = None
           then (let (ino, w1) = create_file path w in
                 case io_writeErr io of
                   Some e \<Rightarrow> (Inl (WriteErr e), remove io path w1)
                 | None \<Rightarrow> (Inr path, write_file path ino payload w1))
           else if attempt = 0 \<and> isStaleLockfile io lib w path
           then acquire_loop io lib path payload projectID ver (Suc attempt) left (remove io path w)
           else (Inl (AlreadyIndexed projectID (describeLockHolder (fst (readLockInfo io lib w path)) ver)), w)))"

definition own_info :: "int \<Rightarrow> string \<Rightarrow> string \<Rightarrow> world \<Rightarrow> lockInfo" where
  "own_info pid projectID ver w =
     \<lparr>li_PID = pid, li_StartTime = w_now w, li_ProjectID = projectID, li_BinaryVersion = ver\<rparr>"

text \<open>The result is an error or the path that the release function removes.\<close>

definition acquireProjectLock :: "io \<Rightarrow> oslib \<Rightarrow> int \<Rightarrow> string \<Rightarrow> string \<Rightarrow> string \<Rightarrow> world \<Rightarrow>
    (lock_err + string) \<times> world" where
  "acquireProjectLock io lib pid lockDir projectID ver w =
     (case io_mkdirErr io of
        Some e \<Rightarrow> (Inl (MkdirErr e), w)
      | None \<Rightarrow>
          acquire_loop io lib (projectLockPath lib lockDir projectID)
            (os_marshal lib (own_info pid projectID ver w)) projectID ver 0 2 w)"

definition release :: "io \<Rightarrow> string \<Rightarrow> world \<Rightarrow> world" where
  "release io path w = remove io path w"

section \<open>Listing live holders\<close>

datatype direrr = DirMissing | DirErr string

record dirent =
  de_name :: string
  de_isDir :: bool

definition ext :: "string \<Rightarrow> string" where
  "ext name = (if CHR ''.'' \<in> set name then CHR ''.'' # rev (takeWhile (\<lambda>c. c \<noteq> CHR ''.'') (rev name)) else [])"

definition LiveLockHolders :: "io \<Rightarrow> oslib \<Rightarrow> string \<Rightarrow> direrr + dirent list \<Rightarrow> world \<Rightarrow> string + lockInfo list" where
  "LiveLockHolders io lib lockDir entries w =
     (case entries of
        Inl DirMissing \<Rightarrow> Inr []
      | Inl (DirErr e) \<Rightarrow> Inl e
      | Inr es \<Rightarrow>
          Inr (List.map_filter (\<lambda>e.
            if de_isDir e \<or> ext (de_name e) \<noteq> ''.lock'' then None
            else let (info, err) = readLockInfo io lib w (lockDir @ ''/'' @ de_name e) in
              if err \<or> \<not> processExists lib w (li_PID info) then None else Some info) es))"

section \<open>Reaping orphans\<close>

record orphanKill =
  ok_PID :: int
  ok_ProjectID :: string
  ok_BinaryVersion :: string
  ok_LockPath :: string

record reapResult =
  rr_Scanned :: int
  rr_StaleRemoved :: "string list"
  rr_OrphansFound :: "orphanKill list"
  rr_Killed :: bool
  rr_SkippedLive :: "string list"
  rr_Unverifiable :: "string list"

text \<open>\<^verbatim>\<open>filepath.Base\<close> on Unix.\<close>

definition base :: "string \<Rightarrow> string" where
  "base p =
     (if p = [] then ''.''
      else let q = rev (dropWhile (\<lambda>c. c = CHR ''/'') (rev p)) in
        if q = [] then ''/'' else rev (takeWhile (\<lambda>c. c \<noteq> CHR ''/'') (rev q)))"

definition looksLikePincher :: "string \<Rightarrow> bool" where
  "looksLikePincher exePath \<longleftrightarrow> contains (to_lower (base exePath)) ''pincher''"

text \<open>
  One entry of the scan.  \<open>exe\<close> looks up the executable of a process, \<^term>\<open>None\<close> on error.  The
  last component is the list of processes killed so far; a killed process is still in the process
  table while the scan goes on.
\<close>

type_synonym reap = "reapResult \<times> world \<times> int list"

definition reap_stale :: "io \<Rightarrow> string \<Rightarrow> reap \<Rightarrow> reap" where
  "reap_stale io path s =
     (let (res, w, killed) = s in
      (res\<lparr>rr_StaleRemoved := rr_StaleRemoved res @ [path]\<rparr>, remove io path w, killed))"

definition skewed :: "lockInfo \<Rightarrow> string \<Rightarrow> bool" where
  "skewed info currentVersion \<longleftrightarrow>
     li_BinaryVersion info \<noteq> [] \<and> currentVersion \<noteq> [] \<and> li_BinaryVersion info \<noteq> currentVersion"

definition reap_orphan :: "io \<Rightarrow> bool \<Rightarrow> string \<Rightarrow> lockInfo \<Rightarrow> reap \<Rightarrow> reap" where
  "reap_orphan io killOrphans path info s =
     (let (res, w, killed) = s;
          res1 = res\<lparr>rr_OrphansFound := rr_OrphansFound res @
            [\<lparr>ok_PID = li_PID info, ok_ProjectID = li_ProjectID info, ok_BinaryVersion = li_BinaryVersion info,
              ok_LockPath = path\<rparr>]\<rparr>
      in if killOrphans then (res1, remove io path w, killed @ [li_PID info]) else (res1, w, killed))"

definition reap_entry :: "io \<Rightarrow> oslib \<Rightarrow> (int \<Rightarrow> string option) \<Rightarrow> string \<Rightarrow> string \<Rightarrow> bool \<Rightarrow> reap \<Rightarrow> dirent \<Rightarrow> reap" where
  "reap_entry io lib exe lockDir currentVersion killOrphans s e =
     (if de_isDir e \<or> \<not> has_suffix (de_name e) ''.lock'' then s
      else
        let (res0, w, killed) = s; res = res0\<lparr>rr_Scanned := rr_Scanned res0 + 1\<rparr>;
            path = lockDir @ ''/'' @ de_name e; (info, err) = readLockInfo io lib w path
        in if err then reap_stale io path (res, w, killed)
           else if \<not> processExists lib w (li_PID info) then reap_stale io path (res, w, killed)
           else case exe (li_PID info) of
             None \<Rightarrow> (res\<lparr>rr_Unverifiable := rr_Unverifiable res @ [path]\<rparr>, w, killed)
           | Some x \<Rightarrow>
               (if \<not> looksLikePincher x then reap_stale io path (res, w, killed)
                else if \<not> skewed info currentVersion
                then (res\<lparr>rr_SkippedLive := rr_SkippedLive res @ [path]\<rparr>, w, killed)
                else reap_orphan io killOrphans path info (res, w, killed)))"

definition ReapOrphanLocks :: "io \<Rightarrow> oslib \<Rightarrow> (int \<Rightarrow> string option) \<Rightarrow> string \<Rightarrow> direrr + dirent list \<Rightarrow> string \<Rightarrow> bool \<Rightarrow>
    world \<Rightarrow> string option \<times> reap" where
  "ReapOrphanLocks io lib exe lockDir entries currentVersion killOrphans w =
     (let res = \<lparr>rr_Scanned = 0, rr_StaleRemoved = [], rr_OrphansFound = [], rr_Killed = killOrphans,
                 rr_SkippedLive = [], rr_Unverifiable = []\<rparr>
      in case entries of
        Inl DirMissing \<Rightarrow> (None, res, w, [])
      | Inl (DirErr e) \<Rightarrow> (Some e, res, w, [])
      | Inr es \<Rightarrow>
          (None, foldl (reap_entry io lib exe lockDir currentVersion killOrphans) (res, w, []) es))"

section \<open>Concurrent acquirers\<close>

text \<open>
  Several processes run \<^verbatim>\<open>acquireProjectLock\<close> on one path, one system call at a time, with no
  other fault.  \<open>Opening k\<close> is about to open the file in attempt \<open>k\<close>; \<open>Stating\<close> and \<open>Reading\<close> are
  the two calls of the staleness test; \<open>Reclaiming\<close> has decided to remove the file.
\<close>

datatype pc = Opening nat | Stating | Reading | Reclaiming | Writing nat | Held nat | Failed | Released

definition quiet_io :: io where
  "quiet_io = \<lparr>io_mkdirErr = None, io_openErr = (\<lambda>_. None), io_writeErr = None, io_statErr = False,
     io_readErr = (\<lambda>_. False), io_removeOk = (\<lambda>_. True)\<rparr>"

fun call :: "oslib \<Rightarrow> string \<Rightarrow> string \<Rightarrow> pc \<Rightarrow> world \<Rightarrow> pc \<times> world" where
  "call lib path payload (Opening k) w =
     (if w_files w path = None then (let (ino, w1) = create_file path w in (Writing ino, w1))
      else if k = 0 then (Stating, w) else (Failed, w))"
| "call lib path payload Stating w =
     (case w_files w path of
        None \<Rightarrow> (Failed, w)
      | Some f \<Rightarrow> (if w_now w - lf_mtime f > lockStaleAge then Reclaiming else Reading, w))"
| "call lib path payload Reading w =
     (let (info, err) = readLockInfo quiet_io lib w path in
      (if err then Reclaiming else if processExists lib w (li_PID info) then Failed else Reclaiming, w))"
| "call lib path payload Reclaiming w = (Opening 1, remove_file path w)"
| "call lib path payload (Writing ino) w = (Held ino, write_file path ino payload w)"
| "call lib path payload pc w = (pc, w)"

record lsys =
  ls_pc :: "int \<Rightarrow> pc"
  ls_world :: world

datatype act = Call int | Release int | Elapse nat

text \<open>A release removes the path, whoever's file it is.\<close>

fun lock_act :: "oslib \<Rightarrow> string \<Rightarrow> (int \<Rightarrow> string) \<Rightarrow> act \<Rightarrow> lsys \<Rightarrow> lsys" where
  "lock_act lib path payload (Call p) s =
     (let (pc', w') = call lib path (payload p) (ls_pc s p) (ls_world s) in
      s\<lparr>ls_pc := (ls_pc s)(p := pc'), ls_world := w'\<rparr>)"
| "lock_act lib path payload (Release p) s =
     (case ls_pc s p of
        Held _ \<Rightarrow> s\<lparr>ls_pc := (ls_pc s)(p := Released), ls_world := release quiet_io path (ls_world s)\<rparr>
      | _ \<Rightarrow> s)"
| "lock_act lib path payload (Elapse n) s =
     s\<lparr>ls_world := (ls_world s)\<lparr>w_now := w_now (ls_world s) + int n\<rparr>\<rparr>"

fun lock_run :: "oslib \<Rightarrow> string \<Rightarrow> (int \<Rightarrow> string) \<Rightarrow> act list \<Rightarrow> lsys \<Rightarrow> lsys" where
  "lock_run lib path payload [] s = s"
| "lock_run lib path payload (a # as) s = lock_run lib path payload as (lock_act lib path payload a s)"

end
