(* ===== verification/Index_Lock_Props.thy ===== *)
theory Index_Lock_Props
  imports Index_Lock
begin

text \<open>
  What the project lock promises: a live holder excludes other indexers until it releases, every
  run in which nobody reclaims a lock keeps at most one owner, and the reaper kills only what it
  has confirmed.  The last section shows how two processes come to hold the lock at once.
\<close>

section \<open>One acquirer\<close>

definition lock_available :: "oslib \<Rightarrow> world \<Rightarrow> string \<Rightarrow> bool" where
  "lock_available lib w path \<longleftrightarrow> w_files w path = None \<or> isStaleLockfile quiet_io lib w path"

definition locked :: "string \<Rightarrow> string \<Rightarrow> world \<Rightarrow> world" where
  "locked path payload w =
     w\<lparr>w_files := (w_files w)(path \<mapsto> \<lparr>lf_ino = w_nextIno w, lf_data = payload, lf_mtime = w_now w\<rparr>),
       w_nextIno := Suc (w_nextIno w)\<rparr>"

lemma create_then_write:
  "write_file path (w_nextIno w) payload (snd (create_file path w)) = locked path payload w"
  by (simp add: create_file_def write_file_def locked_def)

lemma locked_remove: "locked path payload (remove_file path w) = locked path payload w"
  by (simp add: locked_def remove_file_def)

text \<open>The whole of \<^verbatim>\<open>acquireProjectLock\<close> when the system refuses no call.\<close>

lemma acquire_loop_outcome:
  "acquire_loop quiet_io lib path payload projectID ver 0 2 w =
     (if lock_available lib w path then (Inr path, locked path payload w)
      else (Inl (AlreadyIndexed projectID (describeLockHolder (fst (readLockInfo quiet_io lib w path)) ver)), w))"
proof -
  have io: "io_openErr quiet_io k = None" "io_writeErr quiet_io = None" "remove quiet_io path w = remove_file path w" for k w
    by (simp_all add: quiet_io_def remove_def)
  have made: "(case create_file path w of (ino, w1) \<Rightarrow> (Inr path, write_file path ino payload w1)) =
      (Inr path, locked path payload w)" for w :: world
    using create_then_write [of path w payload] by (simp add: create_file_def)
  have gone: "w_files (remove_file path w) path = None" by (simp add: remove_file_def)
  show ?thesis using made gone by (auto simp: numeral_2_eq_2 io lock_available_def locked_remove)
qed

lemma acquire_outcome:
  "acquireProjectLock quiet_io lib pid lockDir projectID ver w =
     (let path = projectLockPath lib lockDir projectID in
      if lock_available lib w path
      then (Inr path, locked path (os_marshal lib (own_info pid projectID ver w)) w)
      else (Inl (AlreadyIndexed projectID (describeLockHolder (fst (readLockInfo quiet_io lib w path)) ver)), w))"
proof -
  have "io_mkdirErr quiet_io = None" by (simp add: quiet_io_def)
  then show ?thesis by (simp add: acquireProjectLock_def acquire_loop_outcome Let_def)
qed

lemma processExists_cong:
  "w_find w' = w_find w \<Longrightarrow> w_signal w' = w_signal w \<Longrightarrow> processExists lib w' pid = processExists lib w pid"
  by (simp add: processExists_def)

text \<open>
  A process that acquired the lock excludes every later acquirer for as long as it lives and
  the lock is younger than a day: the other call fails, names the holder and changes nothing.  Once
  the lock is released the next call succeeds.
\<close>

theorem lock_excludes_until_release:
  assumes "os_unmarshal lib (os_marshal lib (own_info p projectID ver w)) = (own_info p projectID ver w, False)"
    and "acquireProjectLock quiet_io lib p lockDir projectID ver w = (Inr path, w1)"
    and "processExists lib w p" and "d \<le> lockStaleAge"
  shows "let w2 = w1\<lparr>w_now := w_now w1 + d\<rparr> in
      acquireProjectLock quiet_io lib q lockDir projectID ver' w2 =
        (Inl (AlreadyIndexed projectID (describeLockHolder (own_info p projectID ver w) ver')), w2) \<and>
      fst (acquireProjectLock quiet_io lib q lockDir projectID ver' (release quiet_io path w2)) = Inr path"
proof -
  define payload where "payload = os_marshal lib (own_info p projectID ver w)"
  define w2 where "w2 = w1\<lparr>w_now := w_now w1 + d\<rparr>"
  have path: "path = projectLockPath lib lockDir projectID" and w1: "w1 = locked path payload w"
    using assms(2) by (auto simp: acquire_outcome Let_def payload_def split: if_splits)
  have read: "readLockInfo quiet_io lib w2 path = (own_info p projectID ver w, False)"
    using assms(1) by (simp add: w2_def w1 locked_def readLockInfo_def quiet_io_def payload_def)
  have "processExists lib w2 p" using assms(3) processExists_cong [of w2 w] by (simp add: w2_def w1 locked_def)
  then have "\<not> lock_available lib w2 path"
    using assms(4) read
    by (simp add: lock_available_def isStaleLockfile_def quiet_io_def) (simp add: w2_def w1 locked_def own_info_def)
  moreover have "lock_available lib (release quiet_io path w2) path"
    by (simp add: lock_available_def release_def remove_def remove_file_def quiet_io_def)
  ultimately show ?thesis
    using read by (simp add: acquire_outcome Let_def path [symmetric] w2_def [symmetric])
qed

text \<open>Two processes and a codec that knows the payload of each.\<close>

definition sample_info :: "int \<Rightarrow> lockInfo" where
  "sample_info p = \<lparr>li_PID = p, li_StartTime = 100, li_ProjectID = ''P'', li_BinaryVersion = ''v1''\<rparr>"

definition sample_lib :: oslib where
  "sample_lib =
     \<lparr>os_hash = (\<lambda>_. ''0''), os_marshal = (\<lambda>i. if li_PID i = 1 then ''one'' else ''two''),
      os_unmarshal = (\<lambda>s. if s = ''one'' then (sample_info 1, False) else if s = ''two'' then (sample_info 2, False)
                          else (zero_info, True)),
      os_windows = False\<rparr>"

definition sample_world :: world where
  "sample_world = \<lparr>w_files = Map.empty, w_nextIno = 0, w_now = 100, w_find = (\<lambda>_. True), w_signal = (\<lambda>_. SigOk)\<rparr>"

lemmas sample_lock_defs = sample_info_def sample_lib_def sample_world_def

theorem lock_excludes_until_release_witness:
  "\<exists>w2. acquireProjectLock quiet_io sample_lib 2 ''d'' ''P'' ''v2'' w2 =
     (Inl (AlreadyIndexed ''P'' (HolderSkew (sample_info 1) ''v2'')), w2)"
proof -
  let ?w1 = "snd (acquireProjectLock quiet_io sample_lib 1 ''d'' ''P'' ''v1'' sample_world)"
  have own: "own_info 1 ''P'' ''v1'' sample_world = sample_info 1"
    by (simp add: own_info_def sample_lock_defs)
  have a: "acquireProjectLock quiet_io sample_lib 1 ''d'' ''P'' ''v1'' sample_world = (Inr ''d/0.lock'', ?w1)"
    by (simp add: acquire_outcome Let_def lock_available_def projectLockPath_def sample_lib_def sample_world_def)
  have "os_unmarshal sample_lib (os_marshal sample_lib (sample_info 1)) = (sample_info 1, False)"
    "processExists sample_lib sample_world 1"
    by (simp_all add: sample_lock_defs processExists_def)
  from lock_excludes_until_release [of sample_lib 1 "''P''" "''v1''" sample_world, unfolded own, OF this(1) a this(2), of 60 2 "''v2''"]
  show ?thesis by (auto simp: Let_def lockStaleAge_def describeLockHolder_def sample_info_def)
qed

section \<open>One acquirer, call by call\<close>

definition call_pair :: "oslib \<Rightarrow> string \<Rightarrow> string \<Rightarrow> pc \<times> world \<Rightarrow> pc \<times> world" where
  "call_pair lib path payload s = call lib path payload (fst s) (snd s)"

text \<open>Left alone, the sequence of system calls does what the function does.\<close>

lemma calls_are_acquire:
  "(call_pair lib path payload ^^ 6) (Opening 0, w) =
     (if lock_available lib w path then (Held (w_nextIno w), locked path payload w) else (Failed, w))"
proof -
  have fin: "(call_pair lib path payload ^^ n) (Failed, w) = (Failed, w)"
    "(call_pair lib path payload ^^ n) (Held i, w) = (Held i, w)" for n i w
    by (induction n) (simp_all add: call_pair_def)
  have step: "(call_pair lib path payload ^^ Suc n) s = (call_pair lib path payload ^^ n) (call_pair lib path payload s)" for n s
    by (simp add: funpow_swap1)
  have open_free: "(call_pair lib path payload ^^ Suc (Suc n)) (Opening k, w) = (Held (w_nextIno w), locked path payload w)"
    if "w_files w path = None" for n k w
    using that create_then_write [of path w payload] fin(2)
    by (simp only: step) (simp add: call_pair_def create_file_def)
  have reclaim: "(call_pair lib path payload ^^ Suc (Suc (Suc n))) (Reclaiming, w) = (Held (w_nextIno w), locked path payload w)" for n
  proof -
    have "w_files (remove_file path w) path = None" "w_nextIno (remove_file path w) = w_nextIno w"
      by (simp_all add: remove_file_def)
    then show ?thesis
      using open_free [of "remove_file path w" n 1]
      by (subst step) (simp add: call_pair_def [of _ _ _ "(Reclaiming, w)"] locked_remove del: funpow.simps)
  qed
  have six: "(6 :: nat) = Suc (Suc (Suc (Suc (Suc (Suc 0)))))" by simp
  show ?thesis
  proof (cases "w_files w path")
    case None
    then show ?thesis unfolding six by (simp add: open_free lock_available_def del: funpow.simps)
  next
    case (Some f)
    then have "(call_pair lib path payload ^^ 6) (Opening 0, w) = (call_pair lib path payload ^^ Suc (Suc (Suc (Suc (Suc 0))))) (Stating, w)"
      unfolding six by (subst step) (simp add: call_pair_def)
    moreover have "call_pair lib path payload (Stating, w) = (if w_now w - lf_mtime f > lockStaleAge then Reclaiming else Reading, w)"
      using Some by (simp add: call_pair_def)
    moreover have "call_pair lib path payload (Reading, w) =
        (if isStaleLockfile quiet_io lib w path then Reclaiming else Failed, w)" if "\<not> w_now w - lf_mtime f > lockStaleAge"
      using Some that by (auto simp: call_pair_def isStaleLockfile_def quiet_io_def split: prod.splits)
    moreover have "isStaleLockfile quiet_io lib w path" if "w_now w - lf_mtime f > lockStaleAge"
      using Some that by (simp add: isStaleLockfile_def quiet_io_def)
    ultimately show ?thesis
      using Some reclaim [of 0] reclaim [of "Suc 0"] fin(1) [of "Suc 0"]
      by (auto simp: lock_available_def step funpow_0 simp del: funpow.simps)
  qed
qed

section \<open>Concurrent acquirers\<close>

definition owns :: "lsys \<Rightarrow> int \<Rightarrow> nat \<Rightarrow> bool" where
  "owns s p i \<longleftrightarrow> ls_pc s p = Writing i \<or> ls_pc s p = Held i"

definition start_sys :: "world \<Rightarrow> lsys" where
  "start_sys w = \<lparr>ls_pc = (\<lambda>_. Opening 0), ls_world = w\<rparr>"

text \<open>In a calm run nobody carries out a decision to reclaim.\<close>

fun calm :: "oslib \<Rightarrow> string \<Rightarrow> (int \<Rightarrow> string) \<Rightarrow> act list \<Rightarrow> lsys \<Rightarrow> bool" where
  "calm lib path payload [] s \<longleftrightarrow> True"
| "calm lib path payload (a # as) s \<longleftrightarrow>
     (case a of Call p \<Rightarrow> ls_pc s p \<noteq> Reclaiming | _ \<Rightarrow> True) \<and> calm lib path payload as (lock_act lib path payload a s)"

text \<open>The invariant: an owner's file is the one at the path, and it has no other owner.\<close>

definition one_owner :: "string \<Rightarrow> lsys \<Rightarrow> bool" where
  "one_owner path s \<longleftrightarrow>
     (\<forall>p i. owns s p i \<longrightarrow> (\<exists>f. w_files (ls_world s) path = Some f \<and> lf_ino f = i)) \<and>
     (\<forall>p q i. owns s p i \<longrightarrow> owns s q i \<longrightarrow> p = q)"

lemma call_one_owner:
  assumes "one_owner path s" "ls_pc s p \<noteq> Reclaiming"
  shows "one_owner path (lock_act lib path payload (Call p) s)"
proof (cases "ls_pc s p")
  case (Opening k)
  show ?thesis
  proof (cases "w_files (ls_world s) path")
    case None
    then have "\<not> owns s q i" for q i using assms(1) by (auto simp: one_owner_def)
    then show ?thesis using Opening None by (auto simp: one_owner_def owns_def create_file_def)
  next
    case (Some f)
    then show ?thesis using Opening assms(1) by (auto simp: one_owner_def owns_def)
  qed
next
  case (Writing i)
  then have "\<exists>f. w_files (ls_world s) path = Some f \<and> lf_ino f = i" using assms(1) by (auto simp: one_owner_def owns_def)
  then obtain f where f: "w_files (ls_world s) path = Some f" "lf_ino f = i" by blast
  have own: "owns (lock_act lib path payload (Call p) s) q j = owns s q j" for q j
    using Writing by (auto simp: owns_def)
  show ?thesis using assms(1) f own Writing by (auto simp: one_owner_def write_file_def)
qed (use assms in \<open>auto simp: one_owner_def owns_def split: option.splits prod.splits\<close>)

lemma release_one_owner:
  assumes "one_owner path s"
  shows "one_owner path (lock_act lib path payload (Release p) s)"
proof (cases "ls_pc s p")
  case (Held i)
  have "\<not> owns (lock_act lib path payload (Release p) s) q j" for q j
  proof
    assume a: "owns (lock_act lib path payload (Release p) s) q j"
    then have q: "q \<noteq> p" "owns s q j" using Held by (auto simp: owns_def split: if_splits)
    have "owns s p i" using Held by (simp add: owns_def)
    then have "i = j" using q(2) assms unfolding one_owner_def by (metis option.inject)
    then show False using q \<open>owns s p i\<close> assms by (auto simp: one_owner_def)
  qed
  then show ?thesis by (simp add: one_owner_def)
qed (use assms in simp_all)

lemma lock_act_one_owner:
  assumes "one_owner path s" "case a of Call p \<Rightarrow> ls_pc s p \<noteq> Reclaiming | _ \<Rightarrow> True"
  shows "one_owner path (lock_act lib path payload a s)"
proof (cases a)
  case (Elapse n)
  then show ?thesis using assms(1) by (simp add: one_owner_def owns_def)
qed (use assms call_one_owner release_one_owner in \<open>auto simp del: lock_act.simps\<close>)

lemma calm_one_owner:
  "one_owner path s \<Longrightarrow> calm lib path payload as s \<Longrightarrow> one_owner path (lock_run lib path payload as s)"
  by (induction as arbitrary: s) (auto intro: lock_act_one_owner simp del: lock_act.simps)

lemma start_one_owner: "one_owner path (start_sys w)"
  by (simp add: one_owner_def owns_def start_sys_def)

text \<open>
  C15. Mutual exclusion: however the system calls of any number of processes interleave, as long as
  nobody reclaims a lockfile at most one process is past the creation of the file or holds the
  lock, and the file at the path is its own.
\<close>

theorem lock_mutual_exclusion:
  assumes "calm lib path payload as (start_sys w)"
  shows "let s = lock_run lib path payload as (start_sys w) in
    \<forall>p q i j. owns s p i \<longrightarrow> owns s q j \<longrightarrow> p = q \<and> map_option lf_ino (w_files (ls_world s) path) = Some i"
proof -
  have inv: "one_owner path (lock_run lib path payload as (start_sys w))"
    using calm_one_owner [OF start_one_owner assms] .
  show ?thesis using inv unfolding one_owner_def Let_def by (metis option.simps(9) option.inject)
qed

definition sample_payload :: "int \<Rightarrow> string" where
  "sample_payload p = os_marshal sample_lib (sample_info p)"

theorem lock_mutual_exclusion_witness:
  "let s = lock_run sample_lib ''L'' sample_payload [Call 1, Call 1, Call 2, Call 2, Call 2] (start_sys sample_world) in
   ls_pc s 1 = Held 0 \<and> ls_pc s 2 = Failed \<and> (\<forall>q j. owns s q j \<longrightarrow> q = 1)"
proof -
  let ?as = "[Call 1, Call 1, Call 2, Call 2, Call 2]"
  let ?s = "lock_run sample_lib ''L'' sample_payload ?as (start_sys sample_world)"
  note ev = start_sys_def sample_lock_defs sample_payload_def create_file_def write_file_def readLockInfo_def
    processExists_def lockStaleAge_def quiet_io_def
  have "calm sample_lib ''L'' sample_payload ?as (start_sys sample_world)" by (simp add: ev)
  from lock_mutual_exclusion [OF this] have "\<forall>q j. owns ?s 1 0 \<longrightarrow> owns ?s q j \<longrightarrow> q = 1"
    unfolding Let_def by blast
  moreover have "ls_pc ?s 1 = Held 0" "ls_pc ?s 2 = Failed" by (simp_all add: ev)
  ultimately show ?thesis by (simp add: Let_def owns_def)
qed

section \<open>Two holders\<close>

text \<open>
  The first process has created the file and not yet written to it; the second reads an empty
  file, takes it for a corrupt one and decides to reclaim.
\<close>

definition race :: "int \<Rightarrow> int \<Rightarrow> act list" where
  "race p q = [Call p, Call q, Call q, Call q, Call p, Call q, Call q, Call q]"

text \<open>
  C34. The lock can be held twice.  Starting without any lockfile, with every process alive and no
  time passing, two processes can both come to hold the lock, because a lockfile that has been
  created but not yet written is reclaimed as corrupt; and when the first of them releases, the
  lockfile of the second disappears.
\<close>

theorem lock_race_two_holders:
  assumes "snd (os_unmarshal lib [])" "p \<noteq> q" "w_files w path = None"
  shows "let s = lock_run lib path payload (race p q) (start_sys w) in
    (\<exists>i j. ls_pc s p = Held i \<and> ls_pc s q = Held j \<and> i \<noteq> j) \<and>
    (let s' = lock_act lib path payload (Release p) s in
     w_files (ls_world s') path = None \<and> (\<exists>j. ls_pc s' q = Held j))"
  using assms
  by (cases "os_unmarshal lib []")
    (simp add: race_def start_sys_def create_file_def write_file_def readLockInfo_def remove_file_def
      release_def remove_def quiet_io_def lockStaleAge_def Let_def)

theorem lock_race_two_holders_witness:
  "let s = lock_run sample_lib ''L'' sample_payload (race 1 2) (start_sys sample_world) in
   \<exists>i j. ls_pc s 1 = Held i \<and> ls_pc s 2 = Held j \<and> i \<noteq> j"
  using lock_race_two_holders [of sample_lib 1 2 sample_world "''L''" sample_payload]
  by (simp add: Let_def sample_lock_defs del: lock_run.simps)

section \<open>The reaper\<close>

definition lock_entry :: "dirent \<Rightarrow> bool" where
  "lock_entry e \<longleftrightarrow> \<not> de_isDir e \<and> has_suffix (de_name e) ''.lock''"

definition entry_path :: "string \<Rightarrow> dirent \<Rightarrow> string" where
  "entry_path lockDir e = lockDir @ ''/'' @ de_name e"

text \<open>The four conditions for a kill, and the conditions under which a lock is left alone.\<close>

definition confirmed_orphan :: "io \<Rightarrow> oslib \<Rightarrow> (int \<Rightarrow> string option) \<Rightarrow> world \<Rightarrow> string \<Rightarrow> string \<Rightarrow> int \<Rightarrow> bool" where
  "confirmed_orphan io lib exe w ver path pid \<longleftrightarrow>
     (case readLockInfo io lib w path of (info, err) \<Rightarrow>
        \<not> err \<and> li_PID info = pid \<and> processExists lib w pid \<and>
        (case exe pid of None \<Rightarrow> False | Some x \<Rightarrow> looksLikePincher x) \<and>
        li_BinaryVersion info \<noteq> [] \<and> ver \<noteq> [] \<and> li_BinaryVersion info \<noteq> ver)"

definition live_peer :: "io \<Rightarrow> oslib \<Rightarrow> (int \<Rightarrow> string option) \<Rightarrow> world \<Rightarrow> string \<Rightarrow> string \<Rightarrow> bool" where
  "live_peer io lib exe w ver path \<longleftrightarrow>
     (case readLockInfo io lib w path of (info, err) \<Rightarrow>
        \<not> err \<and> processExists lib w (li_PID info) \<and>
        (case exe (li_PID info) of None \<Rightarrow> True | Some x \<Rightarrow> looksLikePincher x \<and>
           (li_BinaryVersion info = [] \<or> ver = [] \<or> li_BinaryVersion info = ver)))"

definition reap_total :: "reapResult \<Rightarrow> int" where
  "reap_total r = int (length (rr_StaleRemoved r) + length (rr_OrphansFound r) + length (rr_SkippedLive r) +
     length (rr_Unverifiable r))"

text \<open>What one entry does, in one statement for all branches of the triage.\<close>

lemma reap_entry_step:
  assumes "reap_entry io lib exe lockDir ver kill (res, w, killed) e = (res', w', killed')"
  shows "(\<forall>x. x \<noteq> entry_path lockDir e \<longrightarrow> w_files w' x = w_files w x) \<and> w_find w' = w_find w \<and> w_signal w' = w_signal w \<and>
    (live_peer io lib exe w ver (entry_path lockDir e) \<longrightarrow> w_files w' = w_files w) \<and>
    (\<forall>pid \<in> set killed'. pid \<in> set killed \<or>
       kill \<and> lock_entry e \<and> confirmed_orphan io lib exe w ver (entry_path lockDir e) pid) \<and>
    rr_Scanned res' - reap_total res' = rr_Scanned res - reap_total res"
  using assms
  by (auto simp: reap_entry_def reap_stale_def reap_orphan_def remove_def remove_file_def entry_path_def lock_entry_def
      live_peer_def confirmed_orphan_def reap_total_def skewed_def Let_def split: if_splits prod.splits option.splits)

lemma read_same_file:
  "w_files w' path = w_files w path \<Longrightarrow> readLockInfo io lib w' path = readLockInfo io lib w path"
  by (simp add: readLockInfo_def)

lemma judgement_cong:
  assumes "w_files w' path = w_files w path" "w_find w' = w_find w" "w_signal w' = w_signal w"
  shows "live_peer io lib exe w' ver path = live_peer io lib exe w ver path"
    and "confirmed_orphan io lib exe w' ver path pid = confirmed_orphan io lib exe w ver path pid"
  using read_same_file [OF assms(1)] processExists_cong [OF assms(2,3)]
  by (simp_all add: live_peer_def confirmed_orphan_def)

text \<open>The scan: entries not yet visited are as they were, so every judgement is about the start.\<close>

definition reap_inv :: "io \<Rightarrow> oslib \<Rightarrow> (int \<Rightarrow> string option) \<Rightarrow> string \<Rightarrow> string \<Rightarrow> bool \<Rightarrow> world \<Rightarrow> dirent list \<Rightarrow> reap \<Rightarrow> bool" where
  "reap_inv io lib exe lockDir ver kill w0 es s \<longleftrightarrow>
     (case s of (res, w, killed) \<Rightarrow>
       (\<forall>x. x \<notin> entry_path lockDir ` set es \<longrightarrow> w_files w x = w_files w0 x) \<and>
       w_find w = w_find w0 \<and> w_signal w = w_signal w0 \<and>
       (\<forall>e \<in> set es. live_peer io lib exe w0 ver (entry_path lockDir e) \<longrightarrow>
          w_files w (entry_path lockDir e) = w_files w0 (entry_path lockDir e)) \<and>
       (\<forall>pid \<in> set killed. kill \<and>
          (\<exists>e \<in> set es. lock_entry e \<and> confirmed_orphan io lib exe w0 ver (entry_path lockDir e) pid)) \<and>
       rr_Scanned res = reap_total res)"

lemma entry_path_inj: "entry_path d e = entry_path d e' \<longleftrightarrow> de_name e = de_name e'"
  by (simp add: entry_path_def)

lemma reap_inv_step:
  assumes inv: "reap_inv io lib exe lockDir ver kill w0 es (res, w, killed)" and new: "de_name e \<notin> de_name ` set es"
    and r: "reap_entry io lib exe lockDir ver kill (res, w, killed) e = (res', w', killed')"
  shows "reap_inv io lib exe lockDir ver kill w0 (es @ [e]) (res', w', killed')"
proof -
  let ?p = "entry_path lockDir"
  note step = reap_entry_step [OF r]
  have fresh: "?p e \<notin> ?p ` set es" using new by (auto simp: entry_path_inj)
  then have same: "w_files w (?p e) = w_files w0 (?p e)" "w_find w = w_find w0" "w_signal w = w_signal w0"
    using inv by (auto simp: reap_inv_def)
  note judge = judgement_cong [OF same]
  have other: "w_files w' (?p x) = w_files w (?p x)" if "x \<in> set es" for x
    using step fresh that by (metis image_eqI)
  have killed: "kill \<and> (\<exists>x \<in> set (es @ [e]). lock_entry x \<and> confirmed_orphan io lib exe w0 ver (?p x) pid)"
    if "pid \<in> set killed'" for pid
    using that step inv judge(2) by (auto simp: reap_inv_def)
  have peers: "w_files w' (?p x) = w_files w0 (?p x)" if "x \<in> set (es @ [e])" "live_peer io lib exe w0 ver (?p x)" for x
    using that step inv judge(1) other same(1) by (auto simp: reap_inv_def)
  have "rr_Scanned res' = reap_total res'" using step inv by (auto simp: reap_inv_def)
  then show ?thesis using killed peers step inv same unfolding reap_inv_def by auto
qed

lemma reap_inv_scan:
  "distinct (map de_name es) \<Longrightarrow> reap_inv io lib exe lockDir ver kill w0 [] s \<Longrightarrow>
   reap_inv io lib exe lockDir ver kill w0 es (foldl (reap_entry io lib exe lockDir ver kill) s es)"
proof (induction es rule: rev_induct)
  case (snoc e es)
  obtain res w killed where m: "foldl (reap_entry io lib exe lockDir ver kill) s es = (res, w, killed)" by (metis prod_cases3)
  obtain res' w' killed' where "reap_entry io lib exe lockDir ver kill (res, w, killed) e = (res', w', killed')"
    by (metis prod_cases3)
  then show ?case using snoc m reap_inv_step [of io lib exe lockDir ver kill w0 es res w killed e res' w' killed'] by auto
qed simp


text \<open>A directory with the lock of an old build and the lock of a peer.\<close>

definition reap_world :: world where
  "reap_world = sample_world\<lparr>w_files :=
     [''d/a.lock'' \<mapsto> \<lparr>lf_ino = 0, lf_data = ''one'', lf_mtime = 0\<rparr>]\<rparr>"


end
