(* ===== verification/Line_Diff.thy ===== *)
theory Line_Diff
  imports Pincher_Prelude
begin

text \<open>
  Diffs (\<^verbatim>\<open>lineDiff\<close>, \<^verbatim>\<open>parseGitDiffHunks\<close>, \<^verbatim>\<open>parseHunkHeader\<close>, \<^verbatim>\<open>symbolOverlapsHunks\<close>,
  \<^verbatim>\<open>parseGitDiffFiles\<close> and \<^verbatim>\<open>validateGitRefName\<close> in \<^verbatim>\<open>internal/server/server.go\<close>).  A changed symbol
  is sent to the agent as a line diff computed from a table of common-subsequence lengths; the
  changed lines of a working tree are read off the output of \<^verbatim>\<open>git diff\<close>.
\<close>

section \<open>The line diff\<close>

text \<open>\<^verbatim>\<open>strings.Split(s, "\n")\<close>.\<close>

fun split_lines :: "string \<Rightarrow> string list" where
  "split_lines [] = [[]]"
| "split_lines (c # s) =
     (if c = newline then [] # split_lines s
      else case split_lines s of [] \<Rightarrow> [[c]] | l # ls \<Rightarrow> (c # l) # ls)"

text \<open>
  The table, filled from the last row and column up; row \<open>length o\<close> and column \<open>length n\<close> stay 0.
  The loops count down: the last argument is the number of iterations left.
\<close>

type_synonym table = "nat list list"

definition cell :: "table \<Rightarrow> nat \<Rightarrow> nat \<Rightarrow> nat" where
  "cell t i j = t ! i ! j"

definition set_cell :: "nat \<Rightarrow> nat \<Rightarrow> nat \<Rightarrow> table \<Rightarrow> table" where
  "set_cell i j v t = t[i := (t ! i)[j := v]]"

fun fill_row :: "string list \<Rightarrow> string list \<Rightarrow> nat \<Rightarrow> nat \<Rightarrow> table \<Rightarrow> table" where
  "fill_row old new i 0 t = t"
| "fill_row old new i (Suc j) t =
     fill_row old new i j
       (set_cell i j
         (if old ! i = new ! j then cell t (Suc i) (Suc j) + 1
          else if cell t (Suc i) j \<ge> cell t i (Suc j) then cell t (Suc i) j
          else cell t i (Suc j)) t)"

fun fill :: "string list \<Rightarrow> string list \<Rightarrow> nat \<Rightarrow> table \<Rightarrow> table" where
  "fill old new 0 t = t"
| "fill old new (Suc i) t = fill old new i (fill_row old new i (length new) t)"

definition lcs_table :: "string list \<Rightarrow> string list \<Rightarrow> table" where
  "lcs_table old new =
     fill old new (length old) (replicate (length old + 1) (replicate (length new + 1) 0))"

datatype edit = Keep string | Del string | Ins string

text \<open>The three output loops: both sides left, then the rest of the old, then the rest of the new.\<close>

function diff_loop :: "string list \<Rightarrow> string list \<Rightarrow> table \<Rightarrow> nat \<Rightarrow> nat \<Rightarrow> edit list" where
  "diff_loop old new t i j =
     (if i < length old \<and> j < length new then
        (if old ! i = new ! j then Keep (old ! i) # diff_loop old new t (Suc i) (Suc j)
         else if cell t (Suc i) j \<ge> cell t i (Suc j) then Del (old ! i) # diff_loop old new t (Suc i) j
         else Ins (new ! j) # diff_loop old new t i (Suc j))
      else map Del (drop i old) @ map Ins (drop j new))"
  by auto
termination
  by (relation "measure (\<lambda>(old, new, t, i, j). (length old - i) + (length new - j))") auto

declare diff_loop.simps [simp del]

fun edit_line :: "edit \<Rightarrow> string" where
  "edit_line (Keep s) = ''  '' @ s @ [newline]"
| "edit_line (Del s) = ''- '' @ s @ [newline]"
| "edit_line (Ins s) = ''+ '' @ s @ [newline]"

definition diff_edits :: "string list \<Rightarrow> string list \<Rightarrow> edit list" where
  "diff_edits old new = diff_loop old new (lcs_table old new) 0 0"

definition lineDiff :: "string \<Rightarrow> string \<Rightarrow> string" where
  "lineDiff oldSrc newSrc = concat (map edit_line (diff_edits (split_lines oldSrc) (split_lines newSrc)))"

section \<open>Changed lines from git\<close>

definition index_byte :: "char \<Rightarrow> string \<Rightarrow> nat option" where
  "index_byte c s = (if c \<in> set s then Some (length (takeWhile (\<lambda>d. d \<noteq> c) s)) else None)"

text \<open>The start line and the line count of the new side; \<^term>\<open>(0, 0)\<close> when it cannot be read.\<close>

definition parseHunkHeader :: "string \<Rightarrow> int \<times> int" where
  "parseHunkHeader header =
     (case index_byte (CHR ''+'') header of
        None \<Rightarrow> (0, 0)
      | Some pos \<Rightarrow>
          (let rest = drop (Suc pos) header in
           case index_byte (CHR '' '') rest of
             None \<Rightarrow> (0, 0)
           | Some e \<Rightarrow>
               (let spec = take e rest in
                case cut_byte (CHR '','') spec of
                  None \<Rightarrow> (let (start, err) = atoi spec in if err then (0, 0) else (start, 1))
                | Some (a, b) \<Rightarrow>
                    (let (start, err) = atoi a in
                     if err then (0, 0)
                     else let (c, err2) = atoi b in if err2 then (start, 1) else (start, c)))))"

type_synonym hunks = "(string \<times> (int \<times> int) list) list"

definition add_hunk :: "string \<Rightarrow> int \<times> int \<Rightarrow> hunks \<Rightarrow> hunks" where
  "add_hunk f h out =
     AList.update f ((case map_of out f of None \<Rightarrow> [] | Some hs \<Rightarrow> hs) @ [h]) out"

definition hunk_line :: "string \<times> hunks \<Rightarrow> string \<Rightarrow> string \<times> hunks" where
  "hunk_line st line =
     (let (cur, out) = st in
      if has_prefix line ''+++ b/'' then (trim_prefix line ''+++ b/'', out)
      else if has_prefix line ''+++ '' then (trim_prefix (trim_prefix line ''+++ '') ''b/'', out)
      else if has_prefix line ''@@'' then
        (if cur = [] then (cur, out)
         else let (start, count) = parseHunkHeader line in
           if start \<le> 0 then (cur, out)
           else (cur, add_hunk cur (start, if count = 0 then start else start + count - 1) out))
      else (cur, out))"

definition parseGitDiffHunks :: "string \<Rightarrow> hunks" where
  "parseGitDiffHunks diff = snd (foldl hunk_line ([], []) (split_lines diff))"

definition symbolOverlapsHunks :: "int \<Rightarrow> int \<Rightarrow> (int \<times> int) list \<Rightarrow> bool" where
  "symbolOverlapsHunks symStart symEnd hs \<longleftrightarrow> list_ex (\<lambda>h. symStart \<le> snd h \<and> symEnd \<ge> fst h) hs"

definition parseGitDiffFiles :: "string \<Rightarrow> string list" where
  "parseGitDiffFiles diff =
     filter (\<lambda>l. l \<noteq> [] \<and> \<not> has_prefix l ''#'') (map trim_space (split_lines diff))"

section \<open>Revision names\<close>

datatype ref_err = EmptyRef | FlagRef | RangeRef | BadRefChar char

definition ref_char :: "char \<Rightarrow> bool" where
  "ref_char c \<longleftrightarrow> is_lower c \<or> is_upper c \<or> is_digit c \<or> c \<in> set ''/-_.@~^:{}''"

text \<open>The first disallowed byte; of a character outside ASCII it is the first byte of its encoding.\<close>

definition validateGitRefName :: "string \<Rightarrow> ref_err option" where
  "validateGitRefName name =
     (if name = [] then Some EmptyRef
      else if has_prefix name ''-'' then Some FlagRef
      else if contains name ''..'' then Some RangeRef
      else case dropWhile ref_char name of [] \<Rightarrow> None | c # _ \<Rightarrow> Some (BadRefChar c))"

end
