(* ===== verification/Line_Diff_Props.thy ===== *)
theory Line_Diff_Props
  imports Line_Diff
begin

text \<open>
  The line diff is exact and minimal: both texts can be read back from it and it keeps a longest
  common subsequence of their lines.  The parser of \<^verbatim>\<open>git diff\<close> finds exactly the changed line
  ranges, as long as no changed line imitates a file header.
\<close>

section \<open>The table\<close>

fun lcs_len :: "'a list \<Rightarrow> 'a list \<Rightarrow> nat" where
  "lcs_len [] ys = 0"
| "lcs_len xs [] = 0"
| "lcs_len (x # xs) (y # ys) =
     (if x = y then lcs_len xs ys + 1 else max (lcs_len xs (y # ys)) (lcs_len (x # xs) ys))"

lemma lcs_len_Nil2 [simp]: "lcs_len xs [] = 0"
  by (cases xs) simp_all

lemma lcs_len_drop:
  "i < length old \<Longrightarrow> j < length new \<Longrightarrow>
   lcs_len (drop i old) (drop j new) =
     (if old ! i = new ! j then lcs_len (drop (Suc i) old) (drop (Suc j) new) + 1
      else max (lcs_len (drop (Suc i) old) (drop j new)) (lcs_len (drop i old) (drop (Suc j) new)))"
  by (simp add: Cons_nth_drop_Suc [symmetric])

text \<open>Column \<open>j\<close> onwards of row \<open>i\<close> holds the lengths for the suffixes.\<close>

definition row_ok :: "string list \<Rightarrow> string list \<Rightarrow> table \<Rightarrow> nat \<Rightarrow> nat \<Rightarrow> bool" where
  "row_ok old new t i j \<longleftrightarrow>
     (\<forall>k. j \<le> k \<longrightarrow> k \<le> length new \<longrightarrow> cell t i k = lcs_len (drop i old) (drop k new))"

definition shape_ok :: "string list \<Rightarrow> string list \<Rightarrow> table \<Rightarrow> bool" where
  "shape_ok old new t \<longleftrightarrow> length t = length old + 1 \<and> (\<forall>i \<le> length old. length (t ! i) = length new + 1)"

lemma set_cell_shape: "shape_ok old new t \<Longrightarrow> shape_ok old new (set_cell i j v t)"
proof -
  have "length (t[i := (t ! i)[j := v]] ! k) = length (t ! k)" if "k < length t" for k
    using that by (cases "k = i") auto
  then show "shape_ok old new t \<Longrightarrow> shape_ok old new (set_cell i j v t)"
    by (auto simp: shape_ok_def set_cell_def)
qed

lemma cell_set_cell:
  assumes "shape_ok old new t" "i \<le> length old" "j \<le> length new"
  shows "cell (set_cell i j v t) i' j' = (if i' = i \<and> j' = j then v else cell t i' j')"
  using assms by (auto simp: cell_def set_cell_def shape_ok_def nth_list_update)

lemma row_ok_set_cell_other:
  "shape_ok old new t \<Longrightarrow> i \<le> length old \<Longrightarrow> j \<le> length new \<Longrightarrow> i' \<noteq> i \<Longrightarrow>
   row_ok old new (set_cell i j v t) i' k = row_ok old new t i' k"
  by (simp add: row_ok_def cell_set_cell)

lemma fill_row_ok:
  assumes "shape_ok old new t" "i < length old" "j \<le> length new"
    and "row_ok old new t (Suc i) 0" "row_ok old new t i j"
  shows "shape_ok old new (fill_row old new i j t) \<and> row_ok old new (fill_row old new i j t) i 0 \<and>
    (\<forall>i' k. i' \<noteq> i \<longrightarrow> row_ok old new (fill_row old new i j t) i' k = row_ok old new t i' k)"
  using assms
proof (induction j arbitrary: t)
  case (Suc j)
  let ?v = "if old ! i = new ! j then cell t (Suc i) (Suc j) + 1
          else if cell t (Suc i) j \<ge> cell t i (Suc j) then cell t (Suc i) j else cell t i (Suc j)"
  let ?t = "set_cell i j ?v t"
  have next_row: "cell t (Suc i) k = lcs_len (drop (Suc i) old) (drop k new)" if "k \<le> length new" for k
    using Suc.prems(4) that by (simp add: row_ok_def)
  have "cell t i (Suc j) = lcs_len (drop i old) (drop (Suc j) new)"
    using Suc.prems(3,5) by (simp add: row_ok_def)
  then have v: "?v = lcs_len (drop i old) (drop j new)"
    using Suc.prems(2,3) next_row [of j] next_row [of "Suc j"] by (simp add: lcs_len_drop)
  have "row_ok old new ?t i j"
    using Suc.prems v by (auto simp: row_ok_def cell_set_cell [OF Suc.prems(1)] le_Suc_eq not_less_eq_eq dest: le_neq_implies_less)
  moreover have "row_ok old new ?t i' k = row_ok old new t i' k" if "i' \<noteq> i" for i' k
    using row_ok_set_cell_other [OF Suc.prems(1)] Suc.prems(2,3) that by simp
  ultimately show ?case
    using Suc.IH [of ?t] Suc.prems set_cell_shape by simp
qed simp

lemma fill_ok:
  assumes "shape_ok old new t" "i \<le> length old" "\<forall>i' \<le> length old. i \<le> i' \<longrightarrow> row_ok old new t i' 0"
    and "\<forall>i' \<le> length old. row_ok old new t i' (length new)"
  shows "\<forall>i' \<le> length old. row_ok old new (fill old new i t) i' 0"
  using assms
proof (induction i arbitrary: t)
  case (Suc i)
  let ?t = "fill_row old new i (length new) t"
  have r: "shape_ok old new ?t" "row_ok old new ?t i 0"
    "\<And>i' k. i' \<noteq> i \<Longrightarrow> row_ok old new ?t i' k = row_ok old new t i' k"
    using fill_row_ok [of old new t i "length new"] Suc.prems by auto
  have weaken: "row_ok old new ?t i (length new)" using r(2) by (simp add: row_ok_def)
  have "row_ok old new ?t i' 0" if "i' \<le> length old" "i \<le> i'" for i'
    using that r Suc.prems(3) by (cases "i' = i") auto
  moreover have "row_ok old new ?t i' (length new)" if "i' \<le> length old" for i'
    using that r weaken Suc.prems(4) by (cases "i' = i") auto
  ultimately show ?case using Suc.IH [of ?t] r(1) Suc.prems(2) by simp
qed simp

lemma lcs_table_ok:
  assumes "i \<le> length old" "j \<le> length new"
  shows "cell (lcs_table old new) i j = lcs_len (drop i old) (drop j new)"
proof -
  let ?z = "replicate (length old + 1) (replicate (length new + 1) (0 :: nat))"
  have zero: "cell ?z i' k = 0" if "i' \<le> length old" "k \<le> length new" for i' k
    using that by (simp add: cell_def del: replicate.simps)
  have "shape_ok old new ?z" by (simp add: shape_ok_def del: replicate.simps)
  moreover have "row_ok old new ?z (length old) 0" using zero by (simp add: row_ok_def)
  moreover have "row_ok old new ?z i' (length new)" if "i' \<le> length old" for i'
    using zero that by (auto simp: row_ok_def dest!: antisym)
  ultimately have "\<forall>i' \<le> length old. row_ok old new (lcs_table old new) i' 0"
    unfolding lcs_table_def by (intro fill_ok) (auto dest!: antisym)
  then show ?thesis using assms by (simp add: row_ok_def)
qed

section \<open>The edits\<close>

fun old_side :: "edit list \<Rightarrow> string list" where
  "old_side [] = []"
| "old_side (Keep s # es) = s # old_side es"
| "old_side (Del s # es) = s # old_side es"
| "old_side (Ins s # es) = old_side es"

fun new_side :: "edit list \<Rightarrow> string list" where
  "new_side [] = []"
| "new_side (Keep s # es) = s # new_side es"
| "new_side (Del s # es) = new_side es"
| "new_side (Ins s # es) = s # new_side es"

fun kept :: "edit list \<Rightarrow> string list" where
  "kept [] = []"
| "kept (Keep s # es) = s # kept es"
| "kept (Del s # es) = kept es"
| "kept (Ins s # es) = kept es"

lemma tail_sides:
  "old_side (map Del xs @ map Ins ys) = xs" "new_side (map Del xs @ map Ins ys) = ys"
  "kept (map Del xs @ map Ins ys) = []"
proof -
  have "old_side (map Ins ys) = []" "new_side (map Ins ys) = ys" "kept (map Ins ys) = []" by (induction ys) auto
  then show "old_side (map Del xs @ map Ins ys) = xs" "new_side (map Del xs @ map Ins ys) = ys"
    "kept (map Del xs @ map Ins ys) = []" by (induction xs) auto
qed

lemma diff_loop_sides:
  "old_side (diff_loop old new t i j) = drop i old \<and> new_side (diff_loop old new t i j) = drop j new"
proof (induction old new t i j rule: diff_loop.induct)
  case (1 old new t i j)
  note cons = Cons_nth_drop_Suc [of i old] Cons_nth_drop_Suc [of j new]
  show ?case using 1 cons by (subst (1 2) diff_loop.simps) (auto simp: tail_sides)
qed

lemma kept_subseq: "subseq (kept es) (old_side es)" "subseq (kept es) (new_side es)"
  by (induction es rule: kept.induct) auto

lemma diff_loop_kept:
  assumes "\<And>i j. i \<le> length old \<Longrightarrow> j \<le> length new \<Longrightarrow> cell t i j = lcs_len (drop i old) (drop j new)"
  shows "i \<le> length old \<Longrightarrow> j \<le> length new \<Longrightarrow>
    length (kept (diff_loop old new t i j)) = lcs_len (drop i old) (drop j new)"
  using assms
proof (induction old new t i j rule: diff_loop.induct)
  case (1 old new t i j)
  show ?case
  proof (cases "i < length old \<and> j < length new")
    case True
    then show ?thesis using 1 lcs_len_drop [of i old j new]
      by (subst diff_loop.simps) (simp add: max_def)
  next
    case False
    then have "drop i old = [] \<or> drop j new = []" by auto
    then show ?thesis using False by (subst diff_loop.simps) (auto simp: tail_sides)
  qed
qed

lemma lcs_len_max: "subseq zs xs \<Longrightarrow> subseq zs ys \<Longrightarrow> length zs \<le> lcs_len xs ys"
proof (induction xs ys arbitrary: zs rule: lcs_len.induct)
  case (3 x xs y ys)
  show ?case
  proof (cases zs)
    case (Cons z zs')
    have skip_x: "subseq zs xs" if "z \<noteq> x" using "3.prems"(1) that Cons by (metis subseq_Cons2_neq)
    have skip_y: "subseq zs ys" if "z \<noteq> y" using "3.prems"(2) that Cons by (metis subseq_Cons2_neq)
    show ?thesis
    proof (cases "x = y")
      case True
      show ?thesis
      proof (cases "z = x")
        case zx: True
        then have "subseq zs' xs" "subseq zs' ys" using "3.prems" Cons True by auto
        then show ?thesis using "3.IH"(1) True Cons by simp
      next
        case False
        then show ?thesis using "3.IH"(1) [OF True] skip_x skip_y True by fastforce
      qed
    next
      case False
      show ?thesis
      proof (cases "z = x")
        case True
        then have "subseq zs ys" using skip_y False by simp
        then show ?thesis using "3.IH"(3) [OF False "3.prems"(1)] False by (simp add: le_max_iff_disj)
      next
        case zx: False
        then show ?thesis using "3.IH"(2) [OF False skip_x "3.prems"(2)] False by (simp add: le_max_iff_disj)
      qed
    qed
  qed simp
qed simp_all

section \<open>The text\<close>

lemma split_lines_line: "newline \<notin> set l \<Longrightarrow> split_lines (l @ newline # r) = l # split_lines r"
  by (induction l) auto

lemma split_lines_nonempty [simp]: "split_lines s \<noteq> []"
  by (induction s) (auto split: list.splits)

lemma split_lines_no_newline: "l \<in> set (split_lines s) \<Longrightarrow> newline \<notin> set l"
  by (induction s arbitrary: l) (auto split: list.splits if_splits)

lemma join_split_lines: "str_join [newline] (split_lines s) = s"
proof (induction s)
  case (Cons c s)
  then show ?case by (cases "split_lines s"; cases "tl (split_lines s)") (auto split: list.splits)
qed simp

definition edit_text :: "edit \<Rightarrow> string" where
  "edit_text e = butlast (edit_line e)"

definition edit_ok :: "edit \<Rightarrow> bool" where
  "edit_ok e \<longleftrightarrow> newline \<notin> set (edit_text e)"

lemma edit_line_text: "edit_line e = edit_text e @ [newline]"
  by (cases e) (simp_all add: edit_text_def)

lemma split_edits: "list_all edit_ok es \<Longrightarrow> split_lines (concat (map edit_line es)) = map edit_text es @ [[]]"
  by (induction es) (simp_all add: edit_line_text split_lines_line edit_ok_def)

lemma edits_ok: "list_all (\<lambda>l. newline \<notin> set l) (old_side es) \<Longrightarrow> list_all (\<lambda>l. newline \<notin> set l) (new_side es) \<Longrightarrow>
  list_all edit_ok es"
  by (induction es rule: kept.induct) (auto simp: edit_ok_def edit_text_def)

text \<open>Reading a diff back: the mark of a line says to which side it belongs.\<close>

definition marked :: "string \<Rightarrow> string list \<Rightarrow> string list" where
  "marked mark ls = map (drop 2) (filter (\<lambda>l. has_prefix l mark) ls)"

definition unmarked :: "string \<Rightarrow> string list \<Rightarrow> string list" where
  "unmarked mark ls = map (drop 2) (filter (\<lambda>l. \<not> has_prefix l mark) ls)"

lemma edit_text_marks:
  "has_prefix (edit_text (Keep s)) m = prefix m (''  '' @ s)"
  "has_prefix (edit_text (Del s)) m = prefix m (''- '' @ s)"
  "has_prefix (edit_text (Ins s)) m = prefix m (''+ '' @ s)"
  "drop 2 (edit_text (Keep s)) = s" "drop 2 (edit_text (Del s)) = s" "drop 2 (edit_text (Ins s)) = s"
  by (simp_all add: edit_text_def has_prefix_def butlast_append)

lemma marked_sides:
  "unmarked ''+ '' (map edit_text es) = old_side es"
  "unmarked ''- '' (map edit_text es) = new_side es"
  "marked ''  '' (map edit_text es) = kept es"
  unfolding marked_def unmarked_def
  by (induction es rule: kept.induct) (simp_all add: edit_text_marks)

lemma diff_edits_sides: "old_side (diff_edits old new) = old" "new_side (diff_edits old new) = new"
  using diff_loop_sides [of old new "lcs_table old new" 0 0] by (simp_all add: diff_edits_def)

lemma diff_edits_kept:
  assumes "subseq zs old" "subseq zs new"
  shows "length zs \<le> length (kept (diff_edits old new))"
  using lcs_len_max [OF assms] diff_loop_kept [of old new "lcs_table old new" 0 0] lcs_table_ok
  by (simp add: diff_edits_def)

lemma lineDiff_lines:
  "butlast (split_lines (lineDiff a b)) = map edit_text (diff_edits (split_lines a) (split_lines b))"
proof -
  have "list_all edit_ok (diff_edits (split_lines a) (split_lines b))"
    by (rule edits_ok) (auto simp: diff_edits_sides list_all_iff dest: split_lines_no_newline)
  then show ?thesis by (simp add: lineDiff_def split_edits)
qed

text \<open>
  C25. The diff sent for a changed symbol is exact and minimal: dropping the lines marked as added
  gives the old text, dropping the lines marked as removed gives the new text, and the unmarked
  lines are a longest common subsequence of the lines of the two.
\<close>

theorem lineDiff_exact_minimal:
  "let ls = butlast (split_lines (lineDiff a b)); same = marked ''  '' ls in
   str_join [newline] (unmarked ''+ '' ls) = a \<and> str_join [newline] (unmarked ''- '' ls) = b \<and>
   subseq same (split_lines a) \<and> subseq same (split_lines b) \<and>
   (\<forall>zs. subseq zs (split_lines a) \<longrightarrow> subseq zs (split_lines b) \<longrightarrow> length zs \<le> length same)"
  using kept_subseq [of "diff_edits (split_lines a) (split_lines b)"] diff_edits_kept
  by (simp add: Let_def lineDiff_lines marked_sides diff_edits_sides join_split_lines)

theorem lineDiff_exact_minimal_witness:
  "str_join [newline] (unmarked ''- '' (butlast (split_lines (lineDiff (''a'' @ [newline] @ ''b'') ''b'')))) = ''b'' \<and>
   lineDiff (''a'' @ [newline] @ ''b'') ''b'' = ''- a'' @ [newline] @ ''  b'' @ [newline]"
proof -
  have "lineDiff (''a'' @ [newline] @ ''b'') ''b'' = ''- a'' @ [newline] @ ''  b'' @ [newline]" by code_simp
  then show ?thesis using lineDiff_exact_minimal [of "''a'' @ [newline] @ ''b''" "''b''"] by (simp only: Let_def)
qed

section \<open>Changed lines\<close>

text \<open>The output of \<^verbatim>\<open>git diff --unified=0\<close>: per file some header lines, the new name and the hunks.\<close>

record hunk =
  hk_old :: string
  hk_start :: nat
  hk_count :: nat
  hk_tail :: string
  hk_body :: "string list"

record filediff =
  fd_pre :: "string list"
  fd_name :: string
  fd_hunks :: "hunk list"

definition hunk_header :: "hunk \<Rightarrow> string" where
  "hunk_header h =
     ''@@ -'' @ hk_old h @ '' +'' @ show_nat (hk_start h) @
     (if hk_count h = 1 then [] else '','' @ show_nat (hk_count h)) @ '' @@'' @ hk_tail h"

definition hunk_lines :: "hunk \<Rightarrow> string list" where
  "hunk_lines h = hunk_header h # hk_body h"

definition file_lines :: "filediff \<Rightarrow> string list" where
  "file_lines f = fd_pre f @ (''+++ b/'' @ fd_name f) # concat (map hunk_lines (fd_hunks f))"

definition diff_text :: "filediff list \<Rightarrow> string" where
  "diff_text fs = str_join [newline] (concat (map file_lines fs))"

text \<open>A line that is neither taken for a file header nor for a hunk header.\<close>

definition plain_line :: "string \<Rightarrow> bool" where
  "plain_line l \<longleftrightarrow> \<not> has_prefix l ''+++ '' \<and> \<not> has_prefix l ''@@'' \<and> newline \<notin> set l"

definition hunk_wf :: "hunk \<Rightarrow> bool" where
  "hunk_wf h \<longleftrightarrow> CHR ''+'' \<notin> set (hk_old h) \<and> newline \<notin> set (hk_old h) \<and> newline \<notin> set (hk_tail h) \<and>
     hk_start h < 2 ^ 63 \<and> hk_count h < 2 ^ 63 \<and> list_all plain_line (hk_body h)"

definition file_wf :: "filediff \<Rightarrow> bool" where
  "file_wf f \<longleftrightarrow> fd_name f \<noteq> [] \<and> newline \<notin> set (fd_name f) \<and> list_all plain_line (fd_pre f) \<and> list_all hunk_wf (fd_hunks f)"

definition hunk_range :: "hunk \<Rightarrow> int \<times> int" where
  "hunk_range h = (int (hk_start h), int (hk_start h) + int (max 1 (hk_count h)) - 1)"

definition ranges_of :: "filediff \<Rightarrow> (int \<times> int) list" where
  "ranges_of f = map hunk_range (filter (\<lambda>h. hk_start h > 0) (fd_hunks f))"

definition hunks_get :: "string \<Rightarrow> hunks \<Rightarrow> (int \<times> int) list" where
  "hunks_get f out = (case map_of out f of None \<Rightarrow> [] | Some hs \<Rightarrow> hs)"

subsection \<open>Headers\<close>

lemma show_nat_no: "c \<in> set (show_nat n) \<Longrightarrow> is_digit c"
  using show_nat_digits [of n] by (auto simp: list_all_iff)

lemma show_nat_plain: "CHR '','' \<notin> set (show_nat n)" "CHR '' '' \<notin> set (show_nat n)" "newline \<notin> set (show_nat n)"
  by (auto dest!: show_nat_no simp: is_digit_iff)

lemma index_byte_append: "c \<notin> set a \<Longrightarrow> index_byte c (a @ c # b) = Some (length a)"
proof -
  assume "c \<notin> set a"
  then have "takeWhile (\<lambda>d. d \<noteq> c) (a @ c # b) = a" by (induction a) auto
  then show ?thesis by (simp add: index_byte_def)
qed

lemma parseHunkHeader_print:
  assumes "CHR ''+'' \<notin> set (hk_old h)" "hk_start h < 2 ^ 63" "hk_count h < 2 ^ 63"
  shows "parseHunkHeader (hunk_header h) = (int (hk_start h), int (hk_count h))"
proof -
  let ?spec = "show_nat (hk_start h) @ (if hk_count h = 1 then [] else '','' @ show_nat (hk_count h))"
  have i: "index_byte (CHR ''+'') (hunk_header h) = Some (length (''@@ -'' @ hk_old h @ '' ''))"
    using index_byte_append [of "CHR ''+''" "''@@ -'' @ hk_old h @ '' ''" "?spec @ '' @@'' @ hk_tail h"] assms(1)
    by (simp add: hunk_header_def)
  have rest: "drop (Suc (length (''@@ -'' @ hk_old h @ '' ''))) (hunk_header h) = ?spec @ CHR '' '' # ''@@'' @ hk_tail h"
    by (simp add: hunk_header_def)
  have "CHR '' '' \<notin> set ?spec" using show_nat_plain by auto
  then have e: "index_byte (CHR '' '') (?spec @ CHR '' '' # ''@@'' @ hk_tail h) = Some (length ?spec)"
    by (rule index_byte_append)
  have t: "take (length ?spec) (?spec @ CHR '' '' # ''@@'' @ hk_tail h) = ?spec" by simp
  have c: "cut_byte (CHR '','') ?spec =
      (if hk_count h = 1 then None else Some (show_nat (hk_start h), show_nat (hk_count h)))"
    using show_nat_plain(1) cut_byte_append [of "CHR '',''" "show_nat (hk_start h)" "show_nat (hk_count h)"]
    by (simp add: cut_byte_None)
  show ?thesis
    unfolding parseHunkHeader_def i option.case rest Let_def e t c
    using atoi_show_nat assms(2,3) by simp
qed

lemma hunks_get_add: "hunks_get f (add_hunk g h out) = hunks_get f out @ (if f = g then [h] else [])"
  by (simp add: hunks_get_def add_hunk_def update_conv')

subsection \<open>Lines, hunks and files\<close>

lemma plain_lines_skip: "list_all plain_line ls \<Longrightarrow> foldl hunk_line st ls = st"
proof (induction ls arbitrary: st)
  case (Cons l ls)
  have "prefix ''+++ '' l" if "prefix ''+++ b/'' l"
    using that by (auto simp: prefix_def)
  then have "hunk_line st l = st" using Cons.prems
    by (cases st) (auto simp: hunk_line_def plain_line_def has_prefix_def)
  then show ?case using Cons by simp
qed simp

lemma hunk_lines_fold:
  assumes "hunk_wf h" "cur \<noteq> []"
  shows "foldl hunk_line (cur, out) (hunk_lines h) =
     (cur, if hk_start h > 0 then add_hunk cur (hunk_range h) out else out)"
proof -
  have hd: "hunk_line (cur, out) (hunk_header h) =
      (cur, if hk_start h > 0 then add_hunk cur (hunk_range h) out else out)"
    using parseHunkHeader_print [of h] assms
    by (simp add: hunk_line_def hunk_wf_def hunk_header_def [of h] has_prefix_def)
      (auto simp: hunk_header_def [of h, symmetric] hunk_range_def max_def)
  have "list_all plain_line (hk_body h)" using assms(1) by (simp add: hunk_wf_def)
  then show ?thesis by (simp add: hunk_lines_def hd plain_lines_skip)
qed

lemma hunks_fold:
  "list_all hunk_wf hs \<Longrightarrow> cur \<noteq> [] \<Longrightarrow>
   \<exists>out'. foldl hunk_line (cur, out) (concat (map hunk_lines hs)) = (cur, out') \<and>
     (\<forall>f. hunks_get f out' = hunks_get f out @ (if f = cur then map hunk_range (filter (\<lambda>h. hk_start h > 0) hs) else []))"
proof (induction hs arbitrary: out)
  case (Cons h hs)
  let ?out = "if hk_start h > 0 then add_hunk cur (hunk_range h) out else out"
  from Cons obtain out' where "foldl hunk_line (cur, ?out) (concat (map hunk_lines hs)) = (cur, out')"
    "\<forall>f. hunks_get f out' = hunks_get f ?out @ (if f = cur then map hunk_range (filter (\<lambda>h. hk_start h > 0) hs) else [])"
    by fastforce
  then show ?case using hunk_lines_fold [of h cur out] Cons.prems by (auto simp: hunks_get_add)
qed simp

lemma file_fold:
  assumes "file_wf fd"
  shows "\<exists>out'. foldl hunk_line (cur, out) (file_lines fd) = (fd_name fd, out') \<and>
     (\<forall>f. hunks_get f out' = hunks_get f out @ (if f = fd_name fd then ranges_of fd else []))"
proof -
  have "hunk_line (cur, out) (''+++ b/'' @ fd_name fd) = (fd_name fd, out)"
    by (simp add: hunk_line_def has_prefix_def trim_prefix_def)
  then have "foldl hunk_line (cur, out) (file_lines fd) = foldl hunk_line (fd_name fd, out) (concat (map hunk_lines (fd_hunks fd)))"
    using assms plain_lines_skip [of "fd_pre fd" "(cur, out)"] by (simp add: file_lines_def file_wf_def)
  moreover have "fd_name fd \<noteq> []" "list_all hunk_wf (fd_hunks fd)" using assms by (simp_all add: file_wf_def)
  ultimately show ?thesis using hunks_fold [of "fd_hunks fd" "fd_name fd" out] unfolding ranges_of_def by metis
qed

lemma files_fold:
  "list_all file_wf fs \<Longrightarrow>
   \<exists>cur' out'. foldl hunk_line (cur, out) (concat (map file_lines fs)) = (cur', out') \<and>
     (\<forall>f. hunks_get f out' = hunks_get f out @ concat (map ranges_of (filter (\<lambda>fd. fd_name fd = f) fs)))"
proof (induction fs arbitrary: cur out)
  case (Cons fd fs)
  obtain out1 where o: "foldl hunk_line (cur, out) (file_lines fd) = (fd_name fd, out1)"
    "\<forall>f. hunks_get f out1 = hunks_get f out @ (if f = fd_name fd then ranges_of fd else [])"
    using file_fold Cons.prems by fastforce
  from Cons.IH [of "fd_name fd" out1] Cons.prems show ?case using o by auto
qed simp

lemma split_join: "ls \<noteq> [] \<Longrightarrow> list_all (\<lambda>l. newline \<notin> set l) ls \<Longrightarrow> split_lines (str_join [newline] ls) = ls"
proof (induction "[newline]" ls rule: str_join.induct)
  case (2 l)
  then show ?case by (induction l) auto
qed (simp_all add: split_lines_line)

lemma file_lines_clean: "file_wf fd \<Longrightarrow> list_all (\<lambda>l. newline \<notin> set l) (file_lines fd)"
proof -
  assume wf: "file_wf fd"
  have "newline \<notin> set (hunk_header h)" if "hunk_wf h" for h
    using that show_nat_plain(3) by (auto simp: hunk_header_def hunk_wf_def)
  then have "list_all (\<lambda>l. newline \<notin> set l) (hunk_lines h)" if "hunk_wf h" for h
    using that by (auto simp: hunk_lines_def hunk_wf_def plain_line_def list_all_iff)
  then show ?thesis using wf by (auto simp: file_lines_def file_wf_def plain_line_def list_all_iff)
qed

lemma parse_diff_text:
  assumes "list_all file_wf fs"
  shows "hunks_get f (parseGitDiffHunks (diff_text fs)) = concat (map ranges_of (filter (\<lambda>fd. fd_name fd = f) fs))"
proof -
  have "foldl hunk_line ([], []) (split_lines (diff_text fs)) = foldl hunk_line ([], []) (concat (map file_lines fs))"
  proof (cases fs)
    case Nil
    then show ?thesis by (simp add: diff_text_def hunk_line_def has_prefix_def)
  next
    case (Cons fd fs')
    have "concat (map file_lines fs) \<noteq> []" using Cons by (simp add: file_lines_def)
    moreover have "list_all (\<lambda>l. newline \<notin> set l) (concat (map file_lines fs))"
      using assms file_lines_clean by (auto simp: list_all_iff)
    ultimately show ?thesis by (simp add: diff_text_def split_join)
  qed
  then show ?thesis using files_fold [OF assms, of "[]" "[]"] by (auto simp: parseGitDiffHunks_def hunks_get_def)
qed

lemma overlaps_iff:
  assumes "s \<le> e" "\<And>h. h \<in> set hs \<Longrightarrow> fst h \<le> snd h"
  shows "symbolOverlapsHunks s e hs \<longleftrightarrow> (\<exists>h \<in> set hs. \<exists>l. s \<le> l \<and> l \<le> e \<and> fst h \<le> l \<and> l \<le> snd h)"
proof -
  have "(s \<le> snd h \<and> fst h \<le> e) \<longleftrightarrow> (\<exists>l. s \<le> l \<and> l \<le> e \<and> fst h \<le> l \<and> l \<le> snd h)" if "h \<in> set hs" for h
    using assms(1) assms(2) [OF that] by (metis le_cases order_trans)
  then show ?thesis by (auto simp: symbolOverlapsHunks_def list_ex_iff)
qed


definition sample_diff :: filediff where
  "sample_diff = \<lparr>fd_pre = [''--- a/f.go''], fd_name = ''f.go'',
     fd_hunks = [\<lparr>hk_old = ''3'', hk_start = 7, hk_count = 1, hk_tail = '' func F()'', hk_body = [''-x'', ''+y'']\<rparr>]\<rparr>"


text \<open>Where it goes wrong: an added line that starts with two plus signs and a blank is taken for a file name.\<close>

lemma added_line_taken_for_header:
  "parseGitDiffHunks (str_join [newline] [''+++ b/f'', ''@@ -1 +1 @@'', ''+++ x'', ''@@ -9 +9 @@'']) =
     [(''f'', [(1, 1)]), (''x'', [(9, 9)])]"
  by code_simp

section \<open>Revision names\<close>

text \<open>An accepted revision is one non-flag word without a range, made of the listed characters only.\<close>

lemma validateGitRefName_iff:
  "validateGitRefName name = None \<longleftrightarrow>
     name \<noteq> [] \<and> \<not> has_prefix name ''-'' \<and> \<not> contains name ''..'' \<and> list_all ref_char name"
proof (cases "list_all ref_char name")
  case True
  then have none: "dropWhile ref_char name = []" by (simp add: list_all_iff)
  show ?thesis unfolding validateGitRefName_def none using True by simp
next
  case False
  then have "dropWhile ref_char name \<noteq> []" by (simp add: dropWhile_eq_Nil_conv list_all_iff)
  then show ?thesis using False by (cases "dropWhile ref_char name") (simp_all add: validateGitRefName_def)
qed

end
