(* ===== verification/Json_Value.thy ===== *)
theory Json_Value
  imports Pincher_Prelude
begin

text \<open>
  Decoded JSON as the server handles it (\<^verbatim>\<open>map[string]any\<close>, \<^verbatim>\<open>[]any\<close> and scalars).  An object is
  an association list; floating point numbers are a type parameter.  \<open>JInt\<close> stands for the Go
  integers that handlers put into a response, \<open>JNumLit\<close> for \<^verbatim>\<open>json.Number\<close>.
\<close>

datatype 'f json =
    JNull
  | JBool bool
  | JNum 'f
  | JNumLit string
  | JInt int
  | JStr string
  | JArr "'f json list"
  | JObj "(string \<times> 'f json) list"

type_synonym 'f jobj = "(string \<times> 'f json) list"

text \<open>\<^verbatim>\<open>v, _ := m[k].(string)\<close>: the string, or empty.\<close>

definition jstr :: "'f jobj \<Rightarrow> string \<Rightarrow> string" where
  "jstr m k = (case map_of m k of Some (JStr s) \<Rightarrow> s | _ \<Rightarrow> [])"

text \<open>\<^verbatim>\<open>m[k].(map[string]any)\<close>.\<close>

definition jmap :: "'f jobj \<Rightarrow> string \<Rightarrow> 'f jobj option" where
  "jmap m k = (case map_of m k of Some (JObj o') \<Rightarrow> Some o' | _ \<Rightarrow> None)"

text \<open>The keys of a map in sorted order, each once.\<close>

definition sortedKeys :: "(string \<times> 'a) list \<Rightarrow> string list" where
  "sortedKeys m = sorted_list_of_set (fst ` set m)"

lemma sortedKeys_set [simp]: "set (sortedKeys m) = fst ` set m"
  by (simp add: sortedKeys_def)

lemma sortedKeys_sorted: "sorted (sortedKeys m)" "distinct (sortedKeys m)"
  by (simp_all add: sortedKeys_def)

end
