(* ===== verification/Route_Echo.thy ===== *)
theory Route_Echo
  imports Json_Value
begin

text \<open>
  The routing proxy (\<^verbatim>\<open>internal/server/router_tools.go\<close>).  Every answered route consult is
  remembered in a bounded least-recently-used cache, mirrored to a sidecar file, so that a later
  outcome report can be completed from it.  The router itself, the JSON codec of the sidecar and the
  failures of the file system are parameters.
\<close>

section \<open>The cache\<close>

definition routeEchoCacheCap :: nat where "routeEchoCacheCap = 64"

record 'f routeEchoSnapshot =
  sn_Order :: "string list"
  sn_Entries :: "(string \<times> 'f jobj) list option"

record 'f routeEchoCache =
  ec_entries :: "(string \<times> 'f jobj) list"
  ec_order :: "string list"
  ec_persistPath :: string

text \<open>The file of the sidecar, \<^term>\<open>None\<close> when absent, and the codec.\<close>

record 'f codec =
  cd_marshal :: "'f routeEchoSnapshot \<Rightarrow> string option"
  cd_unmarshal :: "string \<Rightarrow> 'f routeEchoSnapshot option"

datatype save_fault = NoFault | CreateTempErr | WriteTempErr | SyncErr | CloseErr | RenameErr

definition empty_cache :: "'f routeEchoCache" where
  "empty_cache = \<lparr>ec_entries = [], ec_order = [], ec_persistPath = []\<rparr>"

text \<open>The loop that evicts from the front of the order while it is too long.\<close>

fun evict :: "string list \<Rightarrow> (string \<times> 'v) list \<Rightarrow> string list \<times> (string \<times> 'v) list" where
  "evict [] entries = ([], entries)"
| "evict (i # order) entries =
     (if length (i # order) > routeEchoCacheCap then evict order (AList.delete i entries)
      else (i # order, entries))"

definition touchLocked :: "string \<Rightarrow> 'f routeEchoCache \<Rightarrow> 'f routeEchoCache" where
  "touchLocked rid c =
     (if rid \<in> set (ec_order c) then c\<lparr>ec_order := remove1 rid (ec_order c) @ [rid]\<rparr> else c)"

text \<open>Every failure leaves the old sidecar in place: only the rename changes it.\<close>

definition saveLocked :: "'f codec \<Rightarrow> save_fault \<Rightarrow> 'f routeEchoCache \<Rightarrow> string option \<Rightarrow> string option" where
  "saveLocked cd fault c file =
     (if ec_persistPath c = [] then file
      else case cd_marshal cd \<lparr>sn_Order = ec_order c, sn_Entries = Some (ec_entries c)\<rparr> of
        None \<Rightarrow> file
      | Some raw \<Rightarrow> (if fault = NoFault then Some raw else file))"

fun load_order :: "(string \<times> 'v) list \<Rightarrow> string list \<Rightarrow> string list \<Rightarrow> (string \<times> 'v) list \<Rightarrow> string list \<Rightarrow>
    (string \<times> 'v) list \<times> string list" where
  "load_order snap seen [] entries order = (entries, order)"
| "load_order snap seen (i # is) entries order =
     (if i \<in> set seen then load_order snap seen is entries order
      else case map_of snap i of
        None \<Rightarrow> load_order snap seen is entries order
      | Some flds \<Rightarrow> load_order snap (i # seen) is (AList.update i flds entries) (order @ [i]))"

definition loadLocked :: "'f codec \<Rightarrow> string option \<Rightarrow> 'f routeEchoCache \<Rightarrow> 'f routeEchoCache" where
  "loadLocked cd file c =
     (if ec_persistPath c = [] then c
      else case file of
        None \<Rightarrow> c
      | Some raw \<Rightarrow>
          (case cd_unmarshal cd raw of
             None \<Rightarrow> c
           | Some snap \<Rightarrow>
               (case sn_Entries snap of
                  None \<Rightarrow> c
                | Some es \<Rightarrow>
                    (let (entries, order) = load_order es [] (sn_Order snap) [] [];
                         (order', entries') = evict order entries
                     in c\<lparr>ec_entries := entries', ec_order := order'\<rparr>))))"

definition enablePersistence :: "'f codec \<Rightarrow> string option \<Rightarrow> string \<Rightarrow> 'f routeEchoCache \<Rightarrow> 'f routeEchoCache" where
  "enablePersistence cd file path c = loadLocked cd file (c\<lparr>ec_persistPath := path\<rparr>)"

definition put_entry :: "string \<Rightarrow> 'f jobj \<Rightarrow> 'f routeEchoCache \<Rightarrow> 'f routeEchoCache" where
  "put_entry rid flds c =
     (let c1 = (if map_of (ec_entries c) rid \<noteq> None then touchLocked rid c
                else c\<lparr>ec_order := ec_order c @ [rid]\<rparr>);
          (order', entries') = evict (ec_order c1) (AList.update rid flds (ec_entries c1))
      in c1\<lparr>ec_order := order', ec_entries := entries'\<rparr>)"

definition put :: "'f codec \<Rightarrow> save_fault \<Rightarrow> string \<Rightarrow> 'f jobj \<Rightarrow> 'f routeEchoCache \<times> string option \<Rightarrow>
    'f routeEchoCache \<times> string option" where
  "put cd fault rid flds st =
     (if rid = [] \<or> flds = [] then st
      else let c = put_entry rid flds (fst st) in (c, saveLocked cd fault c (snd st)))"

definition get :: "string \<Rightarrow> 'f routeEchoCache \<Rightarrow> 'f jobj option \<times> 'f routeEchoCache" where
  "get rid c =
     (case map_of (ec_entries c) rid of
        None \<Rightarrow> (None, c)
      | Some flds \<Rightarrow> (Some flds, touchLocked rid c))"

section \<open>Echo fields\<close>

definition routeEchoEnvelopeKeys :: "string list" where
  "routeEchoEnvelopeKeys = [''session_id'', ''tool_name'', ''complexity_tier'', ''role'', ''tokens_used'']"

definition routeEchoRequiredKeys :: "string list" where
  "routeEchoRequiredKeys =
     [''session_id'', ''tool_name'', ''complexity_tier'', ''role'', ''routed_model'', ''lane'']"

text \<open>Present and neither null nor the empty string.\<close>

definition usable :: "'f json option \<Rightarrow> bool" where
  "usable v \<longleftrightarrow> (case v of None \<Rightarrow> False | Some JNull \<Rightarrow> False | Some (JStr s) \<Rightarrow> s \<noteq> [] | Some _ \<Rightarrow> True)"

definition routeEchoCardComplete :: "'f jobj \<Rightarrow> bool" where
  "routeEchoCardComplete crd \<longleftrightarrow> list_all (\<lambda>k. usable (map_of crd k)) routeEchoRequiredKeys"

definition routeEchoFromCall :: "'f jobj \<Rightarrow> 'f jobj \<Rightarrow> 'f jobj" where
  "routeEchoFromCall envelope plan =
     (let flds = List.map_filter (\<lambda>k. if usable (map_of envelope k) then Some (k, the (map_of envelope k)) else None)
                     routeEchoEnvelopeKeys;
          flds = (case filter (\<lambda>k. jstr plan k \<noteq> []) [''routed_model'', ''runtime_model'', ''model''] of
                      [] \<Rightarrow> flds
                    | k # _ \<Rightarrow> flds @ [(''routed_model'', JStr (jstr plan k))])
      in if jstr plan ''lane'' \<noteq> [] then flds @ [(''lane'', JStr (jstr plan ''lane''))] else flds)"

text \<open>\<open>fmt\<close> is \<^verbatim>\<open>strconv.FormatFloat(t, 'f', -1, 64)\<close>.\<close>

definition routerRequestID :: "('f \<Rightarrow> string) \<Rightarrow> 'f json option \<Rightarrow> string" where
  "routerRequestID fmt v =
     (case v of Some (JStr s) \<Rightarrow> s | Some (JNum x) \<Rightarrow> fmt x | Some (JNumLit s) \<Rightarrow> s | _ \<Rightarrow> [])"

text \<open>Explicit fields win: only absent keys are filled.\<close>

fun fill_card :: "'f jobj \<Rightarrow> 'f jobj \<Rightarrow> string list \<Rightarrow> 'f jobj \<times> string list" where
  "fill_card [] crd filled = (crd, filled)"
| "fill_card ((k, v) # cached) crd filled =
     (if map_of crd k \<noteq> None then fill_card cached crd filled
      else fill_card cached (AList.update k v crd) (filled @ [k]))"

definition autofillOutcomeEcho :: "('f \<Rightarrow> string) \<Rightarrow> 'f jobj \<Rightarrow> 'f routeEchoCache \<Rightarrow>
    ('f jobj \<times> string list \<times> bool) \<times> 'f routeEchoCache" where
  "autofillOutcomeEcho fmt crd c =
     (let rid = routerRequestID fmt (map_of crd ''request_id'') in
      if rid = [] then ((crd, [], False), c)
      else case get rid c of
        (None, c1) \<Rightarrow> ((crd, [], False), c1)
      | (Some cached, c1) \<Rightarrow>
          (let (crd', filled) = fill_card cached crd [] in ((crd', sort filled, True), c1)))"

section \<open>The route tool\<close>

datatype route_err = RoutingOff | NeedEnvelope | NeedOutcome | UnknownAction string | RouterError string

record 'f proxy =
  px_cache :: "'f routeEchoCache"
  px_file :: "string option"
  px_consults :: int
  px_outcomes :: int

text \<open>
  \<open>router path payload\<close> is the answer of \<^verbatim>\<open>routerDo\<close>: an error or the decoded body.  The result
  is an error or the body of the reply; the text of the warning about an untagged reply is abbreviated.
\<close>

definition tag_mode :: "'f jobj \<Rightarrow> 'f jobj" where
  "tag_mode body =
     (if map_of body ''mode'' \<noteq> None then body
      else let body1 = AList.update ''mode'' (JStr ''execute'') body;
               meta = (case jmap body1 ''_meta'' of None \<Rightarrow> [] | Some m \<Rightarrow> m)
        in AList.update ''_meta'' (JObj (AList.update ''warnings'' (JArr [JStr ''not mode-tagged'']) meta)) body1)"

definition handle_consult :: "('f \<Rightarrow> string) \<Rightarrow> 'f codec \<Rightarrow> save_fault \<Rightarrow> (string \<Rightarrow> 'f jobj \<Rightarrow> string + 'f jobj) \<Rightarrow> 'f jobj \<Rightarrow> 'f proxy \<Rightarrow>
    (route_err + 'f jobj) \<times> 'f proxy" where
  "handle_consult fmt cd fault router args px =
     (case jmap args ''envelope'' of
        None \<Rightarrow> (Inl NeedEnvelope, px)
      | Some envelope \<Rightarrow>
          (let px1 = px\<lparr>px_consults := px_consults px + 1\<rparr> in
           case router ''/v1/route'' envelope of
             Inl e \<Rightarrow> (Inl (RouterError e), px1)
           | Inr body \<Rightarrow>
               (let body1 = tag_mode body; rid = routerRequestID fmt (map_of body1 ''request_id'') in
                if rid = [] then (Inr body1, px1)
                else let (c, file) = put cd fault rid (routeEchoFromCall envelope body1) (px_cache px1, px_file px1)
                  in (Inr body1, px1\<lparr>px_cache := c, px_file := file\<rparr>))))"

definition echo_source :: "string list \<Rightarrow> bool \<Rightarrow> 'f jobj \<Rightarrow> string" where
  "echo_source filled hit crd =
     (if filled \<noteq> [] then ''cache'' else if hit \<or> routeEchoCardComplete crd then ''caller'' else ''none'')"

definition handle_outcome :: "('f \<Rightarrow> string) \<Rightarrow> (string \<Rightarrow> 'f jobj \<Rightarrow> string + 'f jobj) \<Rightarrow> 'f jobj \<Rightarrow> 'f proxy \<Rightarrow>
    (route_err + 'f jobj) \<times> 'f proxy" where
  "handle_outcome fmt router args px =
     (case jmap args ''outcome'' of
        None \<Rightarrow> (Inl NeedOutcome, px)
      | Some crd \<Rightarrow>
          (let ((crd', filled, hit), c) = autofillOutcomeEcho fmt crd (px_cache px);
               px1 = px\<lparr>px_outcomes := px_outcomes px + 1, px_cache := c\<rparr>
           in case router ''/v1/outcomes'' crd' of
                Inl e \<Rightarrow> (Inl (RouterError e), px1)
              | Inr body \<Rightarrow>
                  (let body1 = (if filled \<noteq> [] then AList.update ''echo_autofilled'' (JArr (map JStr filled)) body else body)
                   in (Inr (AList.update ''echo_source'' (JStr (echo_source filled hit crd')) body1), px1))))"

definition handleRoute :: "bool \<Rightarrow> ('f \<Rightarrow> string) \<Rightarrow> 'f codec \<Rightarrow> save_fault \<Rightarrow> (string \<Rightarrow> 'f jobj \<Rightarrow> string + 'f jobj) \<Rightarrow> 'f jobj \<Rightarrow>
    'f proxy \<Rightarrow> (route_err + 'f jobj) \<times> 'f proxy" where
  "handleRoute off fmt cd fault router args px =
     (if off then (Inl RoutingOff, px)
      else let action = (if jstr args ''action'' = [] then ''route'' else jstr args ''action'') in
        if action = ''route'' then handle_consult fmt cd fault router args px
        else if action = ''outcome'' then handle_outcome fmt router args px
        else (Inl (UnknownAction action), px))"

end
