(* ===== verification/Route_Echo_Props.thy ===== *)
theory Route_Echo_Props
  imports Route_Echo
begin

text \<open>
  The echo cache is a least-recently-used cache: it refines a list of bindings in order of use,
  keeps its invariant even when it is loaded from an arbitrary file, survives a restart through the
  sidecar, and remembers the last 64 consults, which completes their outcome reports.
\<close>

section \<open>Specification\<close>

definition lru_put :: "'k \<Rightarrow> 'v \<Rightarrow> ('k \<times> 'v) list \<Rightarrow> ('k \<times> 'v) list" where
  "lru_put k v l =
     (let l' = filter (\<lambda>e. fst e \<noteq> k) l @ [(k, v)] in drop (length l' - routeEchoCacheCap) l')"

definition lru_touch :: "'k \<Rightarrow> ('k \<times> 'v) list \<Rightarrow> ('k \<times> 'v) list" where
  "lru_touch k l =
     (case map_of l k of None \<Rightarrow> l | Some v \<Rightarrow> filter (\<lambda>e. fst e \<noteq> k) l @ [(k, v)])"

text \<open>What a client of a least-recently-used cache relies on.\<close>

locale lru_cache =
  fixes inv :: "'c \<Rightarrow> bool" and recent :: "'c \<Rightarrow> ('k \<times> 'v) list"
    and put_op :: "'k \<Rightarrow> 'v \<Rightarrow> 'c \<Rightarrow> 'c" and get_op :: "'k \<Rightarrow> 'c \<Rightarrow> 'v option \<times> 'c"
  assumes put_inv: "inv c \<Longrightarrow> inv (put_op k v c)"
    and put_recent: "inv c \<Longrightarrow> recent (put_op k v c) = lru_put k v (recent c)"
    and get_value: "inv c \<Longrightarrow> fst (get_op k c) = map_of (recent c) k"
    and get_inv: "inv c \<Longrightarrow> inv (snd (get_op k c))"
    and get_recent: "inv c \<Longrightarrow> recent (snd (get_op k c)) = lru_touch k (recent c)"
    and recent_distinct: "inv c \<Longrightarrow> distinct (map fst (recent c))"
begin

definition put_list :: "('k \<times> 'v) list \<Rightarrow> 'c \<Rightarrow> 'c" where
  "put_list kvs c = foldl (\<lambda>c (k, v). put_op k v c) c kvs"

lemma put_list_inv: "inv c \<Longrightarrow> inv (put_list kvs c)"
  by (induction kvs arbitrary: c) (auto simp: put_list_def put_inv)

text \<open>A binding with \<open>n\<close> younger ones has at most one more after another key is put.\<close>

lemma put_ages:
  assumes "inv c" "recent c = pre @ (k, v) # post" "length post + 2 \<le> routeEchoCacheCap" "k' \<noteq> k"
  shows "\<exists>pre' post'. recent (put_op k' v' c) = pre' @ (k, v) # post' \<and> length post' \<le> Suc (length post)"
proof -
  let ?f = "filter (\<lambda>e. fst e \<noteq> k')"
  let ?l = "?f pre @ (k, v) # ?f post @ [(k', v')]"
  let ?n = "length ?l - routeEchoCacheCap"
  have len: "length (?f post) \<le> length post" by simp
  have "length ?l = length (?f pre) + length (?f post) + 2" by simp
  then have n: "?n \<le> length (?f pre)" using assms(3) len by linarith
  have "?f (recent c) @ [(k', v')] = ?l" using assms(2,4) by simp
  then have "recent (put_op k' v' c) = drop ?n ?l"
    using put_recent [OF assms(1)] unfolding lru_put_def Let_def by metis
  also have "\<dots> = drop ?n (?f pre) @ (k, v) # ?f post @ [(k', v')]" using n by simp
  finally show ?thesis using len by (intro exI [of _ "drop ?n (?f pre)"] exI [of _ "?f post @ [(k', v')]"]) simp
qed

lemma put_list_keeps:
  "inv c \<Longrightarrow> recent c = pre @ (k, v) # post \<Longrightarrow> length post + length kvs < routeEchoCacheCap \<Longrightarrow> k \<notin> fst ` set kvs \<Longrightarrow>
   \<exists>pre' post'. recent (put_list kvs c) = pre' @ (k, v) # post'"
proof (induction kvs arbitrary: c pre post)
  case (Cons e kvs)
  obtain k' v' where e: "e = (k', v')" by fastforce
  obtain pre' post' where "recent (put_op k' v' c) = pre' @ (k, v) # post'" "length post' \<le> Suc (length post)"
    using put_ages [of c pre k v post k' v'] Cons.prems e by auto
  then show ?case using Cons.IH [of "put_op k' v' c" pre' post'] Cons.prems e put_inv by (auto simp: put_list_def)
qed (auto simp: put_list_def)

lemma remembers:
  assumes "inv c" "length kvs < routeEchoCacheCap" "k \<notin> fst ` set kvs"
  shows "fst (get_op k (put_list kvs (put_op k v c))) = Some v"
proof -
  let ?l = "filter (\<lambda>e. fst e \<noteq> k) (recent c)"
  have "length (?l @ [(k, v)]) - routeEchoCacheCap \<le> length ?l" using assms(2) by auto
  then have "recent (put_op k v c) = drop (length (?l @ [(k, v)]) - routeEchoCacheCap) ?l @ (k, v) # []"
    using put_recent [OF assms(1)] by (simp add: lru_put_def Let_def)
  from put_list_keeps [OF put_inv [OF assms(1)] this, where kvs = kvs] assms(2,3)
  obtain pre post where l: "recent (put_list kvs (put_op k v c)) = pre @ (k, v) # post" by auto
  have i: "inv (put_list kvs (put_op k v c))" using put_list_inv put_inv assms(1) by blast
  from recent_distinct [OF this] l have "k \<notin> fst ` set pre" by auto
  then have "map_of pre k = None" by (simp add: map_of_eq_None_iff)
  then show ?thesis using get_value [OF i] l by (simp add: map_add_def)
qed

end

section \<open>The cache\<close>

definition echo_inv :: "'f routeEchoCache \<Rightarrow> bool" where
  "echo_inv c \<longleftrightarrow> distinct (ec_order c) \<and> distinct (map fst (ec_entries c)) \<and>
     set (ec_order c) = fst ` set (ec_entries c) \<and> length (ec_order c) \<le> routeEchoCacheCap"

definition binds :: "(string \<times> 'v) list \<Rightarrow> string list \<Rightarrow> (string \<times> 'v) list" where
  "binds entries order = map (\<lambda>i. (i, the (map_of entries i))) order"

definition recency :: "'f routeEchoCache \<Rightarrow> (string \<times> 'f jobj) list" where
  "recency c = binds (ec_entries c) (ec_order c)"

lemma remove1_filter: "distinct xs \<Longrightarrow> remove1 k xs = filter (\<lambda>i. i \<noteq> k) xs"
proof (induction xs)
  case (Cons x xs)
  have "filter (\<lambda>i. i \<noteq> k) xs = xs" if "k \<notin> set xs" using that by (auto simp: filter_id_conv)
  then show ?case using Cons by auto
qed simp

lemma keys_delete: "fst ` set (AList.delete k al) = fst ` set al - {k}"
  by (metis delete_keys set_map set_removeAll)

lemma evict_order: "fst (evict order entries) = drop (length order - routeEchoCacheCap) order"
  by (induction order entries rule: evict.induct) (auto simp: Suc_diff_le)

lemma evict_map:
  "map_of (snd (evict order entries)) i =
     (if i \<in> set (take (length order - routeEchoCacheCap) order) then None else map_of entries i)"
  by (induction order entries rule: evict.induct) (auto simp: Suc_diff_le delete_conv')

lemma evict_keys:
  "distinct (map fst entries) \<Longrightarrow> distinct (map fst (snd (evict order entries)))"
  "fst ` set (snd (evict order entries)) = fst ` set entries - set (take (length order - routeEchoCacheCap) order)"
  by (induction order entries rule: evict.induct) (auto simp: Suc_diff_le distinct_delete keys_delete simp del: delete_keys)

lemma evict_inv:
  assumes "distinct order" "distinct (map fst entries)" "set order = fst ` set entries" "evict order entries = (order', entries')"
  shows "distinct order'" "distinct (map fst entries')" "set order' = fst ` set entries'" "length order' \<le> routeEchoCacheCap"
    "binds entries' order' = drop (length order - routeEchoCacheCap) (binds entries order)"
proof -
  let ?n = "length order - routeEchoCacheCap"
  have o: "order' = drop ?n order" using evict_order [of order entries] assms(4) by simp
  have split: "set order = set (take ?n order) \<union> set (drop ?n order)" "set (take ?n order) \<inter> set (drop ?n order) = {}"
    using assms(1) by (metis append_take_drop_id set_append, metis append_take_drop_id distinct_append)
  show "distinct order'" "length order' \<le> routeEchoCacheCap" using assms(1) by (simp_all add: o)
  show "distinct (map fst entries')" using evict_keys(1) [OF assms(2), of order] assms(4) by simp
  show "set order' = fst ` set entries'" using evict_keys(2) [of order entries] assms(3,4) split o by auto
  show "binds entries' order' = drop ?n (binds entries order)"
    using evict_map [of order entries] assms(4) split(2) by (auto simp: binds_def o drop_map)
qed

lemma binds_map_of: "distinct order \<Longrightarrow> set order = fst ` set entries \<Longrightarrow> map_of (binds entries order) k = map_of entries k"
proof (cases "k \<in> set order")
  case True
  assume "distinct order" "set order = fst ` set entries"
  with True obtain v where v: "map_of entries k = Some v" by (metis map_of_eq_None_iff not_None_eq)
  have "(k, v) \<in> set (binds entries order)" using True v by (auto simp: binds_def)
  then show ?thesis using v \<open>distinct order\<close> by (simp add: binds_def comp_def)
next
  case False
  assume "set order = fst ` set entries"
  then have "map_of entries k = None" "map_of (binds entries order) k = None"
    using False by (simp_all add: map_of_eq_None_iff binds_def image_image)
  then show ?thesis by simp
qed

lemma binds_filter: "filter (\<lambda>e. fst e \<noteq> k) (binds entries order) = binds entries (filter (\<lambda>i. i \<noteq> k) order)"
  by (simp add: binds_def filter_map comp_def)

lemma binds_update_other: "k \<notin> set order \<Longrightarrow> binds (AList.update k v entries) order = binds entries order"
  by (auto simp: binds_def update_conv')

text \<open>The order after a put and before the eviction.\<close>

lemma put_order:
  assumes "echo_inv c"
  shows "put_entry k v c = (let (order', entries') =
      evict (filter (\<lambda>i. i \<noteq> k) (ec_order c) @ [k]) (AList.update k v (ec_entries c)) in
      c\<lparr>ec_order := order', ec_entries := entries'\<rparr>)"
proof -
  have "(map_of (ec_entries c) k \<noteq> None) = (k \<in> set (ec_order c))"
    using assms by (auto simp: echo_inv_def map_of_eq_None_iff)
  moreover have "remove1 k (ec_order c) = filter (\<lambda>i. i \<noteq> k) (ec_order c)"
    using assms by (simp add: echo_inv_def remove1_filter)
  moreover have "filter (\<lambda>i. i \<noteq> k) (ec_order c) = ec_order c" if "k \<notin> set (ec_order c)"
    using that by (auto simp: filter_id_conv)
  ultimately show ?thesis by (auto simp: put_entry_def touchLocked_def Let_def split: prod.splits)
qed

lemma put_entry_refines:
  assumes "echo_inv c"
  shows "echo_inv (put_entry k v c)" "recency (put_entry k v c) = lru_put k v (recency c)"
proof -
  let ?order = "filter (\<lambda>i. i \<noteq> k) (ec_order c) @ [k]" and ?entries = "AList.update k v (ec_entries c)"
  obtain order' entries' where e: "evict ?order ?entries = (order', entries')" by fastforce
  have p: "put_entry k v c = c\<lparr>ec_order := order', ec_entries := entries'\<rparr>" using put_order [OF assms] e by simp
  have o: "distinct ?order" "distinct (map fst ?entries)" "set ?order = fst ` set ?entries"
    using assms by (auto simp: echo_inv_def distinct_update dom_update [unfolded dom_map_of_conv_image_fst])
  note ev = evict_inv [OF o e]
  show "echo_inv (put_entry k v c)" using ev(1-4) by (simp add: p echo_inv_def)
  have "binds ?entries ?order = filter (\<lambda>e. fst e \<noteq> k) (recency c) @ [(k, v)]"
    by (simp add: recency_def binds_filter binds_update_other) (simp add: binds_def update_conv')
  moreover have "length ?order = length (filter (\<lambda>e. fst e \<noteq> k) (recency c) @ [(k, v)])"
    by (simp add: recency_def binds_filter) (simp add: binds_def)
  ultimately show "recency (put_entry k v c) = lru_put k v (recency c)"
    using ev(5) unfolding lru_put_def Let_def by (simp add: p recency_def)
qed

lemma get_refines:
  assumes "echo_inv c"
  shows "fst (get k c) = map_of (recency c) k" "echo_inv (snd (get k c))" "recency (snd (get k c)) = lru_touch k (recency c)"
proof -
  have m: "map_of (recency c) k = map_of (ec_entries c) k"
    using assms by (simp add: recency_def binds_map_of echo_inv_def)
  have mem: "k \<in> set (ec_order c) \<longleftrightarrow> map_of (ec_entries c) k \<noteq> None"
    using assms by (auto simp: echo_inv_def map_of_eq_None_iff)
  have r: "remove1 k (ec_order c) = filter (\<lambda>i. i \<noteq> k) (ec_order c)"
    using assms by (simp add: echo_inv_def remove1_filter)
  have "length (filter (\<lambda>i. i \<noteq> k) (ec_order c)) < length (ec_order c)" if "k \<in> set (ec_order c)"
    using that by (simp add: length_filter_less)
  then have len: "Suc (length (filter (\<lambda>i. i \<noteq> k) (ec_order c))) \<le> routeEchoCacheCap" if "map_of (ec_entries c) k \<noteq> None"
    using that mem assms by (fastforce simp: echo_inv_def)
  show "fst (get k c) = map_of (recency c) k" unfolding m by (simp add: get_def split: option.split)
  show "echo_inv (snd (get k c))"
  proof (cases "map_of (ec_entries c) k")
    case (Some v)
    then have "k \<in> fst ` set (ec_entries c)" by (metis map_of_eq_None_iff option.distinct(1))
    then show ?thesis using Some assms mem r len by (auto simp: get_def touchLocked_def echo_inv_def)
  qed (use assms in \<open>simp add: get_def\<close>)
  show "recency (snd (get k c)) = lru_touch k (recency c)"
    using m mem r by (auto simp: get_def touchLocked_def lru_touch_def recency_def binds_filter split: option.split)
      (auto simp: binds_def)
qed

interpretation echo: lru_cache echo_inv recency put_entry get
proof
  show "distinct (map fst (recency c))" if "echo_inv c" for c :: "'a routeEchoCache"
    using that by (simp add: recency_def binds_def comp_def echo_inv_def)
qed (simp_all add: put_entry_refines get_refines)

text \<open>
  C19. The echo cache refines a least-recently-used list: whatever is put, the bindings in order of
  use are those of the specification, the newest 64 at most; a lookup returns the bound value and
  makes the binding the youngest; and the index stays a permutation of the stored keys.
\<close>

theorem echo_refines_lru:
  assumes "echo_inv c"
  shows "echo_inv (put_entry k v c) \<and> recency (put_entry k v c) = lru_put k v (recency c) \<and>
    echo_inv (snd (get k c)) \<and> fst (get k c) = map_of (recency c) k \<and>
    recency (snd (get k c)) = lru_touch k (recency c)"
  using assms echo.put_inv echo.put_recent echo.get_inv echo.get_value echo.get_recent by blast

lemma empty_inv: "echo_inv empty_cache"
  by (simp add: echo_inv_def empty_cache_def)

theorem echo_refines_lru_witness:
  "recency (put_entry ''a'' [(''role'', JBool True :: bool json)] empty_cache) = [(''a'', [(''role'', JBool True)])]"
proof -
  have e: "recency (empty_cache :: bool routeEchoCache) = []" by (simp add: recency_def binds_def empty_cache_def)
  have "recency (put_entry ''a'' [(''role'', JBool True)] empty_cache) =
      lru_put ''a'' [(''role'', JBool True)] (recency (empty_cache :: bool routeEchoCache))"
    using echo_refines_lru [OF empty_inv, of "''a''" "[(''role'', JBool True)]"] by blast
  then show ?thesis unfolding e by (simp add: lru_put_def routeEchoCacheCap_def)
qed

section \<open>The sidecar\<close>

lemma load_order_inv:
  assumes "load_order snap seen is entries order = (entries', order')" "set seen = set order"
    and "distinct order" "distinct (map fst entries)" "set order = fst ` set entries"
  shows "distinct order' \<and> distinct (map fst entries') \<and> set order' = fst ` set entries'"
  using assms
proof (induction snap seen "is" entries order rule: load_order.induct)
  case (2 snap seen i "is" entries order)
  show ?case
  proof (cases "i \<in> set seen \<or> map_of snap i = None")
    case True
    then show ?thesis using 2 by (cases "i \<in> set seen") auto
  next
    case False
    then obtain v where v: "map_of snap i = Some v" "i \<notin> set seen" by auto
    have "fst ` set (AList.update i v entries) = insert i (fst ` set entries)"
      using dom_update [of i v entries] by (simp add: dom_map_of_conv_image_fst)
    then show ?thesis using 2(3) [OF v(2,1)] "2.prems" v by (auto simp: distinct_update)
  qed
qed auto

text \<open>Loading back a snapshot of a cache whose keys are its order gives the same bindings.\<close>

lemma load_order_same:
  "distinct (seen' @ is) \<Longrightarrow> set seen = set seen' \<Longrightarrow> set is \<subseteq> fst ` set snap \<Longrightarrow> set seen' = fst ` set entries \<Longrightarrow>
   (\<And>i. i \<in> set seen' \<Longrightarrow> map_of entries i = map_of snap i) \<Longrightarrow>
   \<exists>entries'. load_order snap seen is entries seen' = (entries', seen' @ is) \<and>
     (\<forall>i \<in> set (seen' @ is). map_of entries' i = map_of snap i)"
proof (induction "is" arbitrary: seen seen' entries)
  case (Cons i "is")
  obtain v where v: "map_of snap i = Some v" using Cons.prems(3) by (metis list.set_intros(1) map_of_eq_None_iff not_Some_eq subset_iff)
  have "fst ` set (AList.update i v entries) = insert i (fst ` set entries)"
    using dom_update [of i v entries] by (simp add: dom_map_of_conv_image_fst)
  then have "\<exists>entries'. load_order snap (i # seen) is (AList.update i v entries) (seen' @ [i]) = (entries', (seen' @ [i]) @ is) \<and>
      (\<forall>k \<in> set ((seen' @ [i]) @ is). map_of entries' k = map_of snap k)"
  proof (intro Cons.IH)
    fix k assume "k \<in> set (seen' @ [i])"
    then show "map_of (AList.update i v entries) k = map_of snap k"
      using Cons.prems(5) [of k] v by (cases "k = i") (simp_all add: update_conv')
  qed (use Cons.prems(1-4) in auto)
  then show ?case using Cons.prems v by auto
qed auto

lemma load_inv: "echo_inv c \<Longrightarrow> echo_inv (loadLocked cd file c)"
proof -
  have "echo_inv (c\<lparr>ec_entries := entries', ec_order := order'\<rparr>)"
    if "load_order es [] os [] [] = (entries, order)" "evict order entries = (order', entries')" for es os entries order order' entries'
    using load_order_inv [OF that(1)] evict_inv [OF _ _ _ that(2)] by (simp add: echo_inv_def)
  then show "echo_inv c \<Longrightarrow> echo_inv (loadLocked cd file c)"
    by (auto simp: loadLocked_def Let_def split: option.splits prod.splits)
qed

lemma load_snapshot:
  assumes "echo_inv c" "cd_unmarshal cd raw = Some snap" "path \<noteq> []"
    and "sn_Order snap = ec_order c" "sn_Entries snap = Some es" "map_of es = map_of (ec_entries c)"
  shows "recency (enablePersistence cd (Some raw) path empty_cache) = recency c"
proof -
  have keys: "fst ` set es = fst ` set (ec_entries c)" using assms(6) by (metis dom_map_of_conv_image_fst)
  obtain entries' where l: "load_order es [] (ec_order c) [] [] = (entries', ec_order c)"
    "\<forall>i \<in> set (ec_order c). map_of entries' i = map_of (ec_entries c) i"
    using load_order_same [of "[]" "ec_order c" "[]" es "[]"] assms(1,6) keys by (auto simp: echo_inv_def)
  have "evict (ec_order c) entries' = (ec_order c, entries')"
    using assms(1) by (cases "ec_order c") (auto simp: echo_inv_def)
  then have "enablePersistence cd (Some raw) path empty_cache =
      \<lparr>ec_entries = entries', ec_order = ec_order c, ec_persistPath = path\<rparr>"
    using assms(2-5) l(1) by (simp add: enablePersistence_def loadLocked_def empty_cache_def)
  then show ?thesis using l(2) by (auto simp: recency_def binds_def)
qed

text \<open>
  C30. The cache survives a restart: after a consult was stored and the sidecar written, a new
  process that loads the sidecar has the same bindings in the same order of use; and whatever the
  file contains, damaged, edited or from another version, the loaded cache satisfies the invariant.
\<close>

theorem echo_survives_restart:
  assumes "echo_inv c" "ec_persistPath c = path" "path \<noteq> []" "rid \<noteq> []" "flds \<noteq> []"
    and "put cd NoFault rid flds (c, file) = (c', file')"
    and "cd_marshal cd \<lparr>sn_Order = ec_order c', sn_Entries = Some (ec_entries c')\<rparr> = Some raw"
    and "\<exists>es. cd_unmarshal cd raw = Some \<lparr>sn_Order = ec_order c', sn_Entries = Some es\<rparr> \<and> map_of es = map_of (ec_entries c')"
  shows "recency (enablePersistence cd file' path empty_cache) = lru_put rid flds (recency c) \<and>
    echo_inv (enablePersistence cd any_file path empty_cache)"
proof -
  have c': "c' = put_entry rid flds c" and "file' = saveLocked cd NoFault c' file"
    using assms(4-6) by (auto simp: put_def Let_def)
  have p: "ec_persistPath c' = path"
    using assms(2) unfolding c' by (simp add: put_entry_def touchLocked_def Let_def split: prod.split)
  have inv: "echo_inv c'" and rec: "recency c' = lru_put rid flds (recency c)"
    using put_entry_refines [OF assms(1)] by (simp_all add: c')
  obtain es where es: "cd_unmarshal cd raw = Some \<lparr>sn_Order = ec_order c', sn_Entries = Some es\<rparr>"
    "map_of es = map_of (ec_entries c')" using assms(8) by blast
  have "file' = Some raw" using \<open>file' = _\<close> assms(3,7) p by (simp add: saveLocked_def)
  moreover have "recency (enablePersistence cd (Some raw) path empty_cache) = recency c'"
    using load_snapshot [OF inv es(1) assms(3)] es(2) by simp
  moreover have "echo_inv (enablePersistence cd any_file path empty_cache)"
    using load_inv [of "empty_cache\<lparr>ec_persistPath := path\<rparr>"] by (simp add: enablePersistence_def echo_inv_def empty_cache_def)
  ultimately show ?thesis using rec by simp
qed

text \<open>A codec for the one snapshot of the example.\<close>

definition one_snapshot :: "bool routeEchoSnapshot" where
  "one_snapshot = \<lparr>sn_Order = [''a''], sn_Entries = Some [(''a'', [(''role'', JBool True)])]\<rparr>"

definition one_codec :: "bool codec" where
  "one_codec = \<lparr>cd_marshal = (\<lambda>_. Some ''S''), cd_unmarshal = (\<lambda>s. if s = ''S'' then Some one_snapshot else None)\<rparr>"

theorem echo_survives_restart_witness:
  "recency (enablePersistence one_codec (Some ''S'') ''p'' empty_cache) = [(''a'', [(''role'', JBool True)])]"
proof -
  let ?c = "empty_cache\<lparr>ec_persistPath := ''p''\<rparr> :: bool routeEchoCache"
  let ?f = "[(''role'', JBool True)]"
  have inv: "echo_inv ?c" by (simp add: echo_inv_def empty_cache_def)
  have put: "put one_codec NoFault ''a'' ?f (?c, None) =
      (\<lparr>ec_entries = [(''a'', ?f)], ec_order = [''a''], ec_persistPath = ''p''\<rparr>, Some ''S'')"
    by (simp add: put_def put_entry_def saveLocked_def one_codec_def empty_cache_def routeEchoCacheCap_def Let_def)
  from echo_survives_restart [OF inv _ _ _ _ put, of "''p''" "''S''"] show ?thesis
    by (simp add: one_codec_def one_snapshot_def lru_put_def recency_def binds_def empty_cache_def routeEchoCacheCap_def)
qed

section \<open>Completing an outcome\<close>

lemma fill_card_map:
  "map_of (fst (fill_card cached crd filled)) k = (case map_of crd k of Some v \<Rightarrow> Some v | None \<Rightarrow> map_of cached k)"
  by (induction cached crd filled rule: fill_card.induct) (auto simp: update_conv' split: option.splits)

text \<open>
  An outcome report is completed from its own consult: if the consult is among the last 64
  stored ones, the report sent to the router has every field the caller gave, unchanged, and every
  other field that the consult recorded, and no more.
\<close>

theorem outcome_completed:
  assumes "echo_inv c" "length later < 64" "rid \<notin> fst ` set later" "rid \<noteq> []"
    and "routerRequestID fmt (map_of crd ''request_id'') = rid"
  shows "case autofillOutcomeEcho fmt crd (foldl (\<lambda>c (r, f). put_entry r f c) (put_entry rid flds c) later) of
    ((crd', filled, hit), _) \<Rightarrow> hit \<and>
      (\<forall>k. map_of crd' k = (case map_of crd k of Some v \<Rightarrow> Some v | None \<Rightarrow> map_of flds k))"
proof -
  let ?c = "foldl (\<lambda>c (r, f). put_entry r f c) (put_entry rid flds c) later"
  have "fst (get rid ?c) = Some flds"
    using echo.remembers [OF assms(1), of later rid flds] assms(2,3) by (simp add: echo.put_list_def routeEchoCacheCap_def)
  then obtain c1 where "get rid ?c = (Some flds, c1)" by (metis prod.collapse)
  moreover obtain crd' filled where fc: "fill_card flds crd [] = (crd', filled)" by (metis prod.collapse)
  moreover have "map_of crd' k = (case map_of crd k of Some v \<Rightarrow> Some v | None \<Rightarrow> map_of flds k)" for k
    using fill_card_map [of flds crd "[]" k] fc by simp
  ultimately show ?thesis using assms(4,5) by (simp add: autofillOutcomeEcho_def)
qed

theorem outcome_completed_witness:
  "case autofillOutcomeEcho (\<lambda>_::bool. []) [(''request_id'', JStr ''a''), (''role'', JStr ''me'')]
      (put_entry ''a'' [(''role'', JStr ''x''), (''lane'', JStr ''y'')] empty_cache) of
    ((crd', filled, hit), _) \<Rightarrow> hit \<and> map_of crd' ''role'' = Some (JStr ''me'') \<and> map_of crd' ''lane'' = Some (JStr ''y'')"
proof -
  let ?crd = "[(''request_id'', JStr ''a''), (''role'', JStr ''me'')] :: bool jobj"
  let ?flds = "[(''role'', JStr ''x''), (''lane'', JStr ''y'')] :: bool jobj"
  obtain crd' filled hit c where r: "autofillOutcomeEcho (\<lambda>_. []) ?crd (put_entry ''a'' ?flds empty_cache) = ((crd', filled, hit), c)"
    by (metis prod.collapse)
  have "case autofillOutcomeEcho (\<lambda>_. []) ?crd (put_entry ''a'' ?flds empty_cache) of ((crd', filled, hit), _) \<Rightarrow>
      hit \<and> (\<forall>k. map_of crd' k = (case map_of ?crd k of Some v \<Rightarrow> Some v | None \<Rightarrow> map_of ?flds k))"
    using outcome_completed [OF empty_inv, of "[]" "''a''" "\<lambda>_. []" ?crd ?flds] by (simp add: routerRequestID_def)
  then show ?thesis unfolding r by simp
qed

end
