(* ===== verification/Net_Addr.thy ===== *)
theory Net_Addr
  imports Pincher_Prelude "HOL-Library.Word"
begin

text \<open>
  Network addresses and the guards built on them (\<^verbatim>\<open>internal/server/server.go\<close>): the
  default-deny gate of the HTTP listener (\<open>isLoopbackBind\<close>, \<open>listen_gate\<close>) and the guard of the
  fetch tool against requests into private networks (\<open>validateFetchURL\<close>,
  \<open>fetchIPBlockReason\<close>, \<open>fetchDialControl\<close>, \<open>check_redirect\<close>).  The first section
  models what the code uses of Go's \<^verbatim>\<open>net\<close> package: an address is its byte list, of length 4 or 16.
\<close>

unbundle bit_operations_syntax

section \<open>The net package\<close>

type_synonym ip = "8 word list"

definition index_char :: "char \<Rightarrow> string \<Rightarrow> nat option" where
  "index_char c s = (if c \<in> set s then Some (length (takeWhile (\<lambda>x. x \<noteq> c) s)) else None)"

definition last_index_char :: "char \<Rightarrow> string \<Rightarrow> nat option" where
  "last_index_char c s =
     (if c \<in> set s then Some (length s - 1 - length (takeWhile (\<lambda>x. x \<noteq> c) (rev s))) else None)"

datatype addr_err = MissingPort | TooManyColons | MissingBracket | UnexpectedBracket

text \<open>\<^verbatim>\<open>net.SplitHostPort\<close>, its checks in their order.\<close>

definition split_rest :: "string \<Rightarrow> nat \<Rightarrow> nat \<Rightarrow> nat \<Rightarrow> string \<Rightarrow> addr_err + (string \<times> string)" where
  "split_rest hostport i j k host =
     (if CHR ''['' \<in> set (drop j hostport) \<or> CHR '']'' \<in> set (drop k hostport) then Inl UnexpectedBracket
      else Inr (host, drop (i + 1) hostport))"

definition SplitHostPort :: "string \<Rightarrow> addr_err + (string \<times> string)" where
  "SplitHostPort hostport =
     (case last_index_char CHR '':'' hostport of
        None \<Rightarrow> Inl MissingPort
      | Some i \<Rightarrow>
          if hd hostport = CHR ''['' then
            (case index_char CHR '']'' hostport of
               None \<Rightarrow> Inl MissingBracket
             | Some e \<Rightarrow>
                 if e + 1 = length hostport then Inl MissingPort
                 else if e + 1 = i then split_rest hostport i 1 (e + 1) (drop 1 (take e hostport))
                 else if hostport ! (e + 1) = CHR '':'' then Inl TooManyColons
                 else Inl MissingPort)
          else let host = take i hostport in
            if CHR '':'' \<in> set host then Inl TooManyColons else split_rest hostport i 0 0 host)"

definition JoinHostPort :: "string \<Rightarrow> string \<Rightarrow> string" where
  "JoinHostPort host port =
     (if CHR '':'' \<in> set host then ''['' @ host @ '']:'' @ port else host @ '':'' @ port)"

text \<open>
  \<^verbatim>\<open>netip.parseIPv4Fields\<close>: one pass over the bytes with the value and the number of digits of
  the current field and the fields done so far.
\<close>

fun v4_loop :: "string \<Rightarrow> nat \<Rightarrow> nat \<Rightarrow> ip \<Rightarrow> ip option" where
  "v4_loop [] val digLen done_fields =
     (if length done_fields < 3 then None else Some (done_fields @ [of_nat val]))"
| "v4_loop (c # s) val digLen done_fields =
     (if is_digit c then
        (if digLen = 1 \<and> val = 0 then None
         else let val' = val * 10 + digit_val c in
           if val' > 255 then None else v4_loop s val' (digLen + 1) done_fields)
      else if c = CHR ''.'' then
        (if digLen = 0 \<or> s = [] then None
         else if length done_fields = 3 then None
         else v4_loop s 0 0 (done_fields @ [of_nat val]))
      else None)"

definition parseIPv4 :: "string \<Rightarrow> ip option" where
  "parseIPv4 s = v4_loop s 0 0 []"

definition is_hex :: "char \<Rightarrow> bool" where
  "is_hex c \<longleftrightarrow> is_digit c \<or> (CHR ''a'' \<le> c \<and> c \<le> CHR ''f'') \<or> (CHR ''A'' \<le> c \<and> c \<le> CHR ''F'')"

definition hex_val :: "char \<Rightarrow> nat" where
  "hex_val c = (if is_digit c then of_char c - 48 else if CHR ''a'' \<le> c then of_char c - 87 else of_char c - 55)"

text \<open>
  The loop of \<^verbatim>\<open>netip.parseIPv6\<close>: hexadecimal groups of at most four digits, at most one
  \<^verbatim>\<open>::\<close>, and possibly a trailing dotted address.  The result is the unread input, the bytes and
  the position of the ellipsis.
\<close>

function (sequential) v6_loop :: "string \<Rightarrow> ip \<Rightarrow> nat option \<Rightarrow> (string \<times> ip \<times> nat option) option" where
  "v6_loop s bs ell =
     (if length bs \<ge> 16 then Some (s, bs, ell)
      else
        let h = takeWhile is_hex s; rest = dropWhile is_hex s in
        if length h > 4 \<or> h = [] then None
        else if rest \<noteq> [] \<and> hd rest = CHR ''.'' then
          (if ell = None \<and> length bs \<noteq> 12 then None
           else if length bs + 4 > 16 then None
           else map_option (\<lambda>b4. ([], bs @ b4, ell)) (parseIPv4 s))
        else
          let acc = foldl (\<lambda>a c. a * 16 + hex_val c) 0 h;
              bs' = bs @ [of_nat (acc div 256), of_nat acc]
          in (case rest of
                [] \<Rightarrow> Some ([], bs', ell)
              | c # t \<Rightarrow>
                  if c \<noteq> CHR '':'' \<or> t = [] then None
                  else if hd t = CHR '':'' then
                    (if ell \<noteq> None then None
                     else if tl t = [] then Some ([], bs', Some (length bs'))
                     else v6_loop (tl t) bs' (Some (length bs')))
                  else v6_loop t bs' ell))"
  by pat_completeness auto
termination by (relation "measure (\<lambda>(s, bs, ell). 16 - length bs)") auto

declare v6_loop.simps [simp del]

definition v6_finish :: "string \<times> ip \<times> nat option \<Rightarrow> ip option" where
  "v6_finish r = (case r of (s, bs, ell) \<Rightarrow>
     if s \<noteq> [] then None
     else if length bs < 16 then
       (case ell of None \<Rightarrow> None | Some e \<Rightarrow> Some (take e bs @ replicate (16 - length bs) 0 @ drop e bs))
     else if ell \<noteq> None then None else Some bs)"

definition parseIPv6 :: "string \<Rightarrow> ip option" where
  "parseIPv6 s =
     (if take 2 s = ''::'' then
        (if drop 2 s = [] then Some (replicate 16 0)
         else Option.bind (v6_loop (drop 2 s) [] (Some 0)) v6_finish)
      else Option.bind (v6_loop s [] None) v6_finish)"

definition v4_in_v6 :: ip where
  "v4_in_v6 = replicate 10 0 @ [0xff, 0xff]"

text \<open>
  \<^verbatim>\<open>net.ParseIP\<close>: the 16-byte form; an address with a zone is refused.
\<close>

definition ParseIP :: "string \<Rightarrow> ip option" where
  "ParseIP s =
     (if CHR ''%'' \<in> set s then None
      else case dropWhile (\<lambda>c. c \<noteq> CHR ''.'' \<and> c \<noteq> CHR '':'') s of
        [] \<Rightarrow> None
      | c # _ \<Rightarrow> if c = CHR ''.'' then map_option (\<lambda>b. v4_in_v6 @ b) (parseIPv4 s) else parseIPv6 s)"

definition To4 :: "ip \<Rightarrow> ip option" where
  "To4 ip =
     (if length ip = 4 then Some ip
      else if length ip = 16 \<and> take 12 ip = v4_in_v6 then Some (drop 12 ip)
      else None)"

definition ip_equal :: "ip \<Rightarrow> ip \<Rightarrow> bool" where
  "ip_equal a b =
     (if length a = length b then a = b
      else if length a = 4 \<and> length b = 16 then take 12 b = v4_in_v6 \<and> a = drop 12 b
      else if length a = 16 \<and> length b = 4 then take 12 a = v4_in_v6 \<and> drop 12 a = b
      else False)"

definition IPv6loopback :: ip where "IPv6loopback = replicate 15 0 @ [1]"
definition IPv6unspecified :: ip where "IPv6unspecified = replicate 16 0"
definition IPv4zero :: ip where "IPv4zero = v4_in_v6 @ replicate 4 0"

definition IsLoopback :: "ip \<Rightarrow> bool" where
  "IsLoopback ip = (case To4 ip of Some b \<Rightarrow> b ! 0 = 127 | None \<Rightarrow> ip_equal ip IPv6loopback)"

definition IsPrivate :: "ip \<Rightarrow> bool" where
  "IsPrivate ip =
     (case To4 ip of
        Some b \<Rightarrow> b ! 0 = 10 \<or> (b ! 0 = 172 \<and> b ! 1 AND 0xf0 = 16) \<or> (b ! 0 = 192 \<and> b ! 1 = 168)
      | None \<Rightarrow> length ip = 16 \<and> ip ! 0 AND 0xfe = 0xfc)"

definition IsLinkLocalUnicast :: "ip \<Rightarrow> bool" where
  "IsLinkLocalUnicast ip =
     (case To4 ip of
        Some b \<Rightarrow> b ! 0 = 169 \<and> b ! 1 = 254
      | None \<Rightarrow> length ip = 16 \<and> ip ! 0 = 0xfe \<and> ip ! 1 AND 0xc0 = 0x80)"

definition IsMulticast :: "ip \<Rightarrow> bool" where
  "IsMulticast ip =
     (case To4 ip of Some b \<Rightarrow> b ! 0 AND 0xf0 = 0xe0 | None \<Rightarrow> length ip = 16 \<and> ip ! 0 = 0xff)"

definition IsUnspecified :: "ip \<Rightarrow> bool" where
  "IsUnspecified ip \<longleftrightarrow> ip_equal ip IPv4zero \<or> ip_equal ip IPv6unspecified"

lemmas ip_predicate_defs =
  IsLoopback_def IsPrivate_def IsLinkLocalUnicast_def IsMulticast_def IsUnspecified_def

section \<open>The listener's gate\<close>

text \<open>
  \<^verbatim>\<open>strings.EqualFold\<close> with an ASCII word: beside the letters of the other case, the only
  characters that fold to an ASCII letter are the long s (U+017F) and the Kelvin sign (U+212A).
\<close>

fun fold_ascii :: "string \<Rightarrow> string" where
  "fold_ascii [] = []"
| "fold_ascii (c # s) =
     (if c = CHR 0xC5 \<and> take 1 s = [CHR 0xBF] then CHR ''s'' # fold_ascii (drop 1 s)
      else if c = CHR 0xE2 \<and> take 2 s = [CHR 0x84, CHR 0xAA] then CHR ''k'' # fold_ascii (drop 2 s)
      else lower_char c # fold_ascii s)"

definition displayAddr :: "string \<Rightarrow> string" where
  "displayAddr addr =
     (case SplitHostPort addr of
        Inl _ \<Rightarrow> addr
      | Inr (host, port) \<Rightarrow>
          JoinHostPort (if host = [] \<or> host = ''::'' \<or> host = ''0.0.0.0'' then ''localhost'' else host) port)"

definition isLoopbackBind :: "string \<Rightarrow> bool" where
  "isLoopbackBind addr =
     (case SplitHostPort addr of
        Inl _ \<Rightarrow> False
      | Inr (host, _) \<Rightarrow>
          if host = [] \<or> host = ''0.0.0.0'' \<or> host = ''::'' then False
          else case ParseIP host of
            None \<Rightarrow> fold_ascii host = ''localhost''
          | Some ip \<Rightarrow> IsLoopback ip)"

text \<open>The first statement of \<^verbatim>\<open>ListenAndServeHTTP\<close>: whether the bind is refused.\<close>

definition listen_gate :: "string \<Rightarrow> bool \<Rightarrow> string \<Rightarrow> bool" where
  "listen_gate httpKey httpAllowOpen addr \<longleftrightarrow> httpKey = [] \<and> \<not> httpAllowOpen \<and> \<not> isLoopbackBind addr"

section \<open>The fetch guard\<close>

definition maxFetchRedirects :: nat where "maxFetchRedirects = 5"

definition fetchIPBlockReason :: "bool \<Rightarrow> ip \<Rightarrow> string" where
  "fetchIPBlockReason fetchAllowLoopback ip =
     (if IsLoopback ip then (if fetchAllowLoopback then [] else ''loopback address'')
      else if IsLinkLocalUnicast ip then ''link-local address (cloud metadata range)''
      else if IsPrivate ip then ''private network address (RFC1918/RFC4193)''
      else if IsMulticast ip then ''multicast address''
      else if IsUnspecified ip then ''unspecified address''
      else [])"

datatype fetch_err = InvalidURL | SchemeNotAllowed string | NoHost | LookupFailed string | NoAddresses string
  | Blocked string string ip | DialSplit string | DialParse string | DialBlocked string ip
  | TooManyRedirects | RedirectBlocked fetch_err

text \<open>
  \<open>parse\<close> is \<^verbatim>\<open>url.Parse\<close>, giving the scheme and the host name; \<open>lookup\<close> is the
  name service at the moment of the call.
\<close>

fun first_blocked :: "bool \<Rightarrow> string \<Rightarrow> ip list \<Rightarrow> fetch_err option" where
  "first_blocked allow host [] = None"
| "first_blocked allow host (ip # ips) =
     (let r = fetchIPBlockReason allow ip in
      if r \<noteq> [] then Some (Blocked r host ip) else first_blocked allow host ips)"

definition validateFetchURL :: "bool \<Rightarrow> (string \<Rightarrow> (string \<times> string) option) \<Rightarrow> (string \<Rightarrow> ip list option) \<Rightarrow>
    string \<Rightarrow> fetch_err option" where
  "validateFetchURL allow parse lookup rawURL =
     (case parse rawURL of
        None \<Rightarrow> Some InvalidURL
      | Some (scheme, host) \<Rightarrow>
          if scheme \<noteq> ''http'' \<and> scheme \<noteq> ''https'' then Some (SchemeNotAllowed scheme)
          else if host = [] then Some NoHost
          else case lookup host of
            None \<Rightarrow> Some (LookupFailed host)
          | Some ips \<Rightarrow> if ips = [] then Some (NoAddresses host) else first_blocked allow host ips)"

definition fetchDialControl :: "bool \<Rightarrow> string \<Rightarrow> fetch_err option" where
  "fetchDialControl allow address =
     (case SplitHostPort address of
        Inl _ \<Rightarrow> Some (DialSplit address)
      | Inr (host, _) \<Rightarrow>
          (case ParseIP host of
             None \<Rightarrow> Some (DialParse host)
           | Some ip \<Rightarrow>
               let r = fetchIPBlockReason allow ip in if r \<noteq> [] then Some (DialBlocked r ip) else None))"

definition check_redirect :: "bool \<Rightarrow> (string \<Rightarrow> (string \<times> string) option) \<Rightarrow> (string \<Rightarrow> ip list option) \<Rightarrow>
    nat \<Rightarrow> string \<Rightarrow> fetch_err option" where
  "check_redirect allow parse lookup via target =
     (if via \<ge> maxFetchRedirects then Some TooManyRedirects
      else map_option RedirectBlocked (validateFetchURL allow parse lookup target))"

text \<open>
  The transfer: every hop connects through the dial hook to an address of the transport's own
  lookup, and the \<^verbatim>\<open>http.Client\<close> asks \<open>check_redirect\<close> before it follows a redirect.  A
  \<^emph>\<open>hop\<close> is the literal address dialled and the redirect target of the answer, if any; every hop
  has its own view of the name service.
\<close>

record hop =
  h_address :: string
  h_lookup :: "string \<Rightarrow> ip list option"
  h_redirect :: "string option"

fun follow :: "bool \<Rightarrow> (string \<Rightarrow> (string \<times> string) option) \<Rightarrow> nat \<Rightarrow> hop list \<Rightarrow> string list \<Rightarrow>
    (fetch_err + unit) \<times> string list" where
  "follow allow parse via [] dialled = (Inr (), dialled)"
| "follow allow parse via (h # hs) dialled =
     (case fetchDialControl allow (h_address h) of
        Some e \<Rightarrow> (Inl e, dialled)
      | None \<Rightarrow>
          (case h_redirect h of
             None \<Rightarrow> (Inr (), dialled @ [h_address h])
           | Some target \<Rightarrow>
               (case check_redirect allow parse (h_lookup h) (via + 1) target of
                  Some e \<Rightarrow> (Inl e, dialled @ [h_address h])
                | None \<Rightarrow> follow allow parse (via + 1) hs (dialled @ [h_address h]))))"

definition fetch_transfer :: "bool \<Rightarrow> (string \<Rightarrow> (string \<times> string) option) \<Rightarrow> (string \<Rightarrow> ip list option) \<Rightarrow> string \<Rightarrow>
    hop list \<Rightarrow> (fetch_err + unit) \<times> string list" where
  "fetch_transfer allow parse lookup rawURL hops =
     (case validateFetchURL allow parse lookup rawURL of
        Some e \<Rightarrow> (Inl e, [])
      | None \<Rightarrow> follow allow parse 0 hops [])"

end
