(* ===== verification/Http_Gateway.thy ===== *)
theory Http_Gateway
  imports Net_Addr Json_Value
begin

text \<open>
  The HTTP gateway (\<^verbatim>\<open>internal/server/server.go\<close>, \<^verbatim>\<open>internal/server/request_id.go\<close>):
  correlation ids, the bearer check, the sliding-window rate limiter with its client key, the
  reverse-proxy base path, and the routing of \<open>ServeHTTP\<close> from the method and the path to an
  endpoint, a tool call or an error.  The bodies of the read-only endpoints are not part of the
  routing; a reply names the endpoint.  The digest, the JSON checker, the id generator and the tool
  handlers are parameters.
\<close>

section \<open>Requests and configuration\<close>

record request =
  r_method :: string
  r_path :: string
  r_headers :: "(string \<times> string) list"
  r_remote :: string
  r_body :: string
  r_body_err :: bool

definition header_get :: "request \<Rightarrow> string \<Rightarrow> string" where
  "header_get r k = (case map_of (r_headers r) k of None \<Rightarrow> [] | Some v \<Rightarrow> v)"

record gateway =
  g_httpKey :: string
  g_basePath :: string
  g_trustProxy :: bool
  g_mcpHTTPPath :: string
  g_rateLimit :: int
  g_rateWindow :: int
  g_tools :: "string list"

section \<open>Correlation ids\<close>

definition maxRequestIDLen :: nat where "maxRequestIDLen = 200"

definition printable :: "char \<Rightarrow> bool" where
  "printable c \<longleftrightarrow> CHR 0x20 \<le> c \<and> c \<le> CHR 0x7E"

definition sanitizeRequestID :: "string \<Rightarrow> string \<Rightarrow> string" where
  "sanitizeRequestID fresh raw =
     (if raw = [] \<or> length raw > maxRequestIDLen then fresh
      else if list_all printable raw then raw else fresh)"

section \<open>Base path and client key\<close>

definition trim_right :: "char \<Rightarrow> string \<Rightarrow> string" where
  "trim_right c s = rev (dropWhile (\<lambda>x. x = c) (rev s))"

definition normalizeBasePath :: "string \<Rightarrow> string" where
  "normalizeBasePath p =
     (let p = trim_space p in
      if p = [] \<or> p = ''/'' then []
      else trim_right CHR ''/'' (if has_prefix p ''/'' then p else CHR ''/'' # p))"

definition SetBasePath :: "string \<Rightarrow> gateway \<Rightarrow> gateway" where
  "SetBasePath p g = g\<lparr>g_basePath := normalizeBasePath p\<rparr>"

definition SetMCPHTTPPath :: "string \<Rightarrow> gateway \<Rightarrow> gateway" where
  "SetMCPHTTPPath p g = g\<lparr>g_mcpHTTPPath := normalizeBasePath p\<rparr>"

definition effectivePrefix :: "gateway \<Rightarrow> request \<Rightarrow> string" where
  "effectivePrefix g r =
     (if g_trustProxy g \<and> header_get r ''X-Forwarded-Prefix'' \<noteq> []
      then normalizeBasePath (header_get r ''X-Forwarded-Prefix'')
      else g_basePath g)"

definition remote_host :: "request \<Rightarrow> string" where
  "remote_host r = (case SplitHostPort (r_remote r) of Inr (host, _) \<Rightarrow> host | Inl _ \<Rightarrow> r_remote r)"

definition clientIP :: "gateway \<Rightarrow> request \<Rightarrow> string" where
  "clientIP g r =
     (let xff = header_get r ''X-Forwarded-For'';
          ip = trim_space (case cut_byte CHR '','' xff of None \<Rightarrow> xff | Some (a, _) \<Rightarrow> a)
      in if g_trustProxy g \<and> xff \<noteq> [] \<and> ip \<noteq> [] then
           (case SplitHostPort ip of
              Inr (host, _) \<Rightarrow> if host \<noteq> [] then host else ip
            | Inl _ \<Rightarrow> ip)
         else remote_host r)"

section \<open>Rate limiting\<close>

text \<open>Times and durations are nanoseconds; an address without an entry has no timestamps.\<close>

type_synonym windows = "string \<Rightarrow> int list"

definition SetRateLimit :: "int \<Rightarrow> int \<Rightarrow> gateway \<Rightarrow> gateway \<times> windows" where
  "SetRateLimit limit window g = (g\<lparr>g_rateLimit := limit, g_rateWindow := window\<rparr>, \<lambda>_. [])"

definition allowRequest :: "gateway \<Rightarrow> int \<Rightarrow> string \<Rightarrow> windows \<Rightarrow> bool \<times> windows" where
  "allowRequest g now ip w =
     (if g_rateLimit g \<le> 0 then (True, w)
      else let cutoff = now - g_rateWindow g;
               ts = dropWhile (\<lambda>t. t < cutoff) (w ip)
        in if int (length ts) \<ge> g_rateLimit g then (False, w(ip := ts))
           else (True, w(ip := ts @ [now])))"

section \<open>The bearer check\<close>

definition httpDispatchPath :: "string \<Rightarrow> string" where
  "httpDispatchPath path =
     (if has_prefix path ''/v1/'' then trim_prefix path ''/v1/'' else trim_prefix path ''/'')"

definition public_probes :: "string list" where
  "public_probes = [''health'', ''openapi.json'', ''ready'']"

definition isPublicProbe :: "string \<Rightarrow> string \<Rightarrow> bool" where
  "isPublicProbe meth path \<longleftrightarrow> meth = ''GET'' \<and> httpDispatchPath path \<in> set public_probes"

text \<open>\<open>sha\<close> is SHA-256; the comparison of the digests is equality.\<close>

definition bearer_ok :: "(string \<Rightarrow> 'd) \<Rightarrow> gateway \<Rightarrow> request \<Rightarrow> bool" where
  "bearer_ok sha g r =
     (let auth = header_get r ''Authorization'';
          hasBearer = has_prefix auth ''Bearer '';
          tok = (if hasBearer then drop 7 auth else auth)
      in hasBearer \<and> sha tok = sha (g_httpKey g))"

definition unauthorized :: "(string \<Rightarrow> 'd) \<Rightarrow> gateway \<Rightarrow> string \<Rightarrow> request \<Rightarrow> bool" where
  "unauthorized sha g meth r \<longleftrightarrow> g_httpKey g \<noteq> [] \<and> \<not> isPublicProbe meth (r_path r) \<and> \<not> bearer_ok sha g r"

section \<open>Routing\<close>

datatype answer =
    NoContent
  | Unauthorized
  | RateLimited
  | McpTransport
  | EventStream
  | Redirect string
  | MethodNotAllowed string
  | Endpoint string
  | UnknownTool string
  | BadRequest string
  | InternalError string
  | ToolError string "string option"
  | ToolResult string string

record reply =
  rp_id :: string
  rp_head :: bool
  rp_answer :: answer

definition httpGetOnlyRoutes :: "string list" where
  "httpGetOnlyRoutes = [''dashboard'', ''dashboard.js'', ''dashboard.css'', ''stats'', ''sessions'',
     ''hook-stats'', ''tool-call-stats'', ''tool-calls'', ''tool-tier-stats'', ''tool-payload-stats'',
     ''graph'', ''openapi.json'', ''ready'', ''metrics'']"

text \<open>The endpoints with a handler of their own, by the method they are guarded with.\<close>

definition get_endpoints :: "string list" where
  "get_endpoints = [''dashboard'', ''dashboard.js'', ''dashboard.css'', ''stats'', ''metrics'', ''hook-stats'',
     ''tool-call-stats'', ''tool-calls'', ''tool-tier-stats'', ''tool-payload-stats'', ''graph'', ''capabilities'',
     ''bench-results'', ''sessions'', ''projects'']"

definition delete_endpoints :: "string list" where
  "delete_endpoints = [''projects/empty'', ''projects'']"

text \<open>The base path is stripped when the path starts with it; an empty rest becomes the root.\<close>

definition strip_base :: "string \<Rightarrow> string \<Rightarrow> string" where
  "strip_base base path =
     (let stripped = trim_prefix path base in
      if base = [] \<or> stripped = path then path else if stripped = [] then ''/'' else stripped)"

definition mcp_mounted :: "gateway \<Rightarrow> string \<Rightarrow> bool" where
  "mcp_mounted g path \<longleftrightarrow> g_mcpHTTPPath g \<noteq> [] \<and> (path = g_mcpHTTPPath g \<or> has_prefix path (g_mcpHTTPPath g @ ''/''))"

text \<open>
  A tool's result: a transport error, or the error flag and the text of the first content, if it is
  text.  \<open>rich\<close> reads the error envelope of the tools: the inner message and the rendered next steps.
\<close>

record toolbox =
  tb_valid :: "string \<Rightarrow> bool"
  tb_call :: "string \<Rightarrow> string \<Rightarrow> string + (bool \<times> string option)"
  tb_rich :: "string \<Rightarrow> (string \<times> string option) option"

definition tool_answer :: "toolbox \<Rightarrow> string \<Rightarrow> string \<Rightarrow> answer" where
  "tool_answer tb path body =
     (case tb_call tb path body of
        Inl e \<Rightarrow> InternalError e
      | Inr (True, content) \<Rightarrow>
          (let msg = (case content of None \<Rightarrow> ''empty error result'' | Some t \<Rightarrow> t) in
           case tb_rich tb msg of
             None \<Rightarrow> ToolError msg None
           | Some (inner, next_steps) \<Rightarrow> ToolError inner next_steps)
      | Inr (False, None) \<Rightarrow> InternalError ''empty result from handler''
      | Inr (False, Some t) \<Rightarrow> ToolResult path t)"

definition post_tool :: "gateway \<Rightarrow> toolbox \<Rightarrow> request \<Rightarrow> string \<Rightarrow> answer" where
  "post_tool g tb r path =
     (if path \<notin> set (g_tools g) then
        (if path \<in> set httpGetOnlyRoutes then MethodNotAllowed ''GET, HEAD'' else UnknownTool path)
      else if r_body_err r then BadRequest ''bad_request''
      else let body = take (4 * 2 ^ 20) (r_body r); body = (if body = [] then ''{}'' else body) in
        if tb_valid tb body then tool_answer tb path body else BadRequest ''invalid_json_body'')"

definition dispatch :: "gateway \<Rightarrow> toolbox \<Rightarrow> string \<Rightarrow> string \<Rightarrow> request \<Rightarrow> answer" where
  "dispatch g tb meth urlpath r =
     (if urlpath = ''/'' \<and> meth = ''GET'' then Redirect (effectivePrefix g r @ ''/v1/dashboard'')
      else let path = httpDispatchPath urlpath in
        if path \<in> set httpGetOnlyRoutes \<and> meth \<noteq> ''GET'' then MethodNotAllowed ''GET, HEAD''
        else if path = ''health'' \<and> meth = ''GET'' then Endpoint path
        else if path = ''health'' \<and> meth \<noteq> ''POST'' then MethodNotAllowed ''GET, HEAD, POST''
        else if path = ''openapi.json'' \<or> path = ''ready'' then Endpoint path
        else if path \<in> set get_endpoints \<and> meth = ''GET'' then Endpoint path
        else if path = ''index-progress'' \<and> meth = ''POST'' then Endpoint path
        else if path \<in> set delete_endpoints \<and> meth = ''DELETE'' then Endpoint path
        else if meth \<noteq> ''POST'' then
          (if path \<in> set httpGetOnlyRoutes then MethodNotAllowed ''GET, HEAD''
           else if path \<notin> set (g_tools g) then UnknownTool path
           else MethodNotAllowed [])
        else post_tool g tb r path)"

definition route :: "gateway \<Rightarrow> toolbox \<Rightarrow> string \<Rightarrow> request \<Rightarrow> answer" where
  "route g tb meth r =
     (let urlpath = strip_base (effectivePrefix g r) (r_path r) in
      if mcp_mounted g urlpath then McpTransport
      else if urlpath = ''/v1/events'' then
        (if meth \<noteq> ''GET'' then MethodNotAllowed ''GET'' else EventStream)
      else dispatch g tb meth urlpath r)"

definition ServeHTTP :: "(string \<Rightarrow> 'd) \<Rightarrow> toolbox \<Rightarrow> string \<Rightarrow> gateway \<Rightarrow> int \<Rightarrow> request \<Rightarrow> windows \<Rightarrow> reply \<times> windows" where
  "ServeHTTP sha tb fresh g now r w =
     (let reqID = sanitizeRequestID fresh (header_get r ''X-Request-ID'') in
      if r_method r = ''OPTIONS'' then (\<lparr>rp_id = reqID, rp_head = False, rp_answer = NoContent\<rparr>, w)
      else
        let isHead = (r_method r = ''HEAD''); meth = (if isHead then ''GET'' else r_method r) in
        if unauthorized sha g meth r then (\<lparr>rp_id = reqID, rp_head = isHead, rp_answer = Unauthorized\<rparr>, w)
        else let (ok, w') = allowRequest g now (clientIP g r) w in
          (\<lparr>rp_id = reqID, rp_head = isHead, rp_answer = (if ok then route g tb meth r else RateLimited)\<rparr>, w'))"

end
