(* ===== verification/Net_Addr_Props.thy ===== *)
theory Net_Addr_Props
  imports Net_Addr
begin

text \<open>
  What the network guards guarantee.  The block list of the fetch tool is compared with a reference
  written as prefix arithmetic on address numbers; a transfer never connects to an address of that
  list, whatever the name service answers and whatever the servers redirect to; and the listener
  without a key binds the loopback interface only.
\<close>

section \<open>Addresses as numbers\<close>

definition addr_num :: "ip \<Rightarrow> nat" where
  "addr_num ip = foldl (\<lambda>a b. a * 256 + unat b) 0 ip"

definition in_net :: "nat \<Rightarrow> nat \<Rightarrow> nat \<times> nat \<Rightarrow> bool" where
  "in_net bits a net = (a div 2 ^ (bits - snd net) = fst net div 2 ^ (bits - snd net))"

text \<open>
  The documented block list: 127/8, 169.254/16, 10/8, 172.16/12, 192.168/16, multicast 224/4 and
  0.0.0.0; ::1, fe80::/10, fc00::/7, ff00::/8 and ::.
\<close>

definition blocked_v4 :: "(nat \<times> nat) list" where
  "blocked_v4 = [(127 * 2 ^ 24, 8), (169 * 2 ^ 24 + 254 * 2 ^ 16, 16), (10 * 2 ^ 24, 8),
     (172 * 2 ^ 24 + 16 * 2 ^ 16, 12), (192 * 2 ^ 24 + 168 * 2 ^ 16, 16), (224 * 2 ^ 24, 4), (0, 32)]"

definition blocked_v6 :: "(nat \<times> nat) list" where
  "blocked_v6 = [(1, 128), (0xfe80 * 2 ^ 112, 10), (0xfc00 * 2 ^ 112, 7), (0xff00 * 2 ^ 112, 8), (0, 128)]"

definition blocked_addr :: "ip \<Rightarrow> bool" where
  "blocked_addr ip =
     (case To4 ip of
        Some b \<Rightarrow> list_ex (in_net 32 (addr_num b)) blocked_v4
      | None \<Rightarrow> list_ex (in_net 128 (addr_num ip)) blocked_v6)"

lemma foldl_bytes: "foldl (\<lambda>a b. a * 256 + unat b) n (ip :: ip) = n * 256 ^ length ip + addr_num ip"
proof (induction ip arbitrary: n)
  case (Cons b ip)
  show ?case using Cons [of "n * 256 + unat b"] Cons [of "unat b"] by (simp add: addr_num_def algebra_simps)
qed (simp add: addr_num_def)

lemma addr_num_Nil [simp]: "addr_num [] = 0"
  by (simp add: addr_num_def)

lemma addr_num_Cons: "addr_num (b # ip) = unat b * 256 ^ length ip + addr_num ip"
  using foldl_bytes [of "unat b" ip] by (simp add: addr_num_def)

lemma unat_byte: "unat (b :: 8 word) < 256"
  using unsigned_less [of b] by simp

lemma addr_num_less: "addr_num ip < 256 ^ length ip"
proof (induction ip)
  case (Cons b ip)
  have "addr_num (b # ip) < (unat b + 1) * 256 ^ length ip" using Cons by (simp add: addr_num_Cons)
  also have "\<dots> \<le> 256 * 256 ^ length ip" using unat_byte [of b] by (intro mult_right_mono) auto
  finally show ?case by simp
qed simp

lemma addr_num_div: "addr_num (b # ip) div 256 ^ length ip = unat b"
  using addr_num_less [of ip] by (simp add: addr_num_Cons)

lemma addr_num_inj: "length a = length b \<Longrightarrow> addr_num a = addr_num b \<Longrightarrow> a = b"
proof (induction a b rule: list_induct2)
  case (Cons x xs y ys)
  have "unat x = unat y" using Cons addr_num_div [of x xs] addr_num_div [of y ys] by simp
  then show ?case using Cons by (simp add: addr_num_Cons unsigned_word_eqI)
qed simp

section \<open>Masks\<close>

lemma and_high_bits: "unat ((b :: 8 word) AND NOT (mask k)) = 2 ^ k * (unat b div 2 ^ k)"
proof -
  have "(b :: 8 word) AND NOT (mask k) = push_bit k (drop_bit k b)"
    by (rule bit_word_eqI) (auto simp: bit_simps)
  then have "unat (b AND NOT (mask k)) = take_bit 8 (push_bit k (drop_bit k (unat b)))"
    by (simp only: unsigned_push_bit_eq unat_drop_bit_eq) simp
  also have "\<dots> = (2 ^ k * (unat b div 2 ^ k)) mod 256"
    by (simp add: drop_bit_eq_div push_bit_eq_mult take_bit_eq_mod mult.commute)
  also have "\<dots> = 2 ^ k * (unat b div 2 ^ k)"
    using unat_byte [of b] by (metis le_less_trans mod_less times_div_less_eq_dividend)
  finally show ?thesis .
qed

lemma and_high_eq:
  assumes "m = NOT (mask k)" "unat (v :: 8 word) = 2 ^ k * c"
  shows "(b AND m = v) = (unat b div 2 ^ k = c)"
  using and_high_bits [of b k] assms by (metis mult_left_cancel power_not_zero unsigned_word_eqI zero_neq_numeral)

lemma byte_masks:
  "((b :: 8 word) AND 0xf0 = 16) = (unat b div 16 = 1)" "(b AND 0xf0 = 0xe0) = (unat b div 16 = 14)"
  "(b AND 0xfe = 0xfc) = (unat b div 2 = 126)" "(b AND 0xc0 = 0x80) = (unat b div 64 = 2)"
proof -
  have m: "0xf0 = NOT (mask 4 :: 8 word)" "0xfe = NOT (mask 1 :: 8 word)" "0xc0 = NOT (mask 6 :: 8 word)"
    by code_simp+
  show "(b AND 0xf0 = 16) = (unat b div 16 = 1)" "(b AND 0xf0 = 0xe0) = (unat b div 16 = 14)"
    "(b AND 0xfe = 0xfc) = (unat b div 2 = 126)" "(b AND 0xc0 = 0x80) = (unat b div 64 = 2)"
    using and_high_eq [OF m(1), of 16 1 b] and_high_eq [OF m(1), of "0xe0" 14 b]
      and_high_eq [OF m(2), of "0xfc" 126 b] and_high_eq [OF m(3), of "0x80" 2 b] by simp_all
qed

lemma byte_eq: "(b :: 8 word) = v \<longleftrightarrow> unat b = unat v"
  by (metis unsigned_word_eqI)

section \<open>Prefixes of address numbers\<close>

lemma addr_num_div2: "addr_num (b # c # ip) div 256 ^ length ip = unat b * 256 + unat c"
proof -
  have "addr_num (b # c # ip) = (unat b * 256 + unat c) * 256 ^ length ip + addr_num ip"
    by (simp add: addr_num_Cons algebra_simps)
  then show ?thesis using addr_num_less [of ip] by simp
qed

lemma addr_num_zeros [simp]: "addr_num (replicate n 0) = 0"
  by (induction n) (simp_all add: addr_num_Cons)

lemma prefix_eq:
  assumes "y < k" "y' < (k :: nat)"
  shows "x * k + y = x' * k + y' \<longleftrightarrow> x = x' \<and> y = y'"
proof -
  have "(x * k + y) div k = x" "(x * k + y) mod k = y" "(x' * k + y') div k = x'" "(x' * k + y') mod k = y'"
    using assms by simp_all
  then show ?thesis by metis
qed

lemma v4_nets:
  assumes "length ip = 4"
  shows "list_ex (in_net 32 (addr_num ip)) blocked_v4 \<longleftrightarrow>
    ip ! 0 = 127 \<or> (ip ! 0 = 169 \<and> ip ! 1 = 254) \<or> ip ! 0 = 10 \<or> (ip ! 0 = 172 \<and> ip ! 1 AND 0xf0 = 16) \<or>
    (ip ! 0 = 192 \<and> ip ! 1 = 168) \<or> ip ! 0 AND 0xf0 = 0xe0 \<or> ip = replicate 4 0"
proof -
  obtain a b c d where ip: "ip = [a, b, c, d]" using assms by (auto simp: length_Suc_conv numeral_eq_Suc)
  let ?n = "addr_num ip"
  have a: "?n div 2 ^ 24 = unat a" using addr_num_div [of a "[b, c, d]"] by (simp add: ip)
  have ab: "?n div 2 ^ 16 = unat a * 256 + unat b" using addr_num_div2 [of a b "[c, d]"] by (simp add: ip)
  have "?n div 2 ^ 20 = ?n div 2 ^ 16 div 2 ^ 4" by (simp add: div_mult2_eq [symmetric])
  then have a12: "?n div 2 ^ 20 = unat a * 16 + unat b div 16" unfolding ab by simp
  have "?n div 2 ^ 28 = ?n div 2 ^ 24 div 2 ^ 4" by (simp add: div_mult2_eq [symmetric])
  then have a4: "?n div 2 ^ 28 = unat a div 16" unfolding a by simp
  have z: "?n = 0 \<longleftrightarrow> ip = replicate 4 0" using addr_num_inj [of ip "replicate 4 0"] assms by auto
  have b: "unat b < 256" "unat b div 16 < 16" using unat_byte [of b] by auto
  have nets: "in_net 32 ?n (127 * 2 ^ 24, 8) \<longleftrightarrow> unat a = 127"
    "in_net 32 ?n (169 * 2 ^ 24 + 254 * 2 ^ 16, 16) \<longleftrightarrow> unat a = 169 \<and> unat b = 254"
    "in_net 32 ?n (10 * 2 ^ 24, 8) \<longleftrightarrow> unat a = 10"
    "in_net 32 ?n (172 * 2 ^ 24 + 16 * 2 ^ 16, 12) \<longleftrightarrow> unat a = 172 \<and> unat b div 16 = 1"
    "in_net 32 ?n (192 * 2 ^ 24 + 168 * 2 ^ 16, 16) \<longleftrightarrow> unat a = 192 \<and> unat b = 168"
    "in_net 32 ?n (224 * 2 ^ 24, 4) \<longleftrightarrow> unat a div 16 = 14" "in_net 32 ?n (0, 32) \<longleftrightarrow> ip = replicate 4 0"
    using a ab a12 a4 z prefix_eq [OF b(1), of 254 "unat a" 169] prefix_eq [OF b(1), of 168 "unat a" 192]
      prefix_eq [OF b(2), of 1 "unat a" 172]
    by (simp_all only: in_net_def fst_conv snd_conv) simp_all
  show ?thesis unfolding blocked_v4_def list_ex_Nil_iff list_ex_Cons_iff nets by (simp add: ip byte_masks byte_eq [of a] byte_eq [of b])
qed

lemma v6_nets:
  assumes "length ip = 16"
  shows "list_ex (in_net 128 (addr_num ip)) blocked_v6 \<longleftrightarrow>
    ip = IPv6loopback \<or> (ip ! 0 = 0xfe \<and> ip ! 1 AND 0xc0 = 0x80) \<or> ip ! 0 AND 0xfe = 0xfc \<or>
    ip ! 0 = 0xff \<or> ip = IPv6unspecified"
proof -
  obtain a b rest where ip: "ip = a # b # rest" and len: "length rest = 14"
    using assms by (cases ip; cases "tl ip") auto
  let ?n = "addr_num ip"
  have p: "(256 :: nat) ^ 15 = 2 ^ 120" "(256 :: nat) ^ 14 = 2 ^ 112" by simp_all
  have a: "?n div 2 ^ 120 = unat a" using addr_num_div [of a "b # rest"] p(1) by (simp add: ip len)
  have ab: "?n div 2 ^ 112 = unat a * 256 + unat b" using addr_num_div2 [of a b rest] p(2) by (simp add: ip len)
  have "?n div 2 ^ 118 = ?n div 2 ^ 112 div 2 ^ 6" by (simp add: div_mult2_eq [symmetric])
  then have a10: "?n div 2 ^ 118 = unat a * 4 + unat b div 64" unfolding ab by simp
  have "?n div 2 ^ 121 = ?n div 2 ^ 120 div 2" by (simp add: div_mult2_eq [symmetric])
  then have a7: "?n div 2 ^ 121 = unat a div 2" unfolding a by simp
  have "addr_num IPv6loopback = 1"
    unfolding IPv6loopback_def addr_num_def foldl_append using addr_num_zeros [of 15] by (simp add: addr_num_def)
  then have one: "?n = 1 \<longleftrightarrow> ip = IPv6loopback"
    using addr_num_inj [of ip IPv6loopback] assms by (auto simp: IPv6loopback_def)
  have z: "?n = 0 \<longleftrightarrow> ip = IPv6unspecified"
    using addr_num_inj [of ip IPv6unspecified] assms by (auto simp: IPv6unspecified_def)
  have b: "unat b div 64 < 4" using unat_byte [of b] by auto
  have nets: "in_net 128 ?n (1, 128) \<longleftrightarrow> ip = IPv6loopback"
    "in_net 128 ?n (0xfe80 * 2 ^ 112, 10) \<longleftrightarrow> unat a = 254 \<and> unat b div 64 = 2"
    "in_net 128 ?n (0xfc00 * 2 ^ 112, 7) \<longleftrightarrow> unat a div 2 = 126"
    "in_net 128 ?n (0xff00 * 2 ^ 112, 8) \<longleftrightarrow> unat a = 255" "in_net 128 ?n (0, 128) \<longleftrightarrow> ip = IPv6unspecified"
    using a ab a10 a7 one z prefix_eq [OF b, of 2 "unat a" 254]
    by (simp_all only: in_net_def fst_conv snd_conv) simp_all
  show ?thesis unfolding blocked_v6_def list_ex_Nil_iff list_ex_Cons_iff nets by (simp add: ip byte_masks byte_eq [of a])
qed

section \<open>The guard of the fetch tool\<close>

lemma To4_length: "To4 ip = Some b \<Longrightarrow> length b = 4"
  by (auto simp: To4_def split: if_splits)

lemma block_reason_iff:
  assumes "length ip = 4 \<or> length ip = 16"
  shows "fetchIPBlockReason False ip = [] \<longleftrightarrow> \<not> blocked_addr ip"
proof (cases "To4 ip")
  case (Some b)
  have split: "ip = IPv4zero \<longleftrightarrow> take 12 ip = v4_in_v6 \<and> drop 12 ip = replicate 4 0"
    using append_eq_conv_conj [of v4_in_v6 "replicate 4 0" ip] by (auto simp: IPv4zero_def v4_in_v6_def)
  have "IsUnspecified ip \<longleftrightarrow> b = replicate 4 0"
  proof (cases "length ip = 4")
    case True
    then show ?thesis using Some by (auto simp: IsUnspecified_def ip_equal_def To4_def IPv4zero_def IPv6unspecified_def v4_in_v6_def)
  next
    case False
    then have t: "length ip = 16" "take 12 ip = v4_in_v6" "b = drop 12 ip" using Some by (auto simp: To4_def split: if_splits)
    have "last v4_in_v6 \<noteq> last (replicate 12 0)" by (simp add: v4_in_v6_def)
    then have "v4_in_v6 \<noteq> replicate 12 0" by metis
    then have "ip \<noteq> IPv6unspecified" using t(2) by (auto simp: IPv6unspecified_def)
    then show ?thesis using t split by (simp add: IsUnspecified_def ip_equal_def IPv4zero_def IPv6unspecified_def v4_in_v6_def)
  qed
  then show ?thesis using Some v4_nets [OF To4_length [OF Some]]
    by (auto simp: fetchIPBlockReason_def blocked_addr_def ip_predicate_defs)
next
  case None
  then have l: "length ip = 16" using assms by (auto simp: To4_def)
  then have "ip_equal ip IPv6loopback \<longleftrightarrow> ip = IPv6loopback" "IsUnspecified ip \<longleftrightarrow> ip = IPv6unspecified"
    using None by (auto simp: IsUnspecified_def ip_equal_def IPv6loopback_def IPv6unspecified_def IPv4zero_def To4_def v4_in_v6_def)
  then show ?thesis using None l v6_nets [OF l]
    by (auto simp: fetchIPBlockReason_def blocked_addr_def IsLoopback_def IsPrivate_def IsLinkLocalUnicast_def IsMulticast_def)
qed

text \<open>
  C31. The fetch guard blocks exactly the documented networks: without the loopback exception an
  address of either form is let through iff its number is in none of 127/8, 169.254/16, 10/8,
  172.16/12, 192.168/16, 224/4, 0.0.0.0, ::1, fe80::/10, fc00::/7, ff00::/8 and ::, where an IPv6
  address that embeds an IPv4 address is judged as the latter.
\<close>

theorem fetch_guard_exact:
  assumes "length ip = 4 \<or> length ip = 16"
  shows "fetchIPBlockReason False ip = [] \<longleftrightarrow> \<not> blocked_addr ip"
  by (rule block_reason_iff [OF assms])

theorem fetch_guard_exact_witness:
  "fetchIPBlockReason False [93, 184, 216, 34] = [] \<and> fetchIPBlockReason False (v4_in_v6 @ [169, 254, 169, 254]) \<noteq> []"
proof -
  have "\<not> blocked_addr [93, 184, 216, 34]" "blocked_addr (v4_in_v6 @ [169, 254, 169, 254])"
    by (simp_all add: blocked_addr_def To4_def v4_in_v6_def blocked_v4_def in_net_def addr_num_def)
  then show ?thesis using fetch_guard_exact [of "[93, 184, 216, 34]"] fetch_guard_exact [of "v4_in_v6 @ [169, 254, 169, 254]"]
    by (simp add: v4_in_v6_def)
qed

section \<open>Parsed addresses\<close>

lemma v4_loop_length: "v4_loop s val d fs = Some ip \<Longrightarrow> length fs \<le> 3 \<Longrightarrow> length ip = 4"
  by (induction s val d fs rule: v4_loop.induct) (auto simp: Let_def split: if_splits)

lemma v6_loop_bounds:
  "v6_loop s bs ell = Some (s', bs', ell') \<Longrightarrow> length bs \<le> 16 \<Longrightarrow> even (length bs) \<Longrightarrow>
   (\<And>e. ell = Some e \<Longrightarrow> e \<le> length bs) \<Longrightarrow> length bs' \<le> 16 \<and> (\<forall>e. ell' = Some e \<longrightarrow> e \<le> length bs')"
proof (induction "16 - length bs" arbitrary: s bs ell rule: less_induct)
  case less
  show ?case
  proof (cases "length bs \<ge> 16")
    case True
    then show ?thesis using less.prems v6_loop.simps [of s bs ell] by auto
  next
    case False
    then have len: "length bs + 2 \<le> 16" using less.prems(3) by presburger
    define bs2 where "bs2 = bs @ [of_nat (foldl (\<lambda>a c. a * 16 + hex_val c) 0 (takeWhile is_hex s) div 256),
      of_nat (foldl (\<lambda>a c. a * 16 + hex_val c) 0 (takeWhile is_hex s))]"
    have l2: "length bs2 = length bs + 2" by (simp add: bs2_def)
    have step: "v6_loop t bs2 e2 = Some (s', bs', ell') \<Longrightarrow> (e2 = ell \<or> e2 = Some (length bs2)) \<Longrightarrow> ?thesis" for t e2
      using less.hyps [of bs2 t e2] less.prems(3,4) len l2 by force
    have "(\<exists>b4. parseIPv4 s = Some b4 \<and> length bs + 4 \<le> 16 \<and> bs' = bs @ b4 \<and> ell' = ell) \<or>
        (bs' = bs2 \<and> (ell' = ell \<or> ell' = Some (length bs2))) \<or>
        (\<exists>t e2. v6_loop t bs2 e2 = Some (s', bs', ell') \<and> (e2 = ell \<or> e2 = Some (length bs2)))"
      using less.prems(1) False v6_loop.simps [of s bs ell]
      by (simp add: Let_def bs2_def [symmetric] split: if_splits list.splits) blast+
    then show ?thesis using step len l2 less.prems(4) v4_loop_length [of s 0 0 "[]"] by (fastforce simp: parseIPv4_def)
  qed
qed

lemma ParseIP_length: "ParseIP s = Some ip \<Longrightarrow> length ip = 16"
proof -
  have v6: "length ip = 16" if "Option.bind (v6_loop s [] ell) v6_finish = Some ip" "ell = None \<or> ell = Some 0" for s ell
    using that v6_loop_bounds [of s "[]" ell]
    by (auto simp: bind_eq_Some_conv v6_finish_def split: if_splits option.splits)
  show "ParseIP s = Some ip \<Longrightarrow> length ip = 16"
    using v6 v4_loop_length [of s 0 0 "[]"]
    by (auto simp: ParseIP_def parseIPv4_def parseIPv6_def v4_in_v6_def split: if_splits list.splits)
qed

section \<open>Dotted addresses\<close>

definition dotted :: "ip \<Rightarrow> string" where
  "dotted ip = str_join ''.'' (map (\<lambda>b. show_nat (unat b)) ip)"

lemma show_nat_byte:
  assumes "n < 256"
  shows "n < 10 \<and> show_nat n = [digit_char n] \<or>
    10 \<le> n \<and> n < 100 \<and> show_nat n = [digit_char (n div 10), digit_char (n mod 10)] \<or>
    100 \<le> n \<and> show_nat n = [digit_char (n div 100), digit_char (n div 10 mod 10), digit_char (n mod 10)]"
proof -
  consider "n < 10" | "10 \<le> n" "n < 100" | "100 \<le> n" by linarith
  then show ?thesis
  proof cases
    case 2
    then show ?thesis by (simp add: show_nat.simps [of n] show_nat.simps [of "n div 10"])
  next
    case 3
    then have "n div 10 \<ge> 10" "n div 100 < 10" "n div 10 div 10 = n div 100" using assms by (auto simp: div_mult2_eq [symmetric])
    then show ?thesis using 3
      by (simp add: show_nat.simps [of n] show_nat.simps [of "n div 10"] show_nat.simps [of "n div 100"])
  qed (simp add: show_nat.simps)
qed

lemma v4_digit:
  "d < 10 \<Longrightarrow> v4_loop (digit_char d # s) val k fs =
     (if k = 1 \<and> val = 0 then None else if val * 10 + d > 255 then None else v4_loop s (val * 10 + d) (k + 1) fs)"
  by (simp add: is_digit_digit_char digit_val_digit_char Let_def)

lemma v4_number:
  assumes "n < 256"
  shows "\<exists>k. k \<noteq> 0 \<and> v4_loop (show_nat n @ t) 0 0 fs = v4_loop t n k fs"
  using show_nat_byte [OF assms]
proof (elim disjE conjE)
  assume s: "show_nat n = [digit_char (n div 100), digit_char (n div 10 mod 10), digit_char (n mod 10)]" "100 \<le> n"
  have "n div 100 = n div 10 div 10" by (simp add: div_mult2_eq [symmetric])
  then have "n div 100 * 10 + n div 10 mod 10 = n div 10" by simp
  moreover have "n div 100 < 10" "n div 100 \<noteq> 0" "n div 10 * 10 + n mod 10 = n"
    using s(2) assms by auto
  moreover from this have "n div 10 \<le> 255" "n div 10 \<noteq> 0" using s(2) assms by auto
  ultimately show ?thesis using assms
    by (intro exI [of _ "Suc (Suc (Suc 0))"]) (simp add: s v4_digit del: v4_loop.simps)
next
  assume s: "show_nat n = [digit_char (n div 10), digit_char (n mod 10)]" "10 \<le> n" "n < 100"
  then have "n div 10 < 10" "n div 10 \<noteq> 0" "n div 10 * 10 + n mod 10 = n" by auto
  then show ?thesis using assms by (intro exI [of _ "Suc (Suc 0)"]) (simp add: s v4_digit del: v4_loop.simps)
next
  assume "show_nat n = [digit_char n]" "n < 10"
  then show ?thesis by (intro exI [of _ 1]) (simp add: v4_digit del: v4_loop.simps)
qed

lemma v4_dot: "k \<noteq> 0 \<Longrightarrow> s \<noteq> [] \<Longrightarrow> length fs < 3 \<Longrightarrow> v4_loop (CHR ''.'' # s) n k fs = v4_loop s 0 0 (fs @ [of_nat n])"
  by (simp add: is_digit_def)

lemma show_nat_not_Nil [simp]: "show_nat n \<noteq> []"
  by (subst show_nat.simps) simp

lemma v4_field:
  "s \<noteq> [] \<Longrightarrow> length fs < 3 \<Longrightarrow> v4_loop (show_nat (unat (b :: 8 word)) @ CHR ''.'' # s) 0 0 fs = v4_loop s 0 0 (fs @ [b])"
  using v4_number [OF unat_byte [of b], of "CHR ''.'' # s" fs] v4_dot [of _ s fs "unat b"] by auto

lemma parseIPv4_dotted: "parseIPv4 (dotted [a, b, c, d]) = Some [a, b, c, d]"
proof -
  have "v4_loop (show_nat (unat d)) 0 0 [a, b, c] = Some [a, b, c, d]"
    using v4_number [OF unat_byte [of d], of "[]" "[a, b, c]"] by auto
  then show ?thesis by (simp add: parseIPv4_def dotted_def v4_field)
qed

lemma ParseIP_dotted: "ParseIP (dotted [a, b, c, d]) = Some (v4_in_v6 @ [a, b, c, d])"
proof -
  have ne: "\<not> is_digit CHR ''%''" "\<not> is_digit CHR ''.''" "\<not> is_digit CHR '':''" by (simp_all add: is_digit_def)
  have dig: "x \<in> set (show_nat n) \<Longrightarrow> is_digit x" for x n using show_nat_digits [of n] by (auto simp: list_all_iff)
  have "CHR ''%'' \<notin> set (dotted [a, b, c, d])" using dig ne by (auto simp: dotted_def)
  moreover have "\<exists>r. dropWhile (\<lambda>c. c \<noteq> CHR ''.'' \<and> c \<noteq> CHR '':'') (dotted [a, b, c, d]) = CHR ''.'' # r"
  proof -
    have "x \<in> set (show_nat (unat a)) \<Longrightarrow> x \<noteq> CHR ''.'' \<and> x \<noteq> CHR '':''" for x using dig ne by metis
    then show ?thesis by (simp add: dotted_def dropWhile_append2)
  qed
  ultimately show ?thesis by (auto simp: ParseIP_def parseIPv4_dotted)
qed

lemma SplitHostPort_plain:
  assumes "\<And>x. x \<in> set host \<Longrightarrow> x \<noteq> CHR '':'' \<and> x \<noteq> CHR ''['' \<and> x \<noteq> CHR '']''"
    and "\<And>x. x \<in> set port \<Longrightarrow> x \<noteq> CHR '':'' \<and> x \<noteq> CHR ''['' \<and> x \<noteq> CHR '']''"
  shows "SplitHostPort (host @ '':'' @ port) = Inr (host, port)"
proof -
  have "takeWhile (\<lambda>x. x \<noteq> CHR '':'') (rev port @ CHR '':'' # rev host) = rev port"
    using assms(2) by (subst takeWhile_append2) auto
  then have l: "last_index_char CHR '':'' (host @ CHR '':'' # port) = Some (length host)"
    by (simp add: last_index_char_def)
  have "hd (host @ CHR '':'' # port) \<noteq> CHR ''[''" using assms(1) by (cases host) auto
  then show ?thesis using assms l by (auto simp: SplitHostPort_def split_rest_def Let_def)
qed

lemma SplitHostPort_dotted:
  assumes "list_all is_digit port"
  shows "SplitHostPort (dotted [a, b, c, d] @ '':'' @ port) = Inr (dotted [a, b, c, d], port)"
proof -
  have ne: "\<not> is_digit CHR ''[''" "\<not> is_digit CHR '']''" "\<not> is_digit CHR '':''" by (simp_all add: is_digit_def)
  have dig: "x \<in> set (show_nat n) \<Longrightarrow> is_digit x" for x n using show_nat_digits [of n] by (auto simp: list_all_iff)
  show ?thesis
  proof (rule SplitHostPort_plain)
    fix x assume "x \<in> set (dotted [a, b, c, d])"
    then have "is_digit x \<or> x = CHR ''.''" using dig by (auto simp: dotted_def)
    then show "x \<noteq> CHR '':'' \<and> x \<noteq> CHR ''['' \<and> x \<noteq> CHR '']''" using ne by auto
  qed (use assms ne in \<open>auto simp: list_all_iff\<close>)
qed

lemma dial_dotted:
  assumes "list_all is_digit port"
  shows "fetchDialControl False (dotted [a, b, c, d] @ '':'' @ port) = None \<longleftrightarrow> \<not> blocked_addr [a, b, c, d]"
proof -
  have "To4 (v4_in_v6 @ [a, b, c, d]) = Some [a, b, c, d]" by (simp add: To4_def v4_in_v6_def)
  then have "blocked_addr (v4_in_v6 @ [a, b, c, d]) = blocked_addr [a, b, c, d]"
    unfolding blocked_addr_def by (simp add: To4_def)
  moreover have "fetchDialControl False (dotted [a, b, c, d] @ '':'' @ port) = None \<longleftrightarrow>
      fetchIPBlockReason False (v4_in_v6 @ [a, b, c, d]) = []"
    unfolding fetchDialControl_def SplitHostPort_dotted [OF assms] by (simp add: ParseIP_dotted Let_def)
  ultimately show ?thesis using block_reason_iff [of "v4_in_v6 @ [a, b, c, d]"] by (simp add: v4_in_v6_def)
qed

text \<open>
  The address checks read what is written: a printed IPv4 address with a port is split and parsed
  back to its four bytes, the listener takes it for the loopback interface iff its first byte is 127,
  and the dial hook lets it through iff the block list does not contain it.
\<close>

theorem dotted_address_judged:
  assumes "list_all is_digit port"
  shows "SplitHostPort (dotted [a, b, c, d] @ '':'' @ port) = Inr (dotted [a, b, c, d], port) \<and>
    ParseIP (dotted [a, b, c, d]) = Some (v4_in_v6 @ [a, b, c, d]) \<and>
    (isLoopbackBind (dotted [a, b, c, d] @ '':'' @ port) \<longleftrightarrow> a = 127) \<and>
    (fetchDialControl False (dotted [a, b, c, d] @ '':'' @ port) = None \<longleftrightarrow> \<not> blocked_addr [a, b, c, d])"
proof -
  note sp = SplitHostPort_dotted [OF assms, of a b c d]
  have t: "To4 (v4_in_v6 @ [a, b, c, d]) = Some [a, b, c, d]" by (simp add: To4_def v4_in_v6_def)
  have "dotted [a, b, c, d] \<noteq> ''0.0.0.0'' \<or> a = 0"
    using parseIPv4_dotted [of a b c d] by (auto simp: parseIPv4_def is_digit_def digit_val_def Let_def)
  moreover have "dotted [a, b, c, d] \<noteq> []" "dotted [a, b, c, d] \<noteq> ''::''"
    using parseIPv4_dotted [of a b c d] by (auto simp: parseIPv4_def is_digit_def)
  ultimately have "isLoopbackBind (dotted [a, b, c, d] @ '':'' @ port) \<longleftrightarrow> a = 127"
    unfolding isLoopbackBind_def sp by (auto simp: ParseIP_dotted IsLoopback_def t)
  then show ?thesis using sp ParseIP_dotted dial_dotted [OF assms] by simp
qed

theorem dotted_address_judged_witness:
  "fetchDialControl False (dotted [169, 254, 169, 254] @ '':80'') \<noteq> None \<and> isLoopbackBind (dotted [127, 0, 0, 1] @ '':8080'')"
proof -
  have p: "list_all is_digit ''80''" "list_all is_digit ''8080''" by (simp_all add: is_digit_def)
  have "blocked_addr [169, 254, 169, 254]" by (simp add: blocked_addr_def To4_def blocked_v4_def in_net_def addr_num_def)
  then show ?thesis
    using dotted_address_judged [OF p(1), of 169 254 169 254] dotted_address_judged [OF p(2), of 127 0 0 1] by simp
qed

section \<open>Transfers\<close>

lemma follow_dials:
  "follow False parse via hops dialled = (r, dialled') \<Longrightarrow> via < maxFetchRedirects \<Longrightarrow>
   \<forall>a \<in> set dialled. fetchDialControl False a = None \<Longrightarrow>
   (\<forall>a \<in> set dialled'. fetchDialControl False a = None) \<and> length dialled' \<le> length dialled + (maxFetchRedirects - via)"
proof (induction False parse via hops dialled rule: follow.induct)
  case (2 parse via h hs dialled)
  show ?case
  proof (cases "fetchDialControl False (h_address h)")
    case None
    show ?thesis
    proof (cases "h_redirect h")
      case (Some target)
      show ?thesis
      proof (cases "check_redirect False parse (h_lookup h) (via + 1) target")
        case N: None
        then have "via + 1 < maxFetchRedirects" by (auto simp: check_redirect_def split: if_splits)
        then show ?thesis using 2(1) [OF None Some N] "2.prems" None Some N by auto
      qed (use "2.prems" None Some in auto)
    qed (use "2.prems" None in auto)
  qed (use "2.prems" in auto)
qed auto

lemma dial_control_public:
  assumes "fetchDialControl False a = None"
  shows "\<exists>host port ip. SplitHostPort a = Inr (host, port) \<and> ParseIP host = Some ip \<and> \<not> blocked_addr ip"
  using assms block_reason_iff ParseIP_length
  by (fastforce simp: fetchDialControl_def Let_def split: sum.splits option.splits prod.splits if_splits)

text \<open>
  C12. A fetch connects to public addresses only: whatever the name service answers at any moment and
  wherever the servers redirect to, every address that the transfer connects to is a literal address
  outside the blocked networks, and there are at most five connections.
\<close>

theorem fetch_dials_only_public:
  assumes "fetch_transfer False parse lookup rawURL hops = (r, dialled)"
  shows "length dialled \<le> maxFetchRedirects \<and>
    (\<forall>a \<in> set dialled. \<exists>host port ip. SplitHostPort a = Inr (host, port) \<and> ParseIP host = Some ip \<and> \<not> blocked_addr ip)"
proof (cases "validateFetchURL False parse lookup rawURL")
  case None
  then have "follow False parse 0 hops [] = (r, dialled)" using assms by (simp add: fetch_transfer_def)
  from follow_dials [OF this] show ?thesis using dial_control_public by (auto simp: maxFetchRedirects_def)
qed (use assms in \<open>auto simp: fetch_transfer_def\<close>)

definition example_hops :: "hop list" where
  "example_hops = [\<lparr>h_address = dotted [93, 184, 216, 34] @ '':80'', h_lookup = (\<lambda>_. Some [[10, 0, 0, 1]]), h_redirect = Some ''b''\<rparr>]"

theorem fetch_dials_only_public_witness:
  "snd (fetch_transfer False (\<lambda>_. Some (''http'', ''h'')) (\<lambda>_. Some [[93, 184, 216, 34]]) ''a'' example_hops) =
     [dotted [93, 184, 216, 34] @ '':80''] \<and>
   (\<exists>host port ip. SplitHostPort (dotted [93, 184, 216, 34] @ '':80'') = Inr (host, port) \<and> ParseIP host = Some ip \<and> \<not> blocked_addr ip)"
proof -
  let ?f = "fetch_transfer False (\<lambda>_. Some (''http'', ''h'')) (\<lambda>_. Some [[93, 184, 216, 34]]) ''a'' example_hops"
  have "\<not> blocked_addr [93, 184, 216, 34]" "blocked_addr [10, 0, 0, 1]"
    by (simp_all add: blocked_addr_def To4_def blocked_v4_def in_net_def addr_num_def)
  moreover have "list_all is_digit ''80''" by (simp add: is_digit_def)
  ultimately have "fetchDialControl False (dotted [93, 184, 216, 34] @ '':80'') = None"
    "fetchIPBlockReason False [93, 184, 216, 34] = []"
    using dial_dotted [of "''80''" 93 184 216 34] block_reason_iff [of "[93, 184, 216, 34]"] by simp_all
  then have "snd ?f = [dotted [93, 184, 216, 34] @ '':80'']"
    by (simp add: fetch_transfer_def example_hops_def validateFetchURL_def split: option.splits)
  moreover from this have "?f = (fst ?f, [dotted [93, 184, 216, 34] @ '':80''])" by (metis prod.collapse)
  ultimately show ?thesis using fetch_dials_only_public [of "\<lambda>_. Some (''http'', ''h'')" "\<lambda>_. Some [[93, 184, 216, 34]]" "''a''"
      example_hops "fst ?f" "[dotted [93, 184, 216, 34] @ '':80'']"] by simp
qed

end
