(* ===== verification/Http_Gateway_Props.thy ===== *)
theory Http_Gateway_Props
  imports Http_Gateway Net_Addr_Props
begin

text \<open>
  What the gateway guarantees: with a key configured no tool, transport or private endpoint answers a
  request that does not carry the key, although the exemption of the probes is decided before the
  base path is stripped; the rate limiter admits exactly the requests that a limiter with a complete
  log would admit; and the client key depends neither on the port nor, without a trusted proxy, on
  headers.
\<close>

section \<open>The bearer check\<close>

text \<open>The answers that reach a tool, a transport or an endpoint other than the probes.\<close>

fun private_answer :: "answer \<Rightarrow> bool" where
  "private_answer McpTransport = True"
| "private_answer EventStream = True"
| "private_answer (Endpoint n) = (n \<notin> set public_probes)"
| "private_answer (BadRequest _) = True"
| "private_answer (InternalError _) = True"
| "private_answer (ToolError _ _) = True"
| "private_answer (ToolResult _ _) = True"
| "private_answer _ = False"

definition probe_paths :: "string list" where
  "probe_paths = [''/v1/health'', ''/v1/openapi.json'', ''/v1/ready'', ''/health'', ''/openapi.json'', ''/ready'',
     ''health'', ''openapi.json'', ''ready'']"

lemma trim_prefix_cases: "trim_prefix s p = x \<longleftrightarrow> s = p @ x \<or> (\<not> prefix p s \<and> s = x)"
  by (auto simp: trim_prefix_def prefix_def)

lemma isPublicProbe_path: "isPublicProbe meth path \<Longrightarrow> meth = ''GET'' \<and> path \<in> set probe_paths"
  by (auto simp: isPublicProbe_def httpDispatchPath_def public_probes_def probe_paths_def trim_prefix_cases has_prefix_def
      split: if_splits)

lemma strip_base_suffix: "strip_base base path = ''/'' \<or> suffix (strip_base base path) path"
  by (auto simp: strip_base_def Let_def trim_prefix_def suffix_drop)

text \<open>Whatever is stripped from the path of a probe, the rest names no private endpoint.\<close>

lemma probe_suffixes:
  "list_all (\<lambda>p. list_all (\<lambda>q. httpDispatchPath q \<notin> set get_endpoints \<and> q \<noteq> ''/v1/events'') (suffixes p)) probe_paths"
  by code_simp

lemma probe_suffix:
  assumes "p \<in> set probe_paths" "suffix q p"
  shows "httpDispatchPath q \<notin> set get_endpoints \<and> q \<noteq> ''/v1/events''"
proof -
  have "list_all (\<lambda>q. httpDispatchPath q \<notin> set get_endpoints \<and> q \<noteq> ''/v1/events'') (suffixes p)"
    using probe_suffixes assms(1) unfolding list_all_iff by (rule bspec)
  moreover have "q \<in> set (suffixes p)" using assms(2) by (simp only: in_set_suffixes)
  ultimately show ?thesis unfolding list_all_iff by (rule bspec)
qed

definition mcp_apart :: "gateway \<Rightarrow> bool" where
  "mcp_apart g \<longleftrightarrow> g_mcpHTTPPath g = [] \<or> list_all (\<lambda>p. \<not> contains p (g_mcpHTTPPath g)) probe_paths"

lemma probe_not_mounted:
  assumes "mcp_apart g" "path \<in> set probe_paths" "q = ''/'' \<or> suffix q path"
  shows "\<not> mcp_mounted g q"
proof
  assume m: "mcp_mounted g q"
  then have "prefix (g_mcpHTTPPath g) q" by (auto simp: mcp_mounted_def has_prefix_def intro: append_prefixD)
  then have "sublist (g_mcpHTTPPath g) path \<or> q = ''/''"
    using assms(3) by (metis prefix_imp_sublist sublist_order.order_trans suffix_imp_sublist)
  moreover have "\<not> sublist (g_mcpHTTPPath g) path"
    using assms(1,2) m by (auto simp: mcp_apart_def mcp_mounted_def list_all_iff contains_def)
  moreover have "\<not> sublist (g_mcpHTTPPath g) ''/health''" "g_mcpHTTPPath g \<noteq> []"
    using assms(1) m by (auto simp: mcp_apart_def mcp_mounted_def probe_paths_def contains_def)
  moreover have "sublist ''/'' ''/health''" by (simp add: sublist_Cons_right)
  moreover have "g_mcpHTTPPath g = ''/''" if "q = ''/''"
    using \<open>prefix (g_mcpHTTPPath g) q\<close> \<open>g_mcpHTTPPath g \<noteq> []\<close> that by (auto simp: prefix_Cons)
  ultimately show False by metis
qed

lemma probe_dispatch:
  assumes "mcp_apart g" "r_path r \<in> set probe_paths"
  shows "\<not> private_answer (route g tb ''GET'' r)"
proof -
  define q where "q = strip_base (effectivePrefix g r) (r_path r)"
  have q: "q = ''/'' \<or> suffix q (r_path r)" unfolding q_def by (rule strip_base_suffix)
  have "q = ''/'' \<or> (httpDispatchPath q \<notin> set get_endpoints \<and> q \<noteq> ''/v1/events'')"
    using q probe_suffix [OF assms(2)] by blast
  then show ?thesis using probe_not_mounted [OF assms q]
    by (auto simp: route_def Let_def q_def [symmetric] dispatch_def public_probes_def)
qed


definition example_gateway :: gateway where
  "example_gateway = \<lparr>g_httpKey = ''k'', g_basePath = ''/pincher'', g_trustProxy = False, g_mcpHTTPPath = ''/mcp'',
     g_rateLimit = 2, g_rateWindow = 60, g_tools = [''search'']\<rparr>"

definition example_toolbox :: toolbox where
  "example_toolbox = \<lparr>tb_valid = (\<lambda>_. True), tb_call = (\<lambda>_ _. Inr (False, Some ''ok'')), tb_rich = (\<lambda>_. None)\<rparr>"

definition example_request :: "string \<Rightarrow> string \<Rightarrow> string \<Rightarrow> request" where
  "example_request meth path auth = \<lparr>r_method = meth, r_path = path, r_headers = [(''Authorization'', auth)],
     r_remote = ''1.2.3.4:5'', r_body = [], r_body_err = False\<rparr>"


text \<open>Under a base path that the proxy does not strip, a probe is not recognised: it needs the key.\<close>

lemma probe_under_base_path_needs_key:
  "rp_answer (fst (ServeHTTP (\<lambda>s. s) example_toolbox ''id'' example_gateway 0
       (example_request ''GET'' ''/pincher/v1/health'' []) (\<lambda>_. []))) = Unauthorized \<and>
   rp_answer (fst (ServeHTTP (\<lambda>s. s) example_toolbox ''id'' example_gateway 0
       (example_request ''GET'' ''/v1/health'' []) (\<lambda>_. []))) = Endpoint ''health''"
  by code_simp

lemma if_other: "a \<noteq> x \<Longrightarrow> b \<noteq> x \<Longrightarrow> (if c then a else b) \<noteq> x"
  by simp

lemma route_authorized: "route g tb meth r \<noteq> Unauthorized"
proof -
  have "tool_answer tb path body \<noteq> Unauthorized" for path body
    by (simp add: tool_answer_def Let_def split: sum.split bool.split option.split)
  then have "post_tool g tb r path \<noteq> Unauthorized" for path
    unfolding post_tool_def Let_def by (intro if_other) simp_all
  then have "dispatch g tb meth urlpath r \<noteq> Unauthorized" for urlpath
    unfolding dispatch_def Let_def by (intro if_other) simp_all
  then show ?thesis unfolding route_def Let_def by (intro if_other) simp_all
qed

text \<open>
  The key opens everything and refusals are what they say: with the right token, or without a
  configured key, no request is refused as unauthorized; a refused request leaves the rate limiter
  untouched, so that failed attempts do not use up the quota of an address; and every reply carries a
  correlation id of printable ASCII of at most 200 bytes.
\<close>

theorem key_admits:
  assumes "list_all printable fresh" "length fresh \<le> maxRequestIDLen" "ServeHTTP sha tb fresh g now r w = (rp, w')"
  shows "(g_httpKey g = [] \<or> header_get r ''Authorization'' = ''Bearer '' @ g_httpKey g \<longrightarrow> rp_answer rp \<noteq> Unauthorized) \<and>
    (rp_answer rp = Unauthorized \<longrightarrow> w' = w) \<and> list_all printable (rp_id rp) \<and> length (rp_id rp) \<le> maxRequestIDLen"
proof -
  define meth where "meth = (if r_method r = ''HEAD'' then ''GET'' else r_method r)"
  define rid where "rid = sanitizeRequestID fresh (header_get r ''X-Request-ID'')"
  have rid: "list_all printable rid" "length rid \<le> maxRequestIDLen"
    using assms(1,2) by (simp_all add: rid_def sanitizeRequestID_def)
  have un: "\<not> unauthorized sha g meth r" if "g_httpKey g = [] \<or> header_get r ''Authorization'' = ''Bearer '' @ g_httpKey g"
    using that by (auto simp: unauthorized_def bearer_ok_def has_prefix_def Let_def)
  consider "rp_id rp = rid" "rp_answer rp = Unauthorized" "w' = w" "unauthorized sha g meth r"
    | "rp_id rp = rid" "rp_answer rp \<noteq> Unauthorized"
  proof (cases "r_method r = ''OPTIONS''")
    case True
    then show ?thesis using assms(3) that(2) by (auto simp: ServeHTTP_def Let_def rid_def)
  next
    case False
    obtain ok w2 where "allowRequest g now (clientIP g r) w = (ok, w2)" by (cases "allowRequest g now (clientIP g r) w")
    then show ?thesis
      using assms(3) that False route_authorized [of g tb meth r] unfolding ServeHTTP_def Let_def rid_def [symmetric] meth_def [symmetric]
      by (cases "unauthorized sha g meth r"; cases ok) auto
  qed
  then show ?thesis using un rid by cases auto
qed

theorem key_admits_witness:
  "rp_answer (fst (ServeHTTP (\<lambda>s. s) example_toolbox ''id'' example_gateway 0 (example_request ''GET'' ''/x'' ''Bearer k'') (\<lambda>_. []))) \<noteq> Unauthorized"
proof -
  let ?x = "ServeHTTP (\<lambda>s. s) example_toolbox ''id'' example_gateway 0 (example_request ''GET'' ''/x'' ''Bearer k'') (\<lambda>_. [])"
  have "list_all printable ''id''" "length ''id'' \<le> maxRequestIDLen" by (simp_all add: printable_def maxRequestIDLen_def)
  from key_admits [OF this, of "\<lambda>s. s" example_toolbox example_gateway 0 "example_request ''GET'' ''/x'' ''Bearer k''" "\<lambda>_. []" "fst ?x" "snd ?x"]
  show ?thesis by (simp add: example_gateway_def example_request_def header_get_def)
qed

section \<open>The rate limiter\<close>

fun allow_run :: "gateway \<Rightarrow> (int \<times> string) list \<Rightarrow> windows \<Rightarrow> bool list" where
  "allow_run g [] w = []"
| "allow_run g ((now, ip) # rs) w = (let (ok, w') = allowRequest g now ip w in ok # allow_run g rs w')"

text \<open>The reference limiter keeps every admission of an address and counts those of the last window.\<close>

fun log_run :: "gateway \<Rightarrow> (int \<times> string) list \<Rightarrow> windows \<Rightarrow> bool list \<times> windows" where
  "log_run g [] log = ([], log)"
| "log_run g ((now, ip) # rs) log =
     (let ok = int (length (filter (\<lambda>t. now - g_rateWindow g \<le> t) (log ip))) < g_rateLimit g;
          rest = log_run g rs (if ok then log(ip := log ip @ [now]) else log)
      in (ok # fst rest, snd rest))"

lemma dropWhile_sorted: "sorted ts \<Longrightarrow> dropWhile (\<lambda>t. t < c) ts = filter (\<lambda>t. c \<le> t) (ts :: int list)"
proof (induction ts)
  case (Cons t ts)
  then have "filter (\<lambda>x. c \<le> x) ts = ts" if "c \<le> t" using that by (intro filter_True) auto
  then show ?case using Cons by auto
qed simp

lemma dropWhile_twice: "c \<le> c' \<Longrightarrow> dropWhile (\<lambda>t. t < c') (dropWhile (\<lambda>t. t < c) ts) = dropWhile (\<lambda>t. t < (c' :: int)) ts"
  by (induction ts) auto

text \<open>The pruned list and the log agree from every later cut-off on.\<close>

definition agree :: "gateway \<Rightarrow> int \<Rightarrow> windows \<Rightarrow> windows \<Rightarrow> bool" where
  "agree g now w log \<longleftrightarrow> (\<forall>ip. sorted (log ip) \<and> (\<forall>t \<in> set (log ip). t \<le> now) \<and>
     (\<forall>c \<ge> now - g_rateWindow g. dropWhile (\<lambda>t. t < c) (w ip) = dropWhile (\<lambda>t. t < c) (log ip)))"

lemma agree_later: "agree g now w log \<Longrightarrow> now \<le> now' \<Longrightarrow> agree g now' w log"
  by (auto simp: agree_def) (meson order_trans)

lemma dropWhile_append_pruned:
  assumes "c0 \<le> c"
  shows "dropWhile (\<lambda>t. t < c) (dropWhile (\<lambda>t. t < c0) ts @ [x]) = dropWhile (\<lambda>t. t < (c :: int)) (ts @ [x])"
  using assms by (induction ts) auto

lemma allow_step:
  assumes "agree g now w log" "0 < g_rateLimit g" "allowRequest g now ip w = (ok, w')"
  shows "ok = (int (length (filter (\<lambda>t. now - g_rateWindow g \<le> t) (log ip))) < g_rateLimit g)"
    and "agree g now w' (if ok then log(ip := log ip @ [now]) else log)"
proof -
  define c where "c = now - g_rateWindow g"
  have ts: "dropWhile (\<lambda>t. t < c) (w ip) = dropWhile (\<lambda>t. t < c) (log ip)" and s: "sorted (log ip)"
    using assms(1) by (auto simp: agree_def c_def)
  show "ok = (int (length (filter (\<lambda>t. now - g_rateWindow g \<le> t) (log ip))) < g_rateLimit g)"
    using assms(2,3) ts by (auto simp: allowRequest_def Let_def c_def [symmetric] dropWhile_sorted [OF s] split: if_splits)
  have other: "w' j = w j" if "j \<noteq> ip" for j
    using assms(3) that by (auto simp: allowRequest_def Let_def split: if_splits)
  have own: "w' ip = (if ok then dropWhile (\<lambda>t. t < c) (w ip) @ [now] else dropWhile (\<lambda>t. t < c) (w ip))"
    using assms(2,3) by (auto simp: allowRequest_def Let_def c_def split: if_splits)
  show "agree g now w' (if ok then log(ip := log ip @ [now]) else log)"
    unfolding agree_def c_def [symmetric]
  proof (intro allI)
    fix j
    have l: "sorted (log j)" "\<forall>t \<in> set (log j). t \<le> now" "\<forall>d \<ge> c. dropWhile (\<lambda>t. t < d) (w j) = dropWhile (\<lambda>t. t < d) (log j)"
      using assms(1) by (auto simp: agree_def c_def)
    show "sorted ((if ok then log(ip := log ip @ [now]) else log) j) \<and> (\<forall>t \<in> set ((if ok then log(ip := log ip @ [now]) else log) j). t \<le> now) \<and>
        (\<forall>d \<ge> c. dropWhile (\<lambda>t. t < d) (w' j) = dropWhile (\<lambda>t. t < d) ((if ok then log(ip := log ip @ [now]) else log) j))"
    proof (cases "j = ip")
      case True
      then show ?thesis using l own ts by (simp add: sorted_append dropWhile_twice dropWhile_append_pruned)
    next
      case False
      then show ?thesis using l other by simp
    qed
  qed
qed

lemma allow_run_log_run:
  "agree g t0 w log \<Longrightarrow> 0 < g_rateLimit g \<Longrightarrow> sorted (map fst rs) \<Longrightarrow> (\<forall>r \<in> set rs. t0 \<le> fst r) \<Longrightarrow>
   allow_run g rs w = fst (log_run g rs log)"
proof (induction rs arbitrary: t0 w log)
  case (Cons r rs)
  obtain now ip where r: "r = (now, ip)" by (cases r)
  obtain ok w' where st: "allowRequest g now ip w = (ok, w')" by (cases "allowRequest g now ip w")
  have "agree g now w log" using agree_later [OF Cons.prems(1)] Cons.prems(4) by (simp add: r)
  note step = allow_step [OF this Cons.prems(2) st]
  have "allow_run g rs w' = fst (log_run g rs (if ok then log(ip := log ip @ [now]) else log))"
    using Cons.prems(2-4) by (intro Cons.IH [OF step(2)]) (auto simp: r)
  then show ?case using st step(1) by (simp add: r Let_def split: prod.split)
qed simp

definition in_window :: "gateway \<Rightarrow> int \<Rightarrow> int list \<Rightarrow> nat" where
  "in_window g s ts = length (filter (\<lambda>t. s - g_rateWindow g \<le> t \<and> t \<le> s) ts)"

lemma log_run_window:
  "sorted (map fst rs) \<Longrightarrow> (\<forall>ip. \<forall>t \<in> set (log ip). \<forall>r \<in> set rs. t \<le> fst r) \<Longrightarrow>
   (\<forall>ip s. int (in_window g s (log ip)) \<le> g_rateLimit g) \<Longrightarrow> int (in_window g s (snd (log_run g rs log) ip)) \<le> g_rateLimit g"
proof (induction rs arbitrary: log)
  case (Cons r rs)
  obtain now i where r: "r = (now, i)" by (cases r)
  let ?ok = "int (length (filter (\<lambda>t. now - g_rateWindow g \<le> t) (log i))) < g_rateLimit g"
  let ?log = "if ?ok then log(i := log i @ [now]) else log"
  have "int (in_window g s (?log j)) \<le> g_rateLimit g" for s j
  proof (cases "?ok \<and> j = i \<and> s - g_rateWindow g \<le> now \<and> now \<le> s")
    case True
    have "filter (\<lambda>t. s - g_rateWindow g \<le> t \<and> t \<le> s) (log i) =
        filter (\<lambda>t. s - g_rateWindow g \<le> t \<and> t \<le> s) (filter (\<lambda>t. now - g_rateWindow g \<le> t) (log i))"
      using True by (auto intro: filter_cong)
    then have "in_window g s (log i) \<le> length (filter (\<lambda>t. now - g_rateWindow g \<le> t) (log i))"
      unfolding in_window_def by (metis length_filter_le)
    then show ?thesis using True by (simp add: in_window_def)
  next
    case False
    then show ?thesis using Cons.prems(3) by (auto simp: in_window_def)
  qed
  moreover have "\<forall>ip. \<forall>t \<in> set (?log ip). \<forall>r \<in> set rs. t \<le> fst r" using Cons.prems(1,2) by (auto simp: r)
  ultimately have "int (in_window g s (snd (log_run g rs ?log) ip)) \<le> g_rateLimit g"
    using Cons.IH [of ?log] Cons.prems(1) by simp
  then show ?case by (simp add: r Let_def)
qed auto

text \<open>
  C17. The sliding window is exact: for requests in the order of time, pruning expired timestamps never
  changes a decision, so that the limiter answers as one that keeps the complete log and counts the
  admissions of the last window; and in no window, at any moment, are more requests of one address
  admitted than the limit.
\<close>

theorem rate_limit_exact:
  assumes "0 < g_rateLimit g" "sorted (map fst rs)"
  shows "allow_run g rs (\<lambda>_. []) = fst (log_run g rs (\<lambda>_. [])) \<and>
    (\<forall>ip s. int (in_window g s (snd (log_run g rs (\<lambda>_. [])) ip)) \<le> g_rateLimit g)"
proof -
  have "agree g (if rs = [] then 0 else fst (hd rs)) (\<lambda>_. []) (\<lambda>_. [])" by (simp add: agree_def)
  then have "allow_run g rs (\<lambda>_. []) = fst (log_run g rs (\<lambda>_. []))"
    using assms by (intro allow_run_log_run) (fastforce simp: neq_Nil_conv)+
  then show ?thesis using log_run_window [OF assms(2), of "\<lambda>_. []" g] assms(1) by (simp add: in_window_def)
qed

theorem rate_limit_exact_witness:
  "allow_run example_gateway [(0, ''a''), (10, ''a''), (60, ''a''), (61, ''a'')] (\<lambda>_. []) = [True, True, False, True]"
proof -
  let ?rs = "[(0, ''a''), (10, ''a''), (60, ''a''), (61, ''a'')] :: (int \<times> string) list"
  have "allow_run example_gateway ?rs (\<lambda>_. []) = fst (log_run example_gateway ?rs (\<lambda>_. []))"
    by (rule rate_limit_exact [THEN conjunct1]) (simp_all add: example_gateway_def)
  also have "\<dots> = [True, True, False, True]" by (simp add: example_gateway_def)
  finally show ?thesis .
qed

section \<open>The client key\<close>

lemma cut_byte_at: "c \<notin> set s \<Longrightarrow> cut_byte c (s @ c # t) = Some (s, t)"
  by (induction s) auto

lemma trim_space_id: "s \<noteq> [] \<Longrightarrow> \<not> is_space (hd s) \<Longrightarrow> \<not> is_space (last s) \<Longrightarrow> trim_space s = s"
  by (simp add: trim_space_def dropWhile_eq_self_iff [THEN iffD2] hd_rev)

text \<open>A host or port as it appears in an address with a port.\<close>

definition plain :: "string \<Rightarrow> bool" where
  "plain s \<longleftrightarrow> list_all (\<lambda>x. x \<noteq> CHR '':'' \<and> x \<noteq> CHR ''['' \<and> x \<noteq> CHR '']'' \<and> x \<noteq> CHR '','' \<and> \<not> is_space x) s"

text \<open>
  The key of the rate limiter is the host: without a trusted proxy it is the host of the peer,
  whatever the port and the headers; behind one it is the host of the leftmost forwarded entry,
  without its port and whatever follows it.
\<close>

theorem client_key_is_host:
  assumes "plain host" "host \<noteq> []" "plain port"
  shows "(\<not> g_trustProxy g \<and> r_remote r = host @ '':'' @ port \<longrightarrow> clientIP g r = host) \<and>
    (g_trustProxy g \<and> header_get r ''X-Forwarded-For'' \<in> {host @ '':'' @ port, host @ '':'' @ port @ '','' @ others} \<longrightarrow>
       clientIP g r = host)"
proof -
  let ?e = "host @ '':'' @ port"
  have sp: "SplitHostPort ?e = Inr (host, port)"
    using assms by (intro SplitHostPort_plain) (auto simp: plain_def list_all_iff)
  have "\<not> is_space CHR '':''" by (simp add: is_space_def)
  then have "\<not> is_space (hd ?e)" "\<not> is_space (last ?e)"
    using assms by (cases host; auto simp: plain_def list_all_iff)+
  then have t: "trim_space ?e = ?e" by (intro trim_space_id) auto
  have c: "CHR '','' \<notin> set ?e" using assms by (auto simp: plain_def list_all_iff)
  have "cut_byte CHR '','' ?e = None" using c by (simp add: cut_byte_None)
  moreover have "cut_byte CHR '','' (?e @ CHR '','' # others) = Some (?e, others)" using cut_byte_at [OF c] .
  ultimately show ?thesis using sp t assms(2) by (auto simp: clientIP_def remote_host_def Let_def)
qed

theorem client_key_is_host_witness:
  "clientIP (example_gateway\<lparr>g_trustProxy := True\<rparr>)
     ((example_request ''GET'' ''/'' [])\<lparr>r_headers := [(''X-Forwarded-For'', ''9.9.9.9:1,8.8.8.8'')]\<rparr>) = ''9.9.9.9''"
proof -
  have "plain ''9.9.9.9''" "plain ''1''" by (simp_all add: plain_def is_space_def)
  then show ?thesis
    using client_key_is_host [of "''9.9.9.9''" "''1''" "example_gateway\<lparr>g_trustProxy := True\<rparr>"
        "(example_request ''GET'' ''/'' [])\<lparr>r_headers := [(''X-Forwarded-For'', ''9.9.9.9:1,8.8.8.8'')]\<rparr>" "''8.8.8.8''"]
    by (simp add: header_get_def)
qed

text \<open>
  Two routes that the table of read-only routes does not treat as its comment says: the tool
  \<^verbatim>\<open>stats\<close> cannot be called, and a wrong verb on \<^verbatim>\<open>bench-results\<close> is answered as an unknown tool.
\<close>

lemma stats_tool_unreachable: "dispatch g tb ''POST'' ''/v1/stats'' r = MethodNotAllowed ''GET, HEAD''"
  by (simp add: dispatch_def httpDispatchPath_def has_prefix_def trim_prefix_def httpGetOnlyRoutes_def)

lemma bench_results_unknown:
  "''bench-results'' \<notin> set (g_tools g) \<Longrightarrow> dispatch g tb ''PUT'' ''/v1/bench-results'' r = UnknownTool ''bench-results''"
  by (simp add: dispatch_def httpDispatchPath_def has_prefix_def trim_prefix_def httpGetOnlyRoutes_def get_endpoints_def delete_endpoints_def)

end
