(* ===== verification/Project_Store.thy ===== *)
theory Project_Store
  imports Pincher_Prelude
begin

text \<open>
  The project table of the store and its maintenance (\<^verbatim>\<open>internal/db/db.go\<close>): version stamps
  (\<open>CompareBinaryVersion\<close>), the upserts with their downgrade guards, deletion, and the merge of
  project rows that name one directory (\<open>dedupProjectsByCanonicalPath\<close>).  The database is its
  project rows and, per table, the rows that carry a project id; the foreign keys are those of the
  schema: symbols, edges, extraction failures and closure rows forbid the deletion of their project,
  benchmark runs are deleted with it.
\<close>

section \<open>Version stamps\<close>

fun split_n :: "char \<Rightarrow> nat \<Rightarrow> string \<Rightarrow> string list" where
  "split_n c n s =
     (if n \<le> 1 then [s]
      else case cut_byte c s of None \<Rightarrow> [s] | Some (a, b) \<Rightarrow> a # split_n c (n - 1) b)"

declare split_n.simps [simp del]

text \<open>\<open>Some (major, minor, patch, commits)\<close>, or \<^term>\<open>None\<close> for the unrecognizable.\<close>

definition atoi_ok :: "string \<Rightarrow> int option" where
  "atoi_ok s = (case atoi s of (n, err) \<Rightarrow> if err then None else Some n)"

definition parse_core :: "string \<Rightarrow> int \<Rightarrow> int list option" where
  "parse_core core commits =
     (case split_n CHR ''.'' 3 core of
        [a, b, c] \<Rightarrow>
          (case (atoi_ok a, atoi_ok b, atoi_ok c) of
             (Some x, Some y, Some z) \<Rightarrow> Some [x, y, z, commits]
           | _ \<Rightarrow> None)
      | _ \<Rightarrow> None)"

definition parseBinaryVersion :: "string \<Rightarrow> int list option" where
  "parseBinaryVersion s =
     (let v = trim_prefix s ''v'' in
      case cut_byte CHR ''-'' v of
        None \<Rightarrow> parse_core v 0
      | Some (core, rest) \<Rightarrow>
          (let rest' = (case cut_byte CHR ''-'' rest of Some (a, _) \<Rightarrow> if a = [] then rest else a | None \<Rightarrow> rest)
           in case atoi_ok rest' of None \<Rightarrow> None | Some commits \<Rightarrow> parse_core core commits))"

fun compare_parts :: "int list \<Rightarrow> int list \<Rightarrow> int" where
  "compare_parts (x # xs) (y # ys) = (if x < y then -1 else if x > y then 1 else compare_parts xs ys)"
| "compare_parts _ _ = 0"

definition CompareBinaryVersion :: "string \<Rightarrow> string \<Rightarrow> int" where
  "CompareBinaryVersion a b =
     (if a = b then 0
      else if a = ''dev'' then -1
      else if b = ''dev'' then 1
      else case (parseBinaryVersion a, parseBinaryVersion b) of
        (Some ai, Some bi) \<Rightarrow> compare_parts ai bi
      | _ \<Rightarrow> if a < b then -1 else if a > b then 1 else 0)"

section \<open>The database\<close>

datatype tbl = Symbols | Edges | ExtractionFailures | Files | Adrs | SymbolMoves | SlowQueries | Closure
  | PendingEdges | StructFields | InterfaceMethods | BenchRuns | LoopCheckpoints

text \<open>A row: its project (nullable for slow queries), its other key columns and its payload.\<close>

record row =
  rw_pid :: "string option"
  rw_key :: string
  rw_val :: string

record project =
  p_ID :: string
  p_Path :: string
  p_Name :: string
  p_IndexedAt :: int
  p_FileCount :: int
  p_SymCount :: int
  p_EdgeCount :: int
  p_Schema :: "int option"
  p_BinaryVersion :: string
  p_CurrentBranch :: string
  p_IndexState :: string
  p_IndexStartedAt :: int

record store =
  s_projects :: "project list"
  s_rows :: "tbl \<Rightarrow> row list"

datatype db_err = ForeignKey | UniqueKey

text \<open>Rows by project, and the statements of the maintenance code.\<close>

definition rows_of :: "store \<Rightarrow> tbl \<Rightarrow> string \<Rightarrow> row list" where
  "rows_of st t pid = filter (\<lambda>r. rw_pid r = Some pid) (s_rows st t)"

definition delete_rows :: "tbl \<Rightarrow> string \<Rightarrow> store \<Rightarrow> store" where
  "delete_rows t pid st = st\<lparr>s_rows := (s_rows st)(t := filter (\<lambda>r. rw_pid r \<noteq> Some pid) (s_rows st t))\<rparr>"

definition fk_tables :: "tbl list" where
  "fk_tables = [Symbols, Edges, ExtractionFailures, Closure]"

definition delete_project_row :: "string \<Rightarrow> store \<Rightarrow> db_err + store" where
  "delete_project_row pid st =
     (if list_ex (\<lambda>p. p_ID p = pid) (s_projects st) \<and> list_ex (\<lambda>t. rows_of st t pid \<noteq> []) fk_tables then Inl ForeignKey
      else let st1 = (if list_ex (\<lambda>p. p_ID p = pid) (s_projects st) then delete_rows BenchRuns pid st else st)
        in Inr (st1\<lparr>s_projects := filter (\<lambda>p. p_ID p \<noteq> pid) (s_projects st1)\<rparr>))"

section \<open>Project rows\<close>

definition GetProject :: "store \<Rightarrow> string \<Rightarrow> project option" where
  "GetProject st pid = find (\<lambda>p. p_ID p = pid) (s_projects st)"

definition ListProjects :: "store \<Rightarrow> project list" where
  "ListProjects st = sort_key p_Name (s_projects st)"

definition map_project :: "string \<Rightarrow> (project \<Rightarrow> project) \<Rightarrow> store \<Rightarrow> store" where
  "map_project pid f st = st\<lparr>s_projects := map (\<lambda>p. if p_ID p = pid then f p else p) (s_projects st)\<rparr>"

text \<open>The guard: an older stamp does not displace a newer one.\<close>

definition stamp_guard :: "string \<Rightarrow> string \<Rightarrow> string" where
  "stamp_guard incoming existing =
     (if existing \<noteq> [] \<and> CompareBinaryVersion incoming existing < 0 then existing else incoming)"

definition UpsertProject :: "int \<Rightarrow> project \<Rightarrow> store \<Rightarrow> store" where
  "UpsertProject currentSchema p st =
     (case GetProject st (p_ID p) of
        None \<Rightarrow> st\<lparr>s_projects := s_projects st @
          [p\<lparr>p_Schema := Some currentSchema, p_IndexState := ''complete'', p_IndexStartedAt := 0\<rparr>]\<rparr>
      | Some old \<Rightarrow>
          (let binaryToWrite = (if p_BinaryVersion p \<noteq> [] then stamp_guard (p_BinaryVersion p) (p_BinaryVersion old)
                                else p_BinaryVersion p)
           in map_project (p_ID p) (\<lambda>old. p\<lparr>
                p_BinaryVersion := (case p_Schema old of
                    Some v \<Rightarrow> if currentSchema \<ge> v then binaryToWrite else p_BinaryVersion old
                  | None \<Rightarrow> p_BinaryVersion old),
                p_Schema := map_option (\<lambda>v. max v currentSchema) (p_Schema old),
                p_IndexState := ''complete'', p_IndexStartedAt := 0\<rparr>) st))"

definition UpsertProjectMeta :: "int \<Rightarrow> project \<Rightarrow> store \<Rightarrow> store" where
  "UpsertProjectMeta currentSchema p st =
     (case GetProject st (p_ID p) of
        None \<Rightarrow> st\<lparr>s_projects := s_projects st @
          [p\<lparr>p_FileCount := 0, p_SymCount := 0, p_EdgeCount := 0, p_Schema := Some currentSchema,
             p_IndexState := ''complete'', p_IndexStartedAt := 0\<rparr>]\<rparr>
      | Some old \<Rightarrow>
          (let binaryToWrite = stamp_guard (p_BinaryVersion p) (p_BinaryVersion old);
               stored = (case p_Schema old of None \<Rightarrow> 0 | Some v \<Rightarrow> v)
           in map_project (p_ID p) (\<lambda>old. old\<lparr>
                p_Path := p_Path p, p_Name := p_Name p, p_IndexedAt := p_IndexedAt p,
                p_BinaryVersion := (if currentSchema \<ge> stored then binaryToWrite else p_BinaryVersion old),
                p_Schema := Some (max stored currentSchema),
                p_CurrentBranch := p_CurrentBranch p\<rparr>) st))"

definition UpdateProjectCounts :: "string \<Rightarrow> int \<Rightarrow> int \<Rightarrow> int \<Rightarrow> store \<Rightarrow> store" where
  "UpdateProjectCounts pid fls syms eds st =
     map_project pid (\<lambda>p. p\<lparr>p_FileCount := fls, p_SymCount := syms, p_EdgeCount := eds\<rparr>) st"

definition MarkProjectIndexStarted :: "string \<Rightarrow> int \<Rightarrow> store \<Rightarrow> store" where
  "MarkProjectIndexStarted pid startedAt st =
     map_project pid (\<lambda>p. p\<lparr>p_IndexState := ''running'', p_IndexStartedAt := startedAt\<rparr>) st"

definition MarkProjectIndexComplete :: "string \<Rightarrow> store \<Rightarrow> store" where
  "MarkProjectIndexComplete pid st =
     map_project pid (\<lambda>p. p\<lparr>p_IndexState := ''complete'', p_IndexStartedAt := 0\<rparr>) st"

definition ProjectIndexIncomplete :: "store \<Rightarrow> string \<Rightarrow> bool \<times> int option" where
  "ProjectIndexIncomplete st pid =
     (case GetProject st pid of
        None \<Rightarrow> (False, None)
      | Some p \<Rightarrow>
          if p_IndexState p \<noteq> ''running'' then (False, None)
          else if p_IndexStartedAt p \<le> 0 then (True, None) else (True, Some (p_IndexStartedAt p)))"

section \<open>Deletion\<close>

definition delete_tables :: "tbl list" where
  "delete_tables = [Edges, Symbols, Files, Adrs, ExtractionFailures, Closure, PendingEdges, StructFields,
     InterfaceMethods, SymbolMoves, SlowQueries]"

text \<open>One transaction: an error leaves the store as it was.\<close>

definition DeleteProject :: "string \<Rightarrow> store \<Rightarrow> db_err option \<times> store" where
  "DeleteProject pid st =
     (case delete_project_row pid (fold (\<lambda>t. delete_rows t pid) delete_tables st) of
        Inl e \<Rightarrow> (Some e, st)
      | Inr st' \<Rightarrow> (None, st'))"

definition ClearProjectIndexData :: "string \<Rightarrow> store \<Rightarrow> store" where
  "ClearProjectIndexData pid st =
     fold (\<lambda>t. delete_rows t pid)
       [Closure, Edges, PendingEdges, StructFields, InterfaceMethods, Symbols, Files, ExtractionFailures] st"

fun delete_all :: "string list \<Rightarrow> store \<Rightarrow> db_err option \<times> store" where
  "delete_all [] st = (None, st)"
| "delete_all (i # is) st = (case DeleteProject i st of (Some e, st') \<Rightarrow> (Some e, st') | (None, st') \<Rightarrow> delete_all is st')"

definition DeleteEmptyProjects :: "store \<Rightarrow> (db_err + nat) \<times> store" where
  "DeleteEmptyProjects st =
     (let pids = map p_ID (filter (\<lambda>p. p_SymCount p = 0 \<and> p_EdgeCount p = 0) (s_projects st)) in
      case delete_all pids st of (Some e, st') \<Rightarrow> (Inl e, st') | (None, st') \<Rightarrow> (Inr (length pids), st'))"

section \<open>Merging duplicates\<close>

definition merge_tables :: "tbl list" where
  "merge_tables = [Symbols, Edges, ExtractionFailures, Files, Adrs, SymbolMoves]"

text \<open>Move the rows whose key the winner does not have, then drop the rest.\<close>

definition merge_table :: "string \<Rightarrow> string \<Rightarrow> tbl \<Rightarrow> store \<Rightarrow> store" where
  "merge_table loser winner t st =
     (let taken = map rw_key (rows_of st t winner);
          moved = map (\<lambda>r. if rw_pid r = Some loser \<and> rw_key r \<notin> set taken then r\<lparr>rw_pid := Some winner\<rparr> else r) (s_rows st t)
      in delete_rows t loser (st\<lparr>s_rows := (s_rows st)(t := moved)\<rparr>))"

definition rekey_rows :: "string \<Rightarrow> string \<Rightarrow> tbl \<Rightarrow> store \<Rightarrow> store" where
  "rekey_rows old new t st =
     st\<lparr>s_rows := (s_rows st)(t := map (\<lambda>r. if rw_pid r = Some old then r\<lparr>rw_pid := Some new\<rparr> else r) (s_rows st t))\<rparr>"

text \<open>Not a transaction: after an error the earlier statements stand.\<close>

definition mergeProjectInto :: "string \<Rightarrow> string \<Rightarrow> store \<Rightarrow> db_err option \<times> store" where
  "mergeProjectInto loser winner st =
     (let st1 = rekey_rows loser winner SlowQueries (fold (merge_table loser winner) merge_tables st) in
      case delete_project_row loser st1 of Inl e \<Rightarrow> (Some e, st1) | Inr st2 \<Rightarrow> (None, st2))"

definition rename_tables :: "tbl list" where
  "rename_tables = [Symbols, Edges, ExtractionFailures, Files, Adrs, SymbolMoves, SlowQueries]"

text \<open>Of the renamed tables all but the slow queries have a unique key on the project id.\<close>

fun rename_rows :: "string \<Rightarrow> string \<Rightarrow> tbl list \<Rightarrow> store \<Rightarrow> db_err option \<times> store" where
  "rename_rows old new [] st = (None, st)"
| "rename_rows old new (t # ts) st =
     (if t \<noteq> SlowQueries \<and> list_ex (\<lambda>r. rw_key r \<in> set (map rw_key (rows_of st t new))) (rows_of st t old)
      then (Some UniqueKey, st)
      else rename_rows old new ts (rekey_rows old new t st))"

definition renameProjectID :: "string \<Rightarrow> string \<Rightarrow> store \<Rightarrow> db_err option \<times> store" where
  "renameProjectID old new st =
     (if GetProject st old \<noteq> None \<and> GetProject st new \<noteq> None \<and> old \<noteq> new then (Some UniqueKey, st)
      else rename_rows old new rename_tables (map_project old (\<lambda>p. p\<lparr>p_ID := new\<rparr>) st))"

definition recomputeProjectCounts :: "string \<Rightarrow> store \<Rightarrow> store" where
  "recomputeProjectCounts pid st =
     map_project pid (\<lambda>p. p\<lparr>p_SymCount := int (length (rows_of st Symbols pid)),
       p_FileCount := int (length (rows_of st Files pid)), p_EdgeCount := int (length (rows_of st Edges pid))\<rparr>) st"

text \<open>The row already at the canonical id, else the most symbols, else the most recent.\<close>

definition better :: "project \<Rightarrow> project \<Rightarrow> bool" where
  "better m w \<longleftrightarrow> p_SymCount m > p_SymCount w \<or> (p_SymCount m = p_SymCount w \<and> p_IndexedAt m > p_IndexedAt w)"

definition pick_winner :: "string \<Rightarrow> project list \<Rightarrow> project" where
  "pick_winner canon members =
     (case find (\<lambda>m. p_ID m = canon) members of
        Some m \<Rightarrow> m
      | None \<Rightarrow> foldl (\<lambda>w m. if better m w then m else w) (hd members) members)"

fun merge_all :: "string \<Rightarrow> project list \<Rightarrow> store \<Rightarrow> db_err option \<times> store" where
  "merge_all winner [] st = (None, st)"
| "merge_all winner (m # ms) st =
     (if p_ID m = winner then merge_all winner ms st
      else case mergeProjectInto (p_ID m) winner st of
        (Some e, st') \<Rightarrow> (Some e, st')
      | (None, st') \<Rightarrow> merge_all winner ms st')"

definition dedup_group :: "string \<Rightarrow> project list \<Rightarrow> store \<Rightarrow> db_err option \<times> store" where
  "dedup_group canon members st =
     (if length members \<le> 1 then (None, st)
      else let winner = p_ID (pick_winner canon members) in
        case merge_all winner members st of
          (Some e, st1) \<Rightarrow> (Some e, st1)
        | (None, st1) \<Rightarrow>
            (case (if winner \<noteq> canon then renameProjectID winner canon st1 else (None, st1)) of
               (Some e, st2) \<Rightarrow> (Some e, st2)
             | (None, st2) \<Rightarrow> (None, recomputeProjectCounts canon st2)))"

text \<open>
  The groups are read once, at the start; \<open>keys\<close> is the iteration order of the Go map, any order of
  the canonical paths that occur.
\<close>

fun dedup_groups :: "(string \<Rightarrow> string) \<Rightarrow> project list \<Rightarrow> string list \<Rightarrow> store \<Rightarrow> db_err option \<times> store" where
  "dedup_groups canon all [] st = (None, st)"
| "dedup_groups canon all (c # cs) st =
     (case dedup_group c (filter (\<lambda>p. canon (p_Path p) = c) all) st of
        (Some e, st') \<Rightarrow> (Some e, st')
      | (None, st') \<Rightarrow> dedup_groups canon all cs st')"

definition dedupProjectsByCanonicalPath :: "(string \<Rightarrow> string) \<Rightarrow> string list \<Rightarrow> store \<Rightarrow> db_err option \<times> store" where
  "dedupProjectsByCanonicalPath canon keys st = dedup_groups canon (s_projects st) keys st"

end
