(* ===== verification/Project_Resolve.thy ===== *)
theory Project_Resolve
  imports Project_Store
begin

text \<open>
  From what a caller writes to a project: lexical paths and the canonical project id
  (\<^verbatim>\<open>internal/db/path.go\<close>, \<^verbatim>\<open>internal/db/db.go\<close>), the nesting test of the
  indexer, and \<open>resolveProjectID\<close> with its cache (\<^verbatim>\<open>internal/server/server.go\<close>).  Paths
  are those of Unix.  The file system, the clock, Unicode case folding and the index pass that a
  first use triggers are parameters.
\<close>

section \<open>Lexical paths\<close>

fun split_slash :: "string \<Rightarrow> string list" where
  "split_slash [] = [[]]"
| "split_slash (c # s) =
     (if c = CHR ''/'' then [] # split_slash s
      else case split_slash s of [] \<Rightarrow> [[c]] | p # ps \<Rightarrow> (c # p) # ps)"

text \<open>The element loop of \<^verbatim>\<open>filepath.Clean\<close>, the elements kept so far in reverse.\<close>

fun clean_elems :: "bool \<Rightarrow> string list \<Rightarrow> string list \<Rightarrow> string list" where
  "clean_elems rooted acc [] = rev acc"
| "clean_elems rooted acc (c # cs) =
     (if c = [] \<or> c = ''.'' then clean_elems rooted acc cs
      else if c = ''..'' then
        (case acc of
           [] \<Rightarrow> if rooted then clean_elems rooted acc cs else clean_elems rooted [c] cs
         | a # as \<Rightarrow> if a = ''..'' then clean_elems rooted (c # acc) cs else clean_elems rooted as cs)
      else clean_elems rooted (c # acc) cs)"

definition IsAbs :: "string \<Rightarrow> bool" where
  "IsAbs p \<longleftrightarrow> has_prefix p ''/''"

definition path_clean :: "string \<Rightarrow> string" where
  "path_clean p =
     (if p = [] then ''.''
      else let body = str_join ''/'' (clean_elems (IsAbs p) [] (split_slash p)) in
        if IsAbs p then CHR ''/'' # body else if body = [] then ''.'' else body)"

definition elems :: "string \<Rightarrow> string list" where
  "elems p = filter (\<lambda>c. c \<noteq> []) (split_slash p)"

fun strip_common :: "string list \<Rightarrow> string list \<Rightarrow> string list \<times> string list" where
  "strip_common (x # xs) (y # ys) = (if x = y then strip_common xs ys else (x # xs, y # ys))"
| "strip_common xs ys = (xs, ys)"

text \<open>\<^verbatim>\<open>filepath.Rel\<close>; \<^term>\<open>None\<close> is its error.\<close>

definition path_rel :: "string \<Rightarrow> string \<Rightarrow> string option" where
  "path_rel basepath targpath =
     (let base = path_clean basepath; targ = path_clean targpath in
      if base = targ then Some ''.''
      else let base = (if base = ''.'' then [] else base) in
        if IsAbs base \<noteq> IsAbs targ then None
        else case strip_common (elems base) (elems targ) of
          ([], ts) \<Rightarrow> Some (str_join ''/'' ts)
        | (b # bs, ts) \<Rightarrow> if b = ''..'' then None else Some (str_join ''/'' (replicate (length (b # bs)) ''..'' @ ts)))"

definition pathContains :: "string \<Rightarrow> string \<Rightarrow> bool" where
  "pathContains parent child =
     (let parent = path_clean parent; child = path_clean child in
      if parent = child then False
      else case path_rel parent child of
        None \<Rightarrow> False
      | Some rel \<Rightarrow> if has_prefix rel ''..'' then False else rel \<noteq> ''.'' \<and> rel \<noteq> [])"

definition ProjectsContainingPath :: "store \<Rightarrow> string \<Rightarrow> project list" where
  "ProjectsContainingPath st target =
     filter (\<lambda>p. pathContains (path_clean (p_Path p)) (path_clean target)) (ListProjects st)"

text \<open>\<^verbatim>\<open>filepath.Base\<close> of a cleaned path.\<close>

definition ProjectNameFromPath :: "string \<Rightarrow> string" where
  "ProjectNameFromPath path =
     (let p = path_clean (replace_byte backslash ''/'' path) in
      if elems p = [] then ''/'' else last (elems p))"

fun flipFirstLetterCase :: "string \<Rightarrow> string \<times> bool" where
  "flipFirstLetterCase [] = ([], False)"
| "flipFirstLetterCase (c # s) =
     (if is_upper c then (lower_char c # s, True)
      else if is_lower c then (upper_char c # s, True)
      else case flipFirstLetterCase s of (s', ok) \<Rightarrow> (c # s', ok))"

text \<open>
  The file system: symbolic links, whether two paths exist and are one file, and the working directory.
\<close>

record fs =
  fs_eval :: "string \<Rightarrow> string option"
  fs_same :: "string \<Rightarrow> string \<Rightarrow> bool"
  fs_exists :: "string \<Rightarrow> bool"
  fs_cwd :: "string option"

definition isCaseInsensitiveFS :: "fs \<Rightarrow> string \<Rightarrow> bool" where
  "isCaseInsensitiveFS f path =
     (case flipFirstLetterCase path of
        (_, False) \<Rightarrow> False
      | (flipped, True) \<Rightarrow> fs_exists f path \<and> fs_exists f flipped \<and> fs_same f path flipped)"

definition path_abs :: "fs \<Rightarrow> string \<Rightarrow> string option" where
  "path_abs f path =
     (if IsAbs path then Some (path_clean path)
      else map_option (\<lambda>wd. path_clean (if path = [] then wd else wd @ ''/'' @ path)) (fs_cwd f))"

definition CanonicalProjectPath :: "fs \<Rightarrow> (string \<Rightarrow> string) \<Rightarrow> string \<Rightarrow> string" where
  "CanonicalProjectPath f lower absPath =
     (let cl = path_clean absPath;
          cl = (if IsAbs cl then cl else case path_abs f cl of Some a \<Rightarrow> a | None \<Rightarrow> cl);
          resolved = (case fs_eval f cl of Some r \<Rightarrow> r | None \<Rightarrow> cl)
      in if isCaseInsensitiveFS f resolved then lower resolved else resolved)"

definition ProjectIDFromPath :: "fs \<Rightarrow> (string \<Rightarrow> string) \<Rightarrow> string \<Rightarrow> string" where
  "ProjectIDFromPath f lower path =
     (case path_abs f path of None \<Rightarrow> path | Some a \<Rightarrow> CanonicalProjectPath f lower a)"

section \<open>Resolution\<close>

record cache_entry =
  ce_id :: string
  ce_sessionID :: string
  ce_expiresAt :: int

record session =
  ss_ID :: string
  ss_Root :: string
  ss_cache :: "(string \<times> cache_entry) list"

text \<open>
  The surroundings of one call: the store's answers (errors are their text), the paths that exist,
  the canonical id of a path, case folding, and the result of indexing the session root.
\<close>

record world =
  wd_get :: "string \<Rightarrow> string + project option"
  wd_list :: "string + project list"
  wd_stat :: "string \<Rightarrow> bool"
  wd_canon :: "string \<Rightarrow> string"
  wd_fold :: "string \<Rightarrow> string"
  wd_index :: "string option"
  wd_now :: int

definition projectIDCacheTTL :: int where "projectIDCacheTTL = 60 * 10 ^ 9"

datatype resolve_err = NoProject | AutoIndexFailed string | CrossProject | StoreError string | NotFound string

definition lookupProjectIDCache :: "int \<Rightarrow> string \<Rightarrow> session \<Rightarrow> string option \<times> session" where
  "lookupProjectIDCache now arg s =
     (case map_of (ss_cache s) arg of
        None \<Rightarrow> (None, s)
      | Some e \<Rightarrow>
          if now > ce_expiresAt e \<or> ce_sessionID e \<noteq> ss_ID s
          then (None, s\<lparr>ss_cache := AList.delete arg (ss_cache s)\<rparr>)
          else (Some (ce_id e), s))"

definition storeProjectIDCache :: "int \<Rightarrow> string \<Rightarrow> string \<Rightarrow> session \<Rightarrow> session" where
  "storeProjectIDCache now arg i s =
     (if i = [] then s
      else s\<lparr>ss_cache := AList.update arg
        \<lparr>ce_id = i, ce_sessionID = ss_ID s, ce_expiresAt = now + projectIDCacheTTL\<rparr> (ss_cache s)\<rparr>)"

definition invalidateProjectIDCache :: "session \<Rightarrow> session" where
  "invalidateProjectIDCache s = s\<lparr>ss_cache := []\<rparr>"

definition resolve_session :: "world \<Rightarrow> session \<Rightarrow> string \<times> resolve_err option" where
  "resolve_session w s =
     (if ss_ID s = [] then ([], Some NoProject)
      else if ss_Root s \<noteq> [] \<and> (case wd_get w (ss_ID s) of Inr (Some _) \<Rightarrow> False | _ \<Rightarrow> True) then
        (case wd_index w of Some e \<Rightarrow> (ss_ID s, Some (AutoIndexFailed e)) | None \<Rightarrow> (ss_ID s, None))
      else (ss_ID s, None))"

definition preferProject :: "string \<Rightarrow> project option \<Rightarrow> project \<Rightarrow> project option" where
  "preferProject sid current candidate =
     (case current of
        None \<Rightarrow> Some candidate
      | Some cur \<Rightarrow>
          if sid \<noteq> [] \<and> p_ID candidate = sid \<and> p_ID cur \<noteq> sid then Some candidate
          else if sid \<noteq> [] \<and> p_ID cur = sid \<and> p_ID candidate \<noteq> sid then current
          else if p_IndexedAt candidate > p_IndexedAt cur then Some candidate
          else current)"

text \<open>The four slots of the loop over all projects.\<close>

record slots =
  exactLive :: "project option"
  exactDead :: "project option"
  foldLive :: "project option"
  foldDead :: "project option"

definition slot_step :: "world \<Rightarrow> string \<Rightarrow> string \<Rightarrow> project \<Rightarrow> slots \<Rightarrow> slots" where
  "slot_step w sid arg p sl =
     (if p_Name p = arg then
        (if wd_stat w (p_Path p) then sl\<lparr>exactLive := preferProject sid (exactLive sl) p\<rparr>
         else sl\<lparr>exactDead := preferProject sid (exactDead sl) p\<rparr>)
      else if wd_fold w (p_Name p) = wd_fold w arg then
        (if wd_stat w (p_Path p) then sl\<lparr>foldLive := preferProject sid (foldLive sl) p\<rparr>
         else sl\<lparr>foldDead := preferProject sid (foldDead sl) p\<rparr>)
      else sl)"

definition no_slots :: slots where
  "no_slots = \<lparr>exactLive = None, exactDead = None, foldLive = None, foldDead = None\<rparr>"

definition best_slot :: "slots \<Rightarrow> project option" where
  "best_slot sl =
     (case exactLive sl of Some p \<Rightarrow> Some p | None \<Rightarrow>
      case foldLive sl of Some p \<Rightarrow> Some p | None \<Rightarrow>
      case exactDead sl of Some p \<Rightarrow> Some p | None \<Rightarrow> foldDead sl)"

text \<open>The part below the cache: by id, by canonical path, by name.\<close>

definition resolve_uncached :: "world \<Rightarrow> string \<Rightarrow> string \<Rightarrow> resolve_err + string" where
  "resolve_uncached w sid arg =
     (case wd_get w arg of
        Inl e \<Rightarrow> Inl (StoreError e)
      | Inr (Some p) \<Rightarrow> Inr (p_ID p)
      | Inr None \<Rightarrow>
          (case (if IsAbs arg \<and> wd_canon w arg \<noteq> arg then wd_get w (wd_canon w arg) else Inr None) of
             Inr (Some cp) \<Rightarrow> Inr (p_ID cp)
           | _ \<Rightarrow>
               (case wd_list w of
                  Inl e \<Rightarrow> Inl (StoreError e)
                | Inr all \<Rightarrow>
                    (case best_slot (fold (slot_step w sid arg) all no_slots) of
                       Some p \<Rightarrow> Inr (p_ID p)
                     | None \<Rightarrow> Inl (NotFound arg)))))"

definition resolveProjectID :: "world \<Rightarrow> string \<Rightarrow> session \<Rightarrow> (string \<times> resolve_err option) \<times> session" where
  "resolveProjectID w arg s =
     (if arg = [] \<or> (trim_space arg \<noteq> [] \<and> path_clean (trim_space arg) = ''.'') then (resolve_session w s, s)
      else if arg = ''*'' then (([], Some CrossProject), s)
      else case lookupProjectIDCache (wd_now w) arg s of
        (Some i, s1) \<Rightarrow> ((i, None), s1)
      | (None, s1) \<Rightarrow>
          (case resolve_uncached w (ss_ID s) arg of
             Inl e \<Rightarrow> (([], Some e), s1)
           | Inr i \<Rightarrow> ((i, None), storeProjectIDCache (wd_now w) arg i s1)))"

end
