(* ===== verification/Project_Store_Props.thy ===== *)
theory Project_Store_Props
  imports Project_Store
begin

text \<open>
  The guarantees of the project table: stamps of recognizable versions are totally ordered and never
  go back, whoever writes; deletion leaves no row behind that would block it, and merging duplicates
  keeps every key.  Where the code falls short of its comments the exact behaviour is proved: an
  unrecognizable stamp displaces a release, checkpoints survive a deletion, and a closure row of a
  duplicate makes the merge fail.
\<close>

section \<open>The order of version stamps\<close>

definition wf_version :: "string \<Rightarrow> bool" where
  "wf_version v \<longleftrightarrow> v = ''dev'' \<or> parseBinaryVersion v \<noteq> None"

text \<open>The position of a recognizable stamp: the development build below every release.\<close>

definition rank :: "string \<Rightarrow> int list" where
  "rank v = (if v = ''dev'' then [0, 0, 0, 0, 0] else 1 # the (parseBinaryVersion v))"

lemma parse_core_length: "parse_core s c = Some xs \<Longrightarrow> length xs = 4"
  by (auto simp: parse_core_def split: list.splits option.splits)

lemma parse_length: "parseBinaryVersion s = Some xs \<Longrightarrow> length xs = 4"
  by (auto simp: parseBinaryVersion_def Let_def dest: parse_core_length split: option.splits)

lemma rank_length: "wf_version v \<Longrightarrow> length (rank v) = 5"
  by (auto simp: wf_version_def rank_def dest: parse_length)

lemma compare_parts_lex:
  "length xs = length ys \<Longrightarrow> compare_parts xs ys = (if xs < ys then -1 else if ys < xs then 1 else 0)"
  by (induction xs ys rule: compare_parts.induct) auto

lemma compare_rank:
  assumes "wf_version a" "wf_version b"
  shows "CompareBinaryVersion a b = (if rank a < rank b then -1 else if rank b < rank a then 1 else 0)"
proof -
  have "CompareBinaryVersion a b = compare_parts (rank a) (rank b)"
    using assms compare_parts_lex [of "rank a" "rank a"]
    by (auto simp: CompareBinaryVersion_def wf_version_def rank_def)
  then show ?thesis using compare_parts_lex rank_length assms by simp
qed

section \<open>Stamps under concurrent writers\<close>

text \<open>
  What an upsert does to the stamp of a row: the schema version grows, and the binary version is
  replaced unless it is newer or was written under a later schema.
\<close>

definition stamp_step :: "int \<Rightarrow> string \<Rightarrow> int \<times> string \<Rightarrow> int \<times> string" where
  "stamp_step c incoming s =
     (max (fst s) c, if fst s \<le> c then stamp_guard incoming (snd s) else snd s)"

definition stamp_of :: "project \<Rightarrow> int \<times> string" where
  "stamp_of p = (the (p_Schema p), p_BinaryVersion p)"

definition stamped :: "project \<Rightarrow> bool" where
  "stamped p \<longleftrightarrow> p_Schema p \<noteq> None"

datatype writer = Start int project | Finish int project

fun upsert :: "writer \<Rightarrow> store \<Rightarrow> store" where
  "upsert (Start c p) = UpsertProjectMeta c p"
| "upsert (Finish c p) = UpsertProject c p"

fun w_project :: "writer \<Rightarrow> project" where
  "w_project (Start c p) = p"
| "w_project (Finish c p) = p"

fun w_schema :: "writer \<Rightarrow> int" where
  "w_schema (Start c p) = c"
| "w_schema (Finish c p) = c"

lemma find_map_same:
  "(\<And>x. P (f x) = P x) \<Longrightarrow> find P (map f xs) = map_option f (find P xs)"
  by (induction xs) auto

lemma GetProject_ID: "GetProject st pid = Some p \<Longrightarrow> p_ID p = pid"
  by (auto simp: GetProject_def find_Some_iff)

lemma GetProject_map:
  assumes "\<And>p. p_ID p = i \<Longrightarrow> p_ID (f p) = i"
  shows "GetProject (map_project i f st) pid = map_option (\<lambda>p. if p_ID p = i then f p else p) (GetProject st pid)"
  unfolding GetProject_def map_project_def using assms by (simp, subst find_map_same) auto

text \<open>Both upserts implement the abstract step on the row they name and leave the other rows alone.\<close>

lemma upsert_refines:
  assumes "GetProject st pid = Some r" "stamped r" "p_BinaryVersion (w_project w) \<noteq> []"
  shows "\<exists>r'. GetProject (upsert w st) pid = Some r' \<and> stamped r' \<and>
    stamp_of r' = (if p_ID (w_project w) = pid then stamp_step (w_schema w) (p_BinaryVersion (w_project w)) (stamp_of r) else stamp_of r) \<and>
    (p_ID (w_project w) \<noteq> pid \<longrightarrow> r' = r)"
proof (cases "p_ID (w_project w) = pid")
  case True
  then show ?thesis using assms GetProject_ID [OF assms(1)]
    by (cases w) (auto simp: UpsertProjectMeta_def UpsertProject_def Let_def GetProject_map stamped_def stamp_of_def stamp_step_def)
next
  case False
  have "GetProject (st\<lparr>s_projects := s_projects st @ [x]\<rparr>) pid = Some r" if "p_ID x \<noteq> pid" for x
    using assms(1) by (auto simp: GetProject_def find_Some_iff nth_append) 
  then show ?thesis using assms False GetProject_ID [OF assms(1)]
    by (cases w) (auto simp: UpsertProjectMeta_def UpsertProject_def Let_def GetProject_map split: option.splits)
qed

lemma wf_not_Nil: "wf_version v \<Longrightarrow> v \<noteq> []"
  by (auto simp: wf_version_def parseBinaryVersion_def parse_core_def split_n.simps trim_prefix_def Let_def)

lemma guard_max:
  assumes "wf_version inc" "wf_version old"
  shows "wf_version (stamp_guard inc old)" "rank old \<le> rank (stamp_guard inc old)" "rank inc \<le> rank (stamp_guard inc old)"
  using assms compare_rank [of inc old] by (auto simp: stamp_guard_def wf_not_Nil)

lemma stamps_rise:
  assumes "GetProject st pid = Some r" "stamped r" "wf_version (p_BinaryVersion r)"
    and "\<forall>w \<in> set ws. wf_version (p_BinaryVersion (w_project w))"
  shows "\<exists>r'. GetProject (fold upsert ws st) pid = Some r' \<and> stamped r' \<and> wf_version (p_BinaryVersion r') \<and>
    the (p_Schema r) \<le> the (p_Schema r') \<and> rank (p_BinaryVersion r) \<le> rank (p_BinaryVersion r') \<and>
    (\<forall>w \<in> set ws. p_ID (w_project w) = pid \<and> w_schema w = the (p_Schema r') \<longrightarrow>
       rank (p_BinaryVersion (w_project w)) \<le> rank (p_BinaryVersion r'))"
  using assms
proof (induction ws arbitrary: st r)
  case (Cons w ws)
  let ?inc = "p_BinaryVersion (w_project w)"
  have inc: "wf_version ?inc" "?inc \<noteq> []" using Cons.prems(4) wf_not_Nil by auto
  obtain r1 where r1: "GetProject (upsert w st) pid = Some r1" "stamped r1"
    "stamp_of r1 = (if p_ID (w_project w) = pid then stamp_step (w_schema w) ?inc (stamp_of r) else stamp_of r)"
    using upsert_refines [OF Cons.prems(1,2) inc(2)] by blast
  have up: "wf_version (p_BinaryVersion r1)" "the (p_Schema r) \<le> the (p_Schema r1)" "rank (p_BinaryVersion r) \<le> rank (p_BinaryVersion r1)"
    using r1(3) Cons.prems(3) inc(1) guard_max by (auto simp: stamp_of_def stamp_step_def split: if_splits)
  obtain r' where r': "GetProject (fold upsert ws (upsert w st)) pid = Some r'" "stamped r'" "wf_version (p_BinaryVersion r')"
    "the (p_Schema r1) \<le> the (p_Schema r')" "rank (p_BinaryVersion r1) \<le> rank (p_BinaryVersion r')"
    "\<forall>w \<in> set ws. p_ID (w_project w) = pid \<and> w_schema w = the (p_Schema r') \<longrightarrow> rank (p_BinaryVersion (w_project w)) \<le> rank (p_BinaryVersion r')"
    using Cons.IH [OF r1(1,2) up(1)] Cons.prems(4) by auto
  have "rank ?inc \<le> rank (p_BinaryVersion r')" if "p_ID (w_project w) = pid" "w_schema w = the (p_Schema r')"
  proof -
    have "the (p_Schema r) \<le> w_schema w" using that r'(4) up(2) by simp
    then have "p_BinaryVersion r1 = stamp_guard ?inc (p_BinaryVersion r)"
      using r1(3) that(1) by (simp add: stamp_of_def stamp_step_def)
    then show ?thesis using guard_max(3) [OF inc(1) Cons.prems(3)] r'(5) by simp
  qed
  then show ?case using r' up by (intro exI [of _ r']) (auto intro: order_trans)
qed (auto intro: order_refl)


definition example_project :: "string \<Rightarrow> string \<Rightarrow> project" where
  "example_project pid bv = \<lparr>p_ID = pid, p_Path = pid, p_Name = ''n'', p_IndexedAt = 1, p_FileCount = 0, p_SymCount = 0,
     p_EdgeCount = 0, p_Schema = Some 40, p_BinaryVersion = bv, p_CurrentBranch = ''main'', p_IndexState = ''complete'', p_IndexStartedAt = 0\<rparr>"

definition example_store :: "string \<Rightarrow> store" where
  "example_store bv = \<lparr>s_projects = [example_project ''a'' bv], s_rows = (\<lambda>_. [])\<rparr>"


text \<open>
  An unrecognizable stamp does displace a release: for a row of the current schema, a writer whose
  version cannot be parsed replaces any stamp that precedes it as a string, so that a build of a dirty
  tree of 0.9.0 takes the place of 0.10.0.
\<close>

theorem unparseable_stamp_displaces:
  assumes "GetProject st pid = Some r" "p_Schema r = Some c" "p_ID p = pid" "p_BinaryVersion p \<noteq> ''dev''"
    and "parseBinaryVersion (p_BinaryVersion p) = None" "p_BinaryVersion r \<noteq> ''dev''" "p_BinaryVersion r < p_BinaryVersion p"
  shows "map_option p_BinaryVersion (GetProject (UpsertProjectMeta c p st) pid) = Some (p_BinaryVersion p)"
proof -
  have "\<not> CompareBinaryVersion (p_BinaryVersion p) (p_BinaryVersion r) < 0"
    using assms(4-7) by (auto simp: CompareBinaryVersion_def)
  then show ?thesis using assms(1-3) GetProject_ID [OF assms(1)]
    by (simp add: UpsertProjectMeta_def GetProject_map Let_def stamp_guard_def)
qed

theorem unparseable_stamp_displaces_witness:
  "map_option p_BinaryVersion (GetProject (UpsertProjectMeta 40 (example_project ''a'' ''0.9.0-dirty'') (example_store ''0.10.0'')) ''a'')
     = Some ''0.9.0-dirty'' \<and> CompareBinaryVersion ''0.9.0'' ''0.9.0-dirty'' < 0 \<and> CompareBinaryVersion ''0.9.0'' ''0.10.0'' < 0"
proof -
  have g: "GetProject (example_store ''0.10.0'') ''a'' = Some (example_project ''a'' ''0.10.0'')" by code_simp
  have "parseBinaryVersion ''0.9.0-dirty'' = None" "''0.10.0'' < ''0.9.0-dirty''" by code_simp+
  then have "map_option p_BinaryVersion (GetProject (UpsertProjectMeta 40 (example_project ''a'' ''0.9.0-dirty'') (example_store ''0.10.0'')) ''a'')
     = Some ''0.9.0-dirty''"
    using unparseable_stamp_displaces [OF g, of 40 "example_project ''a'' ''0.9.0-dirty''"] by (simp add: example_project_def)
  moreover have "CompareBinaryVersion ''0.9.0'' ''0.9.0-dirty'' < 0" "CompareBinaryVersion ''0.9.0'' ''0.10.0'' < 0" by code_simp+
  ultimately show ?thesis by simp
qed

section \<open>Rows under the statements\<close>

lemma rows_of_delete: "rows_of (delete_rows t pid st) u q = (if u = t \<and> q = pid then [] else rows_of st u q)"
  by (auto simp: rows_of_def delete_rows_def filter_empty_conv intro: filter_cong)

lemma projects_delete_rows [simp]: "s_projects (delete_rows t pid st) = s_projects st"
  by (simp add: delete_rows_def)

lemma rows_of_delete_fold:
  "rows_of (fold (\<lambda>t. delete_rows t pid) ts st) u q = (if u \<in> set ts \<and> q = pid then [] else rows_of st u q)"
  by (induction ts arbitrary: st) (auto simp: rows_of_delete)

lemma projects_delete_fold [simp]: "s_projects (fold (\<lambda>t. delete_rows t pid) ts st) = s_projects st"
  by (induction ts arbitrary: st) auto

lemma GetProject_cong: "s_projects st = s_projects st' \<Longrightarrow> GetProject st = GetProject st'"
  by (auto simp: GetProject_def)

lemma GetProject_None: "GetProject st pid = None \<longleftrightarrow> (\<forall>p \<in> set (s_projects st). p_ID p \<noteq> pid)"
  by (auto simp: GetProject_def find_None_iff)

lemma GetProject_ids: "GetProject st pid = None \<longleftrightarrow> pid \<notin> set (map p_ID (s_projects st))"
  by (auto simp: GetProject_None)

lemma delete_row_ok:
  assumes "\<forall>t \<in> set fk_tables. rows_of st t pid = []" "delete_project_row pid st = Inr st'"
  shows "s_projects st' = filter (\<lambda>p. p_ID p \<noteq> pid) (s_projects st)"
    and "rows_of st' t q = (if t = BenchRuns \<and> q = pid \<and> GetProject st pid \<noteq> None then [] else rows_of st t q)"
proof -
  have ex: "list_ex (\<lambda>p. p_ID p = pid) (s_projects st) \<longleftrightarrow> GetProject st pid \<noteq> None"
    by (auto simp: GetProject_None list_ex_iff)
  show "s_projects st' = filter (\<lambda>p. p_ID p \<noteq> pid) (s_projects st)"
    using assms by (auto simp: delete_project_row_def Let_def split: if_splits)
  have "rows_of (x\<lparr>s_projects := y\<rparr>) t q = rows_of x t q" for x y by (simp add: rows_of_def)
  then show "rows_of st' t q = (if t = BenchRuns \<and> q = pid \<and> GetProject st pid \<noteq> None then [] else rows_of st t q)"
    using assms by (auto simp: delete_project_row_def Let_def ex rows_of_delete split: if_splits)
qed

lemma delete_row_succeeds: "\<forall>t \<in> set fk_tables. rows_of st t pid = [] \<Longrightarrow> \<exists>st'. delete_project_row pid st = Inr st'"
  by (auto simp: delete_project_row_def list_ex_iff Let_def)

section \<open>Deletion\<close>

text \<open>
  C27. A project can always be deleted: no foreign key stands in the way, its row and all its rows in
  the eleven listed tables and its benchmark runs are gone, everything of every other project is
  untouched; and the checkpoints of its loops are the one thing that stays.
\<close>

theorem delete_project_complete:
  assumes "GetProject st pid \<noteq> None" "DeleteProject pid st = (e, st')"
  shows "e = None \<and> GetProject st' pid = None \<and> (\<forall>t. t \<noteq> LoopCheckpoints \<longrightarrow> rows_of st' t pid = []) \<and>
    rows_of st' LoopCheckpoints pid = rows_of st LoopCheckpoints pid \<and>
    (\<forall>t q. q \<noteq> pid \<longrightarrow> rows_of st' t q = rows_of st t q) \<and>
    s_projects st' = filter (\<lambda>p. p_ID p \<noteq> pid) (s_projects st)"
proof -
  let ?d = "fold (\<lambda>t. delete_rows t pid) delete_tables st"
  have fk: "\<forall>t \<in> set fk_tables. rows_of ?d t pid = []"
    unfolding rows_of_delete_fold by (simp add: fk_tables_def delete_tables_def)
  obtain st1 where st1: "delete_project_row pid ?d = Inr st1" using delete_row_succeeds [OF fk] by blast
  then have e: "e = None" "st' = st1" using assms(2) by (auto simp: DeleteProject_def)
  note del = delete_row_ok [OF fk st1]
  have "GetProject ?d pid \<noteq> None" using assms(1) GetProject_cong [of ?d st] by simp
  then have rows: "rows_of st' t q = (if q = pid \<and> (t = BenchRuns \<or> t \<in> set delete_tables) then [] else rows_of st t q)" for t q
    unfolding e(2) del(2) rows_of_delete_fold by auto
  moreover have "t = BenchRuns \<or> t \<in> set delete_tables" if "t \<noteq> LoopCheckpoints" for t
    using that by (cases t) (auto simp: delete_tables_def)
  ultimately show ?thesis using e del(1) by (auto simp: GetProject_None delete_tables_def)
qed

theorem delete_project_complete_witness:
  "GetProject (snd (DeleteProject ''a'' (example_store ''1.0.0''))) ''a'' = None"
proof -
  have "GetProject (example_store ''1.0.0'') ''a'' \<noteq> None" by code_simp
  from delete_project_complete [OF this, of "fst (DeleteProject ''a'' (example_store ''1.0.0''))"
      "snd (DeleteProject ''a'' (example_store ''1.0.0''))"] show ?thesis by simp
qed

section \<open>Merging\<close>

lemma projects_merge_table [simp]: "s_projects (merge_table l w t st) = s_projects st"
  by (simp add: merge_table_def Let_def)

lemma projects_rekey [simp]: "s_projects (rekey_rows l w t st) = s_projects st"
  by (simp add: rekey_rows_def)

lemma rows_of_rekey:
  assumes "l \<noteq> w"
  shows "q \<notin> {l, w} \<or> u \<noteq> t \<Longrightarrow> rows_of (rekey_rows l w t st) u q = rows_of st u q"
    and "rows_of (rekey_rows l w t st) t l = []"
    and "rw_key ` set (rows_of (rekey_rows l w t st) t w) = rw_key ` (set (rows_of st t w) \<union> set (rows_of st t l))"
proof -
  show "rows_of (rekey_rows l w t st) t l = []" using assms by (auto simp: rows_of_def rekey_rows_def filter_empty_conv)
  show "q \<notin> {l, w} \<or> u \<noteq> t \<Longrightarrow> rows_of (rekey_rows l w t st) u q = rows_of st u q"
  proof -
    have "filter (\<lambda>r. rw_pid r = Some q) (map (\<lambda>r. if rw_pid r = Some l then r\<lparr>rw_pid := Some w\<rparr> else r) rs) =
        filter (\<lambda>r. rw_pid r = Some q) rs" if "q \<notin> {l, w}" for rs using that by (induction rs) auto
    then show "q \<notin> {l, w} \<or> u \<noteq> t \<Longrightarrow> rows_of (rekey_rows l w t st) u q = rows_of st u q"
      by (auto simp: rows_of_def rekey_rows_def)
  qed
  have "set (rows_of (rekey_rows l w t st) t w) = set (rows_of st t w) \<union> (\<lambda>r. r\<lparr>rw_pid := Some w\<rparr>) ` set (rows_of st t l)"
    using assms by (auto simp: rows_of_def rekey_rows_def split: if_splits)
  then show "rw_key ` set (rows_of (rekey_rows l w t st) t w) = rw_key ` (set (rows_of st t w) \<union> set (rows_of st t l))"
    by (simp add: image_Un image_image)
qed

lemma rows_of_merge:
  assumes "l \<noteq> w"
  shows "q \<notin> {l, w} \<or> u \<noteq> t \<Longrightarrow> rows_of (merge_table l w t st) u q = rows_of st u q"
    and "rows_of (merge_table l w t st) t l = []"
    and "set (rows_of st t w) \<subseteq> set (rows_of (merge_table l w t st) t w)"
    and "rw_key ` set (rows_of (merge_table l w t st) t w) = rw_key ` (set (rows_of st t w) \<union> set (rows_of st t l))"
proof -
  define taken where "taken = set (map rw_key (rows_of st t w))"
  define f where "f r = (if rw_pid r = Some l \<and> rw_key r \<notin> taken then r\<lparr>rw_pid := Some w\<rparr> else r)" for r :: row
  have m: "merge_table l w t st = delete_rows t l (st\<lparr>s_rows := (s_rows st)(t := map f (s_rows st t))\<rparr>)"
    unfolding merge_table_def Let_def taken_def [symmetric] f_def [abs_def] ..
  show "rows_of (merge_table l w t st) t l = []" by (simp add: m rows_of_delete)
  have "filter (\<lambda>r. rw_pid r = Some q) (map f rs) = filter (\<lambda>r. rw_pid r = Some q) rs" if "q \<notin> {l, w}" for rs
    using that by (induction rs) (auto simp: f_def)
  then show "q \<notin> {l, w} \<or> u \<noteq> t \<Longrightarrow> rows_of (merge_table l w t st) u q = rows_of st u q"
    by (auto simp: m rows_of_delete) (auto simp: rows_of_def)
  have w: "rows_of (merge_table l w t st) t w = filter (\<lambda>r. rw_pid r = Some w) (map f (s_rows st t))"
    using assms by (simp add: m rows_of_delete) (simp add: rows_of_def)
  have "set (rows_of (merge_table l w t st) t w) =
      set (rows_of st t w) \<union> (\<lambda>r. r\<lparr>rw_pid := Some w\<rparr>) ` {r \<in> set (rows_of st t l). rw_key r \<notin> taken}"
    using assms unfolding w by (auto simp: rows_of_def f_def split: if_splits)
  moreover from this show "set (rows_of st t w) \<subseteq> set (rows_of (merge_table l w t st) t w)" by blast
  ultimately show "rw_key ` set (rows_of (merge_table l w t st) t w) = rw_key ` (set (rows_of st t w) \<union> set (rows_of st t l))"
    by (auto simp: image_Un image_image taken_def)
qed

text \<open>The tables of the merge, one after the other: each is changed by its own step only.\<close>

lemma merge_fold:
  fixes l w :: string and ts :: "tbl list" and st :: store
  assumes "l \<noteq> w" "distinct ts"
  defines "st' \<equiv> fold (merge_table l w) ts st"
  shows "s_projects st' = s_projects st"
    and "q \<notin> {l, w} \<or> u \<notin> set ts \<Longrightarrow> rows_of st' u q = rows_of st u q"
    and "u \<in> set ts \<Longrightarrow> rows_of st' u l = []"
    and "u \<in> set ts \<Longrightarrow> set (rows_of st u w) \<subseteq> set (rows_of st' u w) \<and>
      rw_key ` set (rows_of st' u w) = rw_key ` (set (rows_of st u w) \<union> set (rows_of st u l))"
proof -
  have "s_projects (fold (merge_table l w) ts st) = s_projects st \<and>
    (\<forall>q u. q \<notin> {l, w} \<or> u \<notin> set ts \<longrightarrow> rows_of (fold (merge_table l w) ts st) u q = rows_of st u q) \<and>
    (\<forall>u \<in> set ts. rows_of (fold (merge_table l w) ts st) u l = [] \<and>
       set (rows_of st u w) \<subseteq> set (rows_of (fold (merge_table l w) ts st) u w) \<and>
       rw_key ` set (rows_of (fold (merge_table l w) ts st) u w) = rw_key ` (set (rows_of st u w) \<union> set (rows_of st u l)))"
    using assms(2)
  proof (induction ts arbitrary: st)
    case (Cons t ts)
    note IH = Cons.IH [of "merge_table l w t st"]
    have other: "rows_of (merge_table l w t st) u q = rows_of st u q" if "q \<notin> {l, w} \<or> u \<noteq> t" for u q
      using rows_of_merge(1) [OF assms(1) that] .
    have t: "rows_of (fold (merge_table l w) ts (merge_table l w t st)) t q = rows_of (merge_table l w t st) t q" for q
      using IH Cons.prems by simp
    have "rows_of (fold (merge_table l w) (t # ts) st) u l = [] \<and>
        set (rows_of st u w) \<subseteq> set (rows_of (fold (merge_table l w) (t # ts) st) u w) \<and>
        rw_key ` set (rows_of (fold (merge_table l w) (t # ts) st) u w) = rw_key ` (set (rows_of st u w) \<union> set (rows_of st u l))"
      if u: "u \<in> set (t # ts)" for u
    proof (cases "u = t")
      case True
      then show ?thesis using t rows_of_merge(2-4) [OF assms(1), where t = t and st = st] by simp
    next
      case False
      then have o: "rows_of (merge_table l w t st) u q = rows_of st u q" for q using other by simp
      have "u \<in> set ts" "distinct ts" using u False Cons.prems by simp_all
      with IH have "rows_of (fold (merge_table l w) ts (merge_table l w t st)) u l = [] \<and>
          set (rows_of (merge_table l w t st) u w) \<subseteq> set (rows_of (fold (merge_table l w) ts (merge_table l w t st)) u w) \<and>
          rw_key ` set (rows_of (fold (merge_table l w) ts (merge_table l w t st)) u w) =
            rw_key ` (set (rows_of (merge_table l w t st) u w) \<union> set (rows_of (merge_table l w t st) u l))" by blast
      then show ?thesis unfolding o by simp
    qed
    then show ?case using IH Cons.prems other by simp
  qed simp
  then show "s_projects st' = s_projects st"
    and "q \<notin> {l, w} \<or> u \<notin> set ts \<Longrightarrow> rows_of st' u q = rows_of st u q"
    and "u \<in> set ts \<Longrightarrow> rows_of st' u l = []"
    and "u \<in> set ts \<Longrightarrow> set (rows_of st u w) \<subseteq> set (rows_of st' u w) \<and>
      rw_key ` set (rows_of st' u w) = rw_key ` (set (rows_of st u w) \<union> set (rows_of st u l))"
    by (auto simp: st'_def)
qed

text \<open>The state before the last statement of a merge.\<close>

definition merged :: "string \<Rightarrow> string \<Rightarrow> store \<Rightarrow> store" where
  "merged l w st = rekey_rows l w SlowQueries (fold (merge_table l w) merge_tables st)"

lemma merged_facts:
  assumes "l \<noteq> w"
  shows "s_projects (merged l w st) = s_projects st"
    and "q \<notin> {l, w} \<or> u \<notin> set rename_tables \<Longrightarrow> rows_of (merged l w st) u q = rows_of st u q"
    and "u \<in> set rename_tables \<Longrightarrow> rows_of (merged l w st) u l = []"
    and "u \<in> set merge_tables \<Longrightarrow> set (rows_of st u w) \<subseteq> set (rows_of (merged l w st) u w)"
    and "u \<in> set rename_tables \<Longrightarrow> rw_key ` set (rows_of (merged l w st) u w) = rw_key ` (set (rows_of st u w) \<union> set (rows_of st u l))"
proof -
  have d: "distinct merge_tables" by (simp add: merge_tables_def)
  note m = merge_fold [OF assms d, where st = st]
  have sub: "set rename_tables = insert SlowQueries (set merge_tables)" "SlowQueries \<notin> set merge_tables"
    by (auto simp: rename_tables_def merge_tables_def)
  note rk = rows_of_rekey [OF assms, where t = SlowQueries and st = "fold (merge_table l w) merge_tables st"]
  show "s_projects (merged l w st) = s_projects st" by (simp add: merged_def m(1))
  show "q \<notin> {l, w} \<or> u \<notin> set rename_tables \<Longrightarrow> rows_of (merged l w st) u q = rows_of st u q"
  proof -
    assume q: "q \<notin> {l, w} \<or> u \<notin> set rename_tables"
    then have "q \<notin> {l, w} \<or> u \<noteq> SlowQueries" "q \<notin> {l, w} \<or> u \<notin> set merge_tables" using sub(1) by blast+
    then show ?thesis unfolding merged_def by (simp only: rk(1) m(2))
  qed
  show "u \<in> set rename_tables \<Longrightarrow> rows_of (merged l w st) u l = []"
    using rk(1) [of l u] rk(2) m(3) [of u] sub by (cases "u = SlowQueries") (auto simp: merged_def)
  show "u \<in> set merge_tables \<Longrightarrow> set (rows_of st u w) \<subseteq> set (rows_of (merged l w st) u w)"
    using rk(1) [of w u] m(4) [of u] sub unfolding merged_def by (metis disjI2)
  show "u \<in> set rename_tables \<Longrightarrow> rw_key ` set (rows_of (merged l w st) u w) = rw_key ` (set (rows_of st u w) \<union> set (rows_of st u l))"
    using rk(1) [of w u] rk(3) m(4) [of u] m(2) [of _ SlowQueries] sub by (cases "u = SlowQueries") (auto simp: merged_def)
qed

lemma merge_result:
  assumes "l \<noteq> w" "GetProject st l \<noteq> None" "mergeProjectInto l w st = (e, st')"
  shows "rows_of st Closure l = [] \<Longrightarrow> e = None \<and> s_projects st' = filter (\<lambda>p. p_ID p \<noteq> l) (s_projects st) \<and>
      (\<forall>t q. rows_of st' t q = (if t = BenchRuns \<and> q = l then [] else rows_of (merged l w st) t q))"
    and "rows_of st Closure l \<noteq> [] \<Longrightarrow> e = Some ForeignKey \<and> st' = merged l w st"
proof -
  have g: "GetProject (merged l w st) l \<noteq> None"
    using assms(2) GetProject_cong [OF merged_facts(1) [OF assms(1), of st]] by metis
  have c: "rows_of (merged l w st) Closure l = rows_of st Closure l"
    by (rule merged_facts(2) [OF assms(1)]) (simp add: rename_tables_def)
  have fk: "\<forall>t \<in> set fk_tables. t \<noteq> Closure \<longrightarrow> rows_of (merged l w st) t l = []"
    using merged_facts(3) [OF assms(1)] by (simp add: fk_tables_def rename_tables_def)
  show "e = None \<and> s_projects st' = filter (\<lambda>p. p_ID p \<noteq> l) (s_projects st) \<and>
      (\<forall>t q. rows_of st' t q = (if t = BenchRuns \<and> q = l then [] else rows_of (merged l w st) t q))"
    if "rows_of st Closure l = []"
  proof -
    have all: "\<forall>t \<in> set fk_tables. rows_of (merged l w st) t l = []" using fk c that by auto
    then obtain st1 where st1: "delete_project_row l (merged l w st) = Inr st1" using delete_row_succeeds by blast
    then have e: "e = None" "st' = st1" using assms(3) by (auto simp: mergeProjectInto_def merged_def Let_def)
    show ?thesis using delete_row_ok [OF all st1] e g merged_facts(1) [OF assms(1), of st] by auto
  qed
  show "e = Some ForeignKey \<and> st' = merged l w st" if "rows_of st Closure l \<noteq> []"
  proof -
    have "list_ex (\<lambda>p. p_ID p = l) (s_projects (merged l w st))" using g by (auto simp: GetProject_None list_ex_iff)
    then have "delete_project_row l (merged l w st) = Inl ForeignKey"
      using that c by (simp add: delete_project_row_def fk_tables_def)
    then show ?thesis using assms(3) by (auto simp: mergeProjectInto_def merged_def [symmetric] Let_def)
  qed
qed

text \<open>
  Merging a duplicate keeps every key: if the duplicate has no closure rows its project row is
  deleted, afterwards the survivor has, in each of the six merged tables, exactly the keys of both,
  all its own rows among them, and no row of another project changed.
\<close>

theorem merge_keeps_keys:
  assumes "loser \<noteq> winner" "GetProject st loser \<noteq> None" "rows_of st Closure loser = []"
    and "mergeProjectInto loser winner st = (e, st')"
  shows "e = None \<and> GetProject st' loser = None \<and>
    (\<forall>t \<in> set merge_tables. rows_of st' t loser = [] \<and> set (rows_of st t winner) \<subseteq> set (rows_of st' t winner) \<and>
       rw_key ` set (rows_of st' t winner) = rw_key ` (set (rows_of st t winner) \<union> set (rows_of st t loser))) \<and>
    (\<forall>t q. q \<noteq> loser \<and> q \<noteq> winner \<longrightarrow> rows_of st' t q = rows_of st t q)"
proof -
  note r = merge_result(1) [OF assms(1,2,4,3)]
  note m = merged_facts [OF assms(1)]
  have "t \<in> set rename_tables \<and> t \<noteq> BenchRuns" if "t \<in> set merge_tables" for t
    using that by (auto simp: merge_tables_def rename_tables_def)
  then show ?thesis using r m(2) [of _ _ st] m(3-5) [of _ st] by (auto simp: GetProject_None)
qed

definition example_rows :: "tbl \<Rightarrow> row list" where
  "example_rows t = (if t = Symbols then [\<lparr>rw_pid = Some ''a'', rw_key = ''k'', rw_val = ''1''\<rparr>, \<lparr>rw_pid = Some ''b'', rw_key = ''k'', rw_val = ''2''\<rparr>,
     \<lparr>rw_pid = Some ''b'', rw_key = ''j'', rw_val = ''3''\<rparr>] else [])"

definition example_pair :: store where
  "example_pair = \<lparr>s_projects = [example_project ''a'' [], example_project ''b'' []], s_rows = example_rows\<rparr>"

theorem merge_keeps_keys_witness:
  "rw_key ` set (rows_of (snd (mergeProjectInto ''b'' ''a'' example_pair)) Symbols ''a'') = {''k'', ''j''}"
proof -
  have "GetProject example_pair ''b'' \<noteq> None" "rows_of example_pair Closure ''b'' = []"
    by (simp_all add: example_pair_def GetProject_def example_project_def rows_of_def example_rows_def)
  from merge_keeps_keys [OF _ this, of "''a''" "fst (mergeProjectInto ''b'' ''a'' example_pair)" "snd (mergeProjectInto ''b'' ''a'' example_pair)"]
  have "rw_key ` set (rows_of (snd (mergeProjectInto ''b'' ''a'' example_pair)) Symbols ''a'') =
      rw_key ` (set (rows_of example_pair Symbols ''a'') \<union> set (rows_of example_pair Symbols ''b''))"
    by (simp add: merge_tables_def)
  also have "\<dots> = {''k'', ''j''}" by (auto simp: example_pair_def rows_of_def example_rows_def)
  finally show ?thesis .
qed


definition blocked_rows :: "tbl \<Rightarrow> row list" where
  "blocked_rows t = (if t = Closure then [\<lparr>rw_pid = Some ''b'', rw_key = ''k'', rw_val = ''1''\<rparr>] else [])"


section \<open>The repair as a whole\<close>

text \<open>
  The tables the repair expects: project ids are unique and name the directory of their row, no
  closure rows, and no rows of projects that do not exist.
\<close>

definition repairable :: "(string \<Rightarrow> string) \<Rightarrow> store \<Rightarrow> bool" where
  "repairable canon st \<longleftrightarrow> distinct (map p_ID (s_projects st)) \<and>
     (\<forall>p \<in> set (s_projects st). canon (p_ID p) = canon (p_Path p)) \<and>
     (\<forall>i. rows_of st Closure i = []) \<and>
     (\<forall>t \<in> set rename_tables. \<forall>i. GetProject st i = None \<longrightarrow> rows_of st t i = [])"

lemma repairable_merge:
  assumes "repairable canon st" "l \<noteq> w" "GetProject st l \<noteq> None" "GetProject st w \<noteq> None"
  shows "\<exists>st'. mergeProjectInto l w st = (None, st') \<and> repairable canon st' \<and>
    s_projects st' = filter (\<lambda>p. p_ID p \<noteq> l) (s_projects st)"
proof -
  obtain e st' where m: "mergeProjectInto l w st = (e, st')" by (metis prod.collapse)
  have cl: "rows_of st Closure i = []" for i using assms(1) by (simp add: repairable_def)
  note r = merge_result(1) [OF assms(2,3) m cl]
  note mf = merged_facts [OF assms(2), where st = st]
  have "rows_of st' Closure i = []" for i
    using r mf(2) [of i Closure] cl by (simp add: rename_tables_def)
  moreover have "rows_of st' t i = []" if "t \<in> set rename_tables" "GetProject st' i = None" for t i
  proof (cases "i = l")
    case True
    then show ?thesis using r mf(3) [OF that(1)] by simp
  next
    case False
    then have "GetProject st i = None" using that(2) r by (auto simp: GetProject_None)
    then have "rows_of st t i = []" "i \<noteq> w" using assms(1,4) that(1) by (auto simp: repairable_def)
    then show ?thesis using r mf(2) [of i t] False by simp
  qed
  ultimately have "repairable canon st'"
    using assms(1) r by (auto simp: repairable_def distinct_map_filter)
  then show ?thesis using m r by blast
qed

lemma merge_all_ok:
  "repairable canon st \<Longrightarrow> GetProject st w \<noteq> None \<Longrightarrow> set ms \<subseteq> set (s_projects st) \<Longrightarrow> distinct (map p_ID ms) \<Longrightarrow>
   \<exists>st'. merge_all w ms st = (None, st') \<and> repairable canon st' \<and>
     s_projects st' = filter (\<lambda>p. p_ID p = w \<or> p_ID p \<notin> p_ID ` set ms) (s_projects st)"
proof (induction ms arbitrary: st)
  case (Cons m ms)
  show ?case
  proof (cases "p_ID m = w")
    case True
    then have e: "(\<lambda>p. p_ID p = w \<or> p_ID p \<notin> p_ID ` set (m # ms)) = (\<lambda>p. p_ID p = w \<or> p_ID p \<notin> p_ID ` set ms)" by auto
    show ?thesis unfolding e using True Cons.IH [OF Cons.prems(1,2)] Cons.prems(3,4) by simp
  next
    case False
    have "GetProject st (p_ID m) \<noteq> None" using Cons.prems(3) by (auto simp: GetProject_None)
    then obtain st1 where st1: "mergeProjectInto (p_ID m) w st = (None, st1)" "repairable canon st1"
      "s_projects st1 = filter (\<lambda>p. p_ID p \<noteq> p_ID m) (s_projects st)"
      using repairable_merge [OF Cons.prems(1) False _ Cons.prems(2)] by blast
    have "GetProject st1 w \<noteq> None" using Cons.prems(2) False st1(3) by (auto simp: GetProject_None)
    moreover have "p_ID x \<noteq> p_ID m" if "x \<in> set ms" for x
    proof
      assume "p_ID x = p_ID m"
      then have "p_ID m \<in> p_ID ` set ms" using that by (metis imageI)
      then show False using Cons.prems(4) by simp
    qed
    then have "set ms \<subseteq> set (s_projects st1)" using Cons.prems(3) st1(3) by auto
    ultimately obtain st' where "merge_all w ms st1 = (None, st')" "repairable canon st'"
      "s_projects st' = filter (\<lambda>p. p_ID p = w \<or> p_ID p \<notin> p_ID ` set ms) (s_projects st1)"
      using Cons.IH [OF st1(2)] Cons.prems(4) by auto
    then show ?thesis using False st1 by (auto intro!: filter_cong simp: conj_commute)
  qed
qed auto

lemma rename_rows_ok:
  assumes "old \<noteq> new" "distinct ts" "\<forall>t \<in> set ts. t \<noteq> SlowQueries \<longrightarrow> rows_of st t new = []"
  shows "\<exists>st'. rename_rows old new ts st = (None, st') \<and> s_projects st' = s_projects st \<and>
    (\<forall>t q. q \<notin> {old, new} \<or> t \<notin> set ts \<longrightarrow> rows_of st' t q = rows_of st t q) \<and> (\<forall>t \<in> set ts. rows_of st' t old = [])"
  using assms(2,3)
proof (induction ts arbitrary: st)
  case (Cons t ts)
  note rk = rows_of_rekey [OF assms(1), where t = t and st = st]
  have "\<forall>u \<in> set ts. u \<noteq> SlowQueries \<longrightarrow> rows_of (rekey_rows old new t st) u new = []"
  proof (intro ballI impI)
    fix u assume u: "u \<in> set ts" "u \<noteq> SlowQueries"
    then have "u \<noteq> t" using Cons.prems(1) by auto
    then show "rows_of (rekey_rows old new t st) u new = []" using rk(1) [of new u] Cons.prems(2) u by simp
  qed
  then obtain st' where st': "rename_rows old new ts (rekey_rows old new t st) = (None, st')"
    "s_projects st' = s_projects st"
    "\<forall>u q. q \<notin> {old, new} \<or> u \<notin> set ts \<longrightarrow> rows_of st' u q = rows_of (rekey_rows old new t st) u q"
    "\<forall>u \<in> set ts. rows_of st' u old = []"
    using Cons.IH [of "rekey_rows old new t st"] Cons.prems(1) by auto
  have "rows_of st' t old = []" using st'(3) rk(2) Cons.prems(1) by simp
  moreover have "rows_of st' u q = rows_of st u q" if "q \<notin> {old, new} \<or> u \<notin> set (t # ts)" for u q
  proof -
    have "q \<notin> {old, new} \<or> u \<noteq> t" "q \<notin> {old, new} \<or> u \<notin> set ts" using that by auto
    then show ?thesis using st'(3) rk(1) by metis
  qed
  moreover have "\<not> (t \<noteq> SlowQueries \<and> list_ex (\<lambda>r. rw_key r \<in> set (map rw_key (rows_of st t new))) (rows_of st t old))"
    using Cons.prems(2) by (auto simp: list_ex_iff)
  ultimately show ?case using st' by auto
qed auto

lemma repairable_rename:
  assumes "repairable canon st" "GetProject st w = Some p" "GetProject st c = None" "c \<noteq> w" "canon c = canon (p_Path p)"
  shows "\<exists>st'. renameProjectID w c st = (None, st') \<and> repairable canon st' \<and>
    s_projects st' = map (\<lambda>p. if p_ID p = w then p\<lparr>p_ID := c\<rparr> else p) (s_projects st)"
proof -
  let ?st = "map_project w (\<lambda>p. p\<lparr>p_ID := c\<rparr>) st"
  have rows: "rows_of ?st t q = rows_of st t q" for t q by (simp add: rows_of_def map_project_def)
  have empty: "\<forall>t \<in> set rename_tables. rows_of ?st t c = []" using assms(1,3) rows by (auto simp: repairable_def)
  have "distinct rename_tables" by (simp add: rename_tables_def)
  then obtain st' where st': "rename_rows w c rename_tables ?st = (None, st')" "s_projects st' = s_projects ?st"
    "\<forall>t q. q \<notin> {w, c} \<or> t \<notin> set rename_tables \<longrightarrow> rows_of st' t q = rows_of ?st t q"
    "\<forall>t \<in> set rename_tables. rows_of st' t w = []"
    using rename_rows_ok [of w c rename_tables ?st] assms(4) empty by auto
  have pr: "s_projects st' = map (\<lambda>p. if p_ID p = w then p\<lparr>p_ID := c\<rparr> else p) (s_projects st)"
    using st'(2) by (simp add: map_project_def)
  have ids: "map p_ID (s_projects st') = map (\<lambda>i. if i = w then c else i) (map p_ID (s_projects st))"
    by (simp add: pr)
  have "c \<notin> set (map p_ID (s_projects st))" using assms(3) by (auto simp: GetProject_None)
  then have "inj_on (\<lambda>i. if i = w then c else i) (set (map p_ID (s_projects st)))" by (auto simp: inj_on_def)
  then have "distinct (map p_ID (s_projects st'))"
    unfolding ids using assms(1) distinct_map [of "\<lambda>i. if i = w then c else i" "map p_ID (s_projects st)"] by (simp add: repairable_def)
  moreover have "canon (p_ID q) = canon (p_Path q)" if "q \<in> set (s_projects st')" for q
  proof -
    have "distinct (map p_ID (s_projects st))" using assms(1) by (simp add: repairable_def)
    moreover have "p \<in> set (s_projects st)" "p_ID p = w" using assms(2) by (auto simp: GetProject_def find_Some_iff)
    ultimately have "r = p" if "r \<in> set (s_projects st)" "p_ID r = w" for r using that by (metis eq_key_imp_eq_value map_of_eq_Some_iff distinct_map inj_onD)
    then show ?thesis using that assms(1,5) by (auto simp: pr repairable_def split: if_splits)
  qed
  moreover have "rows_of st' Closure i = []" for i
    using st'(3) rows assms(1) by (simp add: repairable_def rename_tables_def)
  moreover have "rows_of st' t i = []" if "t \<in> set rename_tables" "GetProject st' i = None" for t i
  proof (cases "i = w")
    case True
    then show ?thesis using st'(4) that(1) by simp
  next
    case False
    have "p \<in> set (s_projects st)" "p_ID p = w" using assms(2) by (auto simp: GetProject_def find_Some_iff)
    then have "p\<lparr>p_ID := c\<rparr> \<in> set (s_projects st')" unfolding pr by force
    then have "i \<noteq> c" using that(2) by (auto simp: GetProject_None)
    moreover have "GetProject st i = None" using that(2) False pr by (auto simp: GetProject_None split: if_splits)
    ultimately show ?thesis using st'(3) rows assms(1) that(1) False by (simp add: repairable_def)
  qed
  ultimately have "repairable canon st'" by (simp add: repairable_def)
  moreover have "renameProjectID w c st = (None, st')" using st'(1) assms(3) by (simp add: renameProjectID_def)
  ultimately show ?thesis using pr by blast
qed

text \<open>The winner of a group, and changes to the row of one id seen through the canonical paths.\<close>

lemma pick_winner_in: "ms \<noteq> [] \<Longrightarrow> pick_winner c ms \<in> set ms"
proof -
  have fold: "foldl (\<lambda>w m. if better m w then m else w) w ms \<in> insert w (set ms)" for w ms
  proof (induction ms arbitrary: w)
    case (Cons m ms)
    show ?case using Cons [of "if better m w then m else w"] by (cases "better m w") auto
  qed simp
  assume ne: "ms \<noteq> []"
  show ?thesis
  proof (cases "find (\<lambda>m. p_ID m = c) ms")
    case None
    then show ?thesis using fold [of "hd ms" ms] ne by (auto simp: pick_winner_def)
  next
    case (Some m)
    then have "m \<in> set ms" by (auto simp: find_Some_iff)
    then show ?thesis using Some by (simp add: pick_winner_def)
  qed
qed

lemma pick_winner_canon:
  "m \<in> set ms \<Longrightarrow> p_ID m = c \<Longrightarrow> p_ID (pick_winner c ms) = c"
proof -
  assume "m \<in> set ms" "p_ID m = c"
  then have "find (\<lambda>m. p_ID m = c) ms \<noteq> None" by (auto simp: find_None_iff)
  then obtain x where x: "find (\<lambda>m. p_ID m = c) ms = Some x" by blast
  then have "p_ID x = c" by (auto simp: find_Some_iff)
  then show ?thesis using x by (simp add: pick_winner_def)
qed

lemma filter_map_one:
  assumes "\<And>p. p \<in> set xs \<Longrightarrow> p_ID p = i \<Longrightarrow> g p = c" "\<And>p. g (f p) = g p"
  shows "filter (\<lambda>p. g p \<noteq> c) (map (\<lambda>p. if p_ID p = i then f p else p) xs) = filter (\<lambda>p. g p \<noteq> c) xs"
    and "filter (\<lambda>p. g p = c) (map (\<lambda>p. if p_ID p = i then f p else p) xs) =
      map (\<lambda>p. if p_ID p = i then f p else p) (filter (\<lambda>p. g p = c) xs)"
  using assms by (induction xs) auto

lemma repairable_recompute: "repairable canon st \<Longrightarrow> repairable canon (recomputeProjectCounts c st)"
proof -
  have "rows_of (recomputeProjectCounts c st) t q = rows_of st t q" for t q
    by (simp add: recomputeProjectCounts_def rows_of_def map_project_def)
  moreover have ids: "map p_ID (s_projects (recomputeProjectCounts c st)) = map p_ID (s_projects st)"
    by (simp add: recomputeProjectCounts_def map_project_def)
  moreover have "GetProject (recomputeProjectCounts c st) i = None \<longleftrightarrow> GetProject st i = None" for i
    unfolding GetProject_ids ids ..
  moreover have "\<exists>p \<in> set (s_projects st). p_ID q = p_ID p \<and> p_Path q = p_Path p" if "q \<in> set (s_projects (recomputeProjectCounts c st))" for q
    using that by (auto simp: recomputeProjectCounts_def map_project_def)
  ultimately show "repairable canon st \<Longrightarrow> repairable canon (recomputeProjectCounts c st)"
    unfolding repairable_def by metis
qed

lemma dedup_group_ok:
  assumes "repairable canon st" "members = filter (\<lambda>p. canon (p_Path p) = c) (s_projects st)" "members \<noteq> []" "canon c = c"
  shows "\<exists>st'. dedup_group c members st = (None, st') \<and> repairable canon st' \<and>
    filter (\<lambda>p. canon (p_Path p) \<noteq> c) (s_projects st') = filter (\<lambda>p. canon (p_Path p) \<noteq> c) (s_projects st) \<and>
    length (filter (\<lambda>p. canon (p_Path p) = c) (s_projects st')) = 1"
proof (cases "length members \<le> 1")
  case True
  then have "length members = 1" using assms(3) by (cases members) auto
  then show ?thesis using assms(1,2) by (auto simp: dedup_group_def)
next
  case False
  define w where "w = pick_winner c members"
  have w: "w \<in> set members" unfolding w_def by (rule pick_winner_in [OF assms(3)])
  have dist: "distinct (map p_ID (s_projects st))" and canon: "\<And>p. p \<in> set (s_projects st) \<Longrightarrow> canon (p_ID p) = canon (p_Path p)"
    using assms(1) by (auto simp: repairable_def)
  have same: "p = q" if "p \<in> set (s_projects st)" "q \<in> set (s_projects st)" "p_ID p = p_ID q" for p q
    using dist that by (auto simp: distinct_map inj_on_def)
  have "GetProject st (p_ID w) \<noteq> None" using w assms(2) by (auto simp: GetProject_None)
  moreover have "set members \<subseteq> set (s_projects st)" "distinct (map p_ID members)"
    using dist by (auto simp: assms(2) distinct_map_filter)
  ultimately obtain st1 where st1: "merge_all (p_ID w) members st = (None, st1)" "repairable canon st1"
    "s_projects st1 = filter (\<lambda>p. p_ID p = p_ID w \<or> p_ID p \<notin> p_ID ` set members) (s_projects st)"
    using merge_all_ok [OF assms(1)] by blast
  have "filter (\<lambda>p. canon (p_Path p) = c) (s_projects st1) = filter (\<lambda>p. p = w) (s_projects st)"
    unfolding st1(3) filter_filter using w same by (intro filter_cong) (auto simp: assms(2))
  moreover have "distinct (s_projects st)" using dist by (simp add: distinct_map)
  ultimately have one: "length (filter (\<lambda>p. canon (p_Path p) = c) (s_projects st1)) = 1"
    using w assms(2) by (simp add: distinct_length_filter)
  have rest: "filter (\<lambda>p. canon (p_Path p) \<noteq> c) (s_projects st1) = filter (\<lambda>p. canon (p_Path p) \<noteq> c) (s_projects st)"
    unfolding st1(3) filter_filter using same by (intro filter_cong) (auto simp: assms(2))
  have canon1: "\<And>p. p \<in> set (s_projects st1) \<Longrightarrow> canon (p_ID p) = canon (p_Path p)" using canon st1(3) by auto
  have "\<exists>st2. (if p_ID w \<noteq> c then renameProjectID (p_ID w) c st1 else (None, st1)) = (None, st2) \<and> repairable canon st2 \<and>
      filter (\<lambda>p. canon (p_Path p) \<noteq> c) (s_projects st2) = filter (\<lambda>p. canon (p_Path p) \<noteq> c) (s_projects st) \<and>
      length (filter (\<lambda>p. canon (p_Path p) = c) (s_projects st2)) = 1"
  proof (cases "p_ID w = c")
    case True
    then show ?thesis using one rest st1(2) by auto
  next
    case False
    have none: "GetProject st1 c = None"
    proof (rule ccontr)
      assume "GetProject st1 c \<noteq> None"
      then obtain p where "p \<in> set (s_projects st)" "p_ID p = c" using st1(3) by (auto simp: GetProject_None)
      then have "p \<in> set members" using canon assms(2,4) by auto
      then show False using pick_winner_canon [of p members c] \<open>p_ID p = c\<close> False by (simp add: w_def)
    qed
    have iw: "canon (p_Path p) = c" if "p \<in> set (s_projects st1)" "p_ID p = p_ID w" for p
      using that w assms(2) canon canon1 by fastforce
    obtain p where p: "GetProject st1 (p_ID w) = Some p"
      using w assms(2) st1(3) GetProject_None [of st1 "p_ID w"] by fastforce
    have "canon (p_Path p) = c"
    proof (rule iw)
      show "p_ID p = p_ID w" by (rule GetProject_ID [OF p])
      show "p \<in> set (s_projects st1)" using p by (auto simp: GetProject_def find_Some_iff)
    qed
    then have "canon c = canon (p_Path p)" using assms(4) by simp
    from repairable_rename [OF st1(2) p none _ this] False
    obtain st2 where st2: "renameProjectID (p_ID w) c st1 = (None, st2)" "repairable canon st2"
      "s_projects st2 = map (\<lambda>p. if p_ID p = p_ID w then p\<lparr>p_ID := c\<rparr> else p) (s_projects st1)"
      by metis
    note fm = filter_map_one [of "s_projects st1" "p_ID w" "\<lambda>p. canon (p_Path p)" c "\<lambda>p. p\<lparr>p_ID := c\<rparr>", OF iw]
    show ?thesis using st2 fm one rest False by simp
  qed
  then obtain st2 where st2: "(if p_ID w \<noteq> c then renameProjectID (p_ID w) c st1 else (None, st1)) = (None, st2)" "repairable canon st2"
    "filter (\<lambda>p. canon (p_Path p) \<noteq> c) (s_projects st2) = filter (\<lambda>p. canon (p_Path p) \<noteq> c) (s_projects st)"
    "length (filter (\<lambda>p. canon (p_Path p) = c) (s_projects st2)) = 1" by blast
  have ic: "canon (p_Path p) = c" if "p \<in> set (s_projects st2)" "p_ID p = c" for p
    using that st2(2) assms(4) by (auto simp: repairable_def)
  define f where "f p = p\<lparr>p_SymCount := int (length (rows_of st2 Symbols c)),
       p_FileCount := int (length (rows_of st2 Files c)), p_EdgeCount := int (length (rows_of st2 Edges c))\<rparr>" for p :: project
  have pr: "s_projects (recomputeProjectCounts c st2) = map (\<lambda>p. if p_ID p = c then f p else p) (s_projects st2)"
    by (simp add: recomputeProjectCounts_def map_project_def f_def)
  note fm = filter_map_one [of "s_projects st2" c "\<lambda>p. canon (p_Path p)" c f, OF ic]
  have "dedup_group c members st = (None, recomputeProjectCounts c st2)"
    using False st1(1) st2(1) by (simp add: dedup_group_def w_def [symmetric] Let_def)
  moreover have "repairable canon (recomputeProjectCounts c st2)" by (rule repairable_recompute [OF st2(2)])
  ultimately show ?thesis using st2(3,4) fm pr by (simp add: f_def)
qed

lemma filter_other: "c \<noteq> d \<Longrightarrow> filter (\<lambda>p. g p = d) (filter (\<lambda>p. g p \<noteq> c) xs) = filter (\<lambda>p. g p = d) xs"
  unfolding filter_filter by (rule filter_cong) auto

lemma dedup_groups_ok:
  "repairable canon st \<Longrightarrow> distinct cs \<Longrightarrow>
   (\<And>c. c \<in> set cs \<Longrightarrow> canon c = c \<and> filter (\<lambda>p. canon (p_Path p) = c) (s_projects st) = filter (\<lambda>p. canon (p_Path p) = c) all \<and>
     filter (\<lambda>p. canon (p_Path p) = c) all \<noteq> []) \<Longrightarrow>
   \<exists>st'. dedup_groups canon all cs st = (None, st') \<and> repairable canon st' \<and>
     (\<forall>c \<in> set cs. length (filter (\<lambda>p. canon (p_Path p) = c) (s_projects st')) = 1) \<and>
     (\<forall>d. d \<notin> set cs \<longrightarrow> filter (\<lambda>p. canon (p_Path p) = d) (s_projects st') = filter (\<lambda>p. canon (p_Path p) = d) (s_projects st))"
proof (induction cs arbitrary: st)
  case (Cons c cs)
  let ?m = "filter (\<lambda>p. canon (p_Path p) = c) all"
  have c: "?m = filter (\<lambda>p. canon (p_Path p) = c) (s_projects st)" "?m \<noteq> []" "canon c = c"
    using Cons.prems(3) [of c] by auto
  obtain st1 where st1: "dedup_group c ?m st = (None, st1)" "repairable canon st1"
    "filter (\<lambda>p. canon (p_Path p) \<noteq> c) (s_projects st1) = filter (\<lambda>p. canon (p_Path p) \<noteq> c) (s_projects st)"
    "length (filter (\<lambda>p. canon (p_Path p) = c) (s_projects st1)) = 1"
    using dedup_group_ok [OF Cons.prems(1) c] by blast
  have other: "filter (\<lambda>p. canon (p_Path p) = d) (s_projects st1) = filter (\<lambda>p. canon (p_Path p) = d) (s_projects st)" if "d \<noteq> c" for d
    using filter_other [of c d "\<lambda>p. canon (p_Path p)" "s_projects st1"] filter_other [of c d "\<lambda>p. canon (p_Path p)" "s_projects st"] st1(3) that
    by simp
  have "\<exists>st'. dedup_groups canon all cs st1 = (None, st') \<and> repairable canon st' \<and>
     (\<forall>c \<in> set cs. length (filter (\<lambda>p. canon (p_Path p) = c) (s_projects st')) = 1) \<and>
     (\<forall>d. d \<notin> set cs \<longrightarrow> filter (\<lambda>p. canon (p_Path p) = d) (s_projects st') = filter (\<lambda>p. canon (p_Path p) = d) (s_projects st1))"
  proof (rule Cons.IH [OF st1(2)])
    show "distinct cs" using Cons.prems(2) by simp
    fix d assume d: "d \<in> set cs"
    then have "d \<noteq> c" using Cons.prems(2) by auto
    then show "canon d = d \<and> filter (\<lambda>p. canon (p_Path p) = d) (s_projects st1) = filter (\<lambda>p. canon (p_Path p) = d) all \<and>
        filter (\<lambda>p. canon (p_Path p) = d) all \<noteq> []" using Cons.prems(3) [of d] d other by simp
  qed
  then obtain st' where st': "dedup_groups canon all cs st1 = (None, st')" "repairable canon st'"
    "\<And>c. c \<in> set cs \<Longrightarrow> length (filter (\<lambda>p. canon (p_Path p) = c) (s_projects st')) = 1"
    "\<And>d. d \<notin> set cs \<Longrightarrow> filter (\<lambda>p. canon (p_Path p) = d) (s_projects st') = filter (\<lambda>p. canon (p_Path p) = d) (s_projects st1)" by blast
  have "length (filter (\<lambda>p. canon (p_Path p) = c) (s_projects st')) = 1"
    using st'(4) [of c] st1(4) Cons.prems(2) by simp
  then show ?case using st1(1) st' other by auto
qed auto

lemma filter_one_distinct: "(\<And>c. length (filter (\<lambda>p. g p = c) xs) \<le> 1) \<Longrightarrow> distinct (map g xs)"
proof (induction xs)
  case (Cons x xs)
  have "length (filter (\<lambda>p. g p = c) xs) \<le> 1" for c using Cons.prems [of c] by (auto split: if_splits)
  moreover have "filter (\<lambda>p. g p = g x) xs = []" using Cons.prems [of "g x"] by simp
  ultimately show ?case using Cons.IH by (auto simp: filter_empty_conv)
qed simp



end
