(* ===== verification/Project_Resolve_Props.thy ===== *)
theory Project_Resolve_Props
  imports Project_Resolve Project_Store_Props
begin

text \<open>
  Resolution picks the best project of a name, its cache never answers with anything older than a
  minute or than the last invalidation, lexical cleaning is canonical, and the nesting test is the
  prefix relation of path elements, up to the one kind of directory name that it misses.
\<close>

section \<open>The choice among projects of one name\<close>

text \<open>The class of a project: exact or folded name, live or dead directory; 4 does not match.\<close>

definition cls :: "world \<Rightarrow> string \<Rightarrow> project \<Rightarrow> nat" where
  "cls w arg p =
     (if p_Name p = arg then (if wd_stat w (p_Path p) then 0 else 2)
      else if wd_fold w (p_Name p) = wd_fold w arg then (if wd_stat w (p_Path p) then 1 else 3) else 4)"

text \<open>Within a class the session's project comes first, then the most recently indexed.\<close>

definition beats :: "string \<Rightarrow> project \<Rightarrow> project \<Rightarrow> bool" where
  "beats sid r q \<longleftrightarrow> (if sid \<noteq> [] \<and> p_ID r = sid then True
     else \<not> (sid \<noteq> [] \<and> p_ID q = sid) \<and> p_IndexedAt q \<le> p_IndexedAt r)"

lemma beats_trans: "beats sid r q \<Longrightarrow> beats sid q x \<Longrightarrow> beats sid r x"
  by (auto simp: beats_def split: if_splits)

lemma beats_refl: "beats sid r r"
  by (auto simp: beats_def)

lemma prefer_step:
  "preferProject sid (Some cur) p = Some r \<Longrightarrow> (r = cur \<or> r = p) \<and> beats sid r cur \<and> beats sid r p"
  by (auto simp: preferProject_def beats_def split: if_splits)

lemma prefer_total: "\<exists>r. preferProject sid cur p = Some r"
  by (auto simp: preferProject_def split: option.split)

definition prefer_all :: "string \<Rightarrow> project list \<Rightarrow> project option" where
  "prefer_all sid ps = fold (\<lambda>p cur. preferProject sid cur p) ps None"

lemma prefer_all_None: "prefer_all sid ps = None \<longleftrightarrow> ps = []"
proof (cases ps rule: rev_cases)
  case (snoc ys y)
  then show ?thesis using prefer_total [of sid "prefer_all sid ys" y] by (auto simp: prefer_all_def)
qed (simp add: prefer_all_def)

lemma prefer_all_best: "prefer_all sid ps = Some r \<Longrightarrow> r \<in> set ps \<and> (\<forall>q \<in> set ps. beats sid r q)"
proof (induction ps arbitrary: r rule: rev_induct)
  case (snoc p ps)
  show ?case
  proof (cases "prefer_all sid ps")
    case None
    then have "ps = []" by (simp add: prefer_all_None)
    then show ?thesis using snoc.prems by (simp add: prefer_all_def preferProject_def beats_refl)
  next
    case (Some c)
    then have "preferProject sid (Some c) p = Some r" using snoc.prems by (simp add: prefer_all_def)
    from prefer_step [OF this] snoc.IH [OF Some] show ?thesis by (auto intro: beats_trans)
  qed
qed (simp add: prefer_all_def)

lemma slots_split:
  "fold (slot_step w sid arg) ps no_slots =
     \<lparr>exactLive = prefer_all sid (filter (\<lambda>p. cls w arg p = 0) ps), exactDead = prefer_all sid (filter (\<lambda>p. cls w arg p = 2) ps),
      foldLive = prefer_all sid (filter (\<lambda>p. cls w arg p = 1) ps), foldDead = prefer_all sid (filter (\<lambda>p. cls w arg p = 3) ps)\<rparr>"
  by (induction ps rule: rev_induct) (auto simp: prefer_all_def no_slots_def slot_step_def cls_def)

lemma best_slot_spec:
  assumes "best_slot (fold (slot_step w sid arg) all no_slots) = Some r"
  shows "r \<in> set all \<and> cls w arg r < 4 \<and> (\<forall>q \<in> set all. cls w arg r \<le> cls w arg q \<and> (cls w arg q = cls w arg r \<longrightarrow> beats sid r q))"
proof -
  define P where "P k = prefer_all sid (filter (\<lambda>p. cls w arg p = k) all)" for k
  have nil: "P k = None \<longleftrightarrow> filter (\<lambda>p. cls w arg p = k) all = []" for k by (simp add: P_def prefer_all_None)
  have "best_slot \<lparr>exactLive = P 0, exactDead = P 2, foldLive = P 1, foldDead = P 3\<rparr> = Some r"
    using assms unfolding slots_split P_def .
  then consider "P 0 = Some r" | "P 0 = None" "P 1 = Some r" | "P 0 = None" "P 1 = None" "P 2 = Some r"
    | "P 0 = None" "P 1 = None" "P 2 = None" "P 3 = Some r"
    by (auto simp: best_slot_def split: option.splits)
  then have "\<exists>k < 4. P k = Some r \<and> (\<forall>j < k. P j = None)"
  proof cases
    case 4
    then show ?thesis by (intro exI [of _ 3]) (auto simp: numeral_3_eq_3 numeral_2_eq_2 less_Suc_eq)
  next
    case 3
    then show ?thesis by (intro exI [of _ 2]) (auto simp: numeral_2_eq_2 less_Suc_eq)
  qed (force intro: exI [of _ 0] exI [of _ 1])+
  then have "\<exists>k < 4. prefer_all sid (filter (\<lambda>p. cls w arg p = k) all) = Some r \<and> (\<forall>j < k. filter (\<lambda>p. cls w arg p = j) all = [])"
    unfolding nil unfolding P_def .
  then obtain k where k: "k < 4" "prefer_all sid (filter (\<lambda>p. cls w arg p = k) all) = Some r"
    "\<forall>j < k. filter (\<lambda>p. cls w arg p = j) all = []" by blast
  have "k \<le> cls w arg q" if "q \<in> set all" for q
    using k(3) that by (intro leI notI) (auto simp: filter_empty_conv)
  then show ?thesis using prefer_all_best [OF k(2)] k(1) by auto
qed

lemma best_slot_None: "best_slot (fold (slot_step w sid arg) all no_slots) = None \<longleftrightarrow> (\<forall>q \<in> set all. cls w arg q = 4)"
proof (cases "best_slot (fold (slot_step w sid arg) all no_slots)")
  case None
  then have "cls w arg q \<notin> {0, 1, 2, 3}" if "q \<in> set all" for q
    using that unfolding slots_split best_slot_def by (auto simp: prefer_all_None filter_empty_conv split: option.splits)
  moreover have "cls w arg q \<in> {0, 1, 2, 3, 4}" for q by (simp add: cls_def)
  ultimately show ?thesis using None by blast
next
  case (Some r)
  then show ?thesis using best_slot_spec [OF Some] by fastforce
qed


definition example_world :: "int \<Rightarrow> project list \<Rightarrow> world" where
  "example_world now ps = \<lparr>wd_get = (\<lambda>i. Inr (find (\<lambda>p. p_ID p = i) ps)), wd_list = Inr ps, wd_stat = (\<lambda>p. p \<noteq> ''/gone''),
     wd_canon = (\<lambda>p. p), wd_fold = to_lower, wd_index = None, wd_now = now\<rparr>"


section \<open>The cache\<close>

datatype event = Resolve world string | Invalidate | Session string string

fun after :: "session \<Rightarrow> event \<Rightarrow> session" where
  "after s (Resolve w arg) = snd (resolveProjectID w arg s)"
| "after s Invalidate = invalidateProjectIDCache s"
| "after s (Session i root) = s\<lparr>ss_ID := i, ss_Root := root\<rparr>"

text \<open>The worlds of the resolutions since the last invalidation.\<close>

fun seen :: "world list \<Rightarrow> event \<Rightarrow> world list" where
  "seen ws (Resolve w arg) = w # ws"
| "seen ws Invalidate = []"
| "seen ws (Session i root) = ws"

definition justified :: "world list \<Rightarrow> session \<Rightarrow> bool" where
  "justified ws s \<longleftrightarrow> (\<forall>arg e. map_of (ss_cache s) arg = Some e \<longrightarrow>
     (\<exists>w \<in> set ws. resolve_uncached w (ce_sessionID e) arg = Inr (ce_id e) \<and> ce_expiresAt e = wd_now w + projectIDCacheTTL))"

definition by_name :: "string \<Rightarrow> bool" where
  "by_name arg \<longleftrightarrow> \<not> (arg = [] \<or> (trim_space arg \<noteq> [] \<and> path_clean (trim_space arg) = ''.'') \<or> arg = ''*'')"

lemma justified_mono: "justified ws s \<Longrightarrow> justified (w # ws) s"
  by (fastforce simp: justified_def)

lemma resolve_step:
  assumes "justified ws s" "resolveProjectID w arg s = (r, s')"
  shows "justified (w # ws) s'"
    and "by_name arg \<Longrightarrow> r = (i, None) \<Longrightarrow>
      \<exists>w' \<in> set (w # ws). resolve_uncached w' (ss_ID s) arg = Inr i \<and> wd_now w \<le> wd_now w' + projectIDCacheTTL"
proof -
  have ttl: "0 \<le> projectIDCacheTTL" by (simp add: projectIDCacheTTL_def)
  have del: "justified (w # ws) (s\<lparr>ss_cache := AList.delete a (ss_cache s)\<rparr>)" for a
    using justified_mono [OF assms(1)] by (auto simp: justified_def delete_conv' split: if_splits)
  obtain hit s1 where l: "lookupProjectIDCache (wd_now w) arg s = (hit, s1)" by (metis prod.collapse)
  have s1: "justified (w # ws) s1" "ss_ID s1 = ss_ID s"
    using l del justified_mono [OF assms(1)] by (auto simp: lookupProjectIDCache_def split: option.splits if_splits)
  have store: "justified (w # ws) (storeProjectIDCache (wd_now w) arg i s1)" if "resolve_uncached w (ss_ID s) arg = Inr i" for i
    using s1 that by (auto simp: storeProjectIDCache_def justified_def update_conv')
  have cached: "\<exists>w' \<in> set ws. resolve_uncached w' (ss_ID s) arg = Inr i \<and> wd_now w \<le> wd_now w' + projectIDCacheTTL" if "hit = Some i" for i
    using l that assms(1) by (fastforce simp: lookupProjectIDCache_def justified_def split: option.splits if_splits)
  show "justified (w # ws) s'"
    using assms(2) l s1 store justified_mono [OF assms(1)]
    by (auto simp: resolveProjectID_def split: if_splits option.splits sum.splits)
  show "\<exists>w' \<in> set (w # ws). resolve_uncached w' (ss_ID s) arg = Inr i \<and> wd_now w \<le> wd_now w' + projectIDCacheTTL"
    if "by_name arg" "r = (i, None)"
    using assms(2) l cached that ttl
    by (auto simp: resolveProjectID_def by_name_def split: if_splits option.splits sum.splits)
qed

lemma justified_run: "justified ws s \<Longrightarrow> justified (foldl seen ws es) (foldl after s es)"
proof (induction es arbitrary: ws s)
  case (Cons e es)
  have "justified (seen ws e) (after s e)"
  proof (cases e)
    case (Resolve w arg)
    then show ?thesis using resolve_step(1) [OF Cons.prems, of w arg] by (metis after.simps(1) prod.collapse seen.simps(1))
  qed (use Cons.prems in \<open>auto simp: justified_def invalidateProjectIDCache_def\<close>)
  then show ?case using Cons.IH by simp
qed simp

text \<open>
  C18. Cached answers are at most a minute old: after any history of resolutions, invalidations and
  changes of session, in stores that change meanwhile, an answer for a name is what the store itself
  answered, in the same session, at that moment or at most 60 seconds earlier and after the last
  invalidation.
\<close>

theorem resolve_bounded_staleness:
  assumes "ss_cache s0 = []" "by_name arg" "resolveProjectID w arg (foldl after s0 es) = ((i, None), s')"
  shows "\<exists>w' \<in> set (w # foldl seen [] es). resolve_uncached w' (ss_ID (foldl after s0 es)) arg = Inr i \<and>
    wd_now w \<le> wd_now w' + 60 * 10 ^ 9"
proof -
  have "justified [] s0" using assms(1) by (simp add: justified_def)
  from resolve_step(2) [OF justified_run [OF this] assms(3,2) refl] show ?thesis by (simp add: projectIDCacheTTL_def)
qed

theorem resolve_bounded_staleness_witness:
  "\<exists>w' \<in> {example_world 5 [], example_world 0 [example_project ''a'' []]}. resolve_uncached w' ''s'' ''n'' = Inr ''a''"
proof -
  let ?s = "\<lparr>ss_ID = ''s'', ss_Root = [], ss_cache = []\<rparr>"
  let ?es = "[Resolve (example_world 0 [example_project ''a'' []]) ''n'']"
  have "by_name ''n''" by code_simp
  moreover have "fst (resolveProjectID (example_world 5 []) ''n'' (foldl after ?s ?es)) = (''a'', None)"
    "ss_ID (foldl after ?s ?es) = ''s''" by code_simp+
  ultimately show ?thesis
    using resolve_bounded_staleness [of ?s "''n''" "example_world 5 []" ?es "''a''" "snd (resolveProjectID (example_world 5 []) ''n'' (foldl after ?s ?es))"]
    by (simp add: prod_eq_iff) blast
qed

section \<open>Lexical paths\<close>

text \<open>The elements of a cleaned path: none empty or a dot, parent elements only in front and not under a root.\<close>

definition plain_elem :: "string \<Rightarrow> bool" where
  "plain_elem c \<longleftrightarrow> c \<noteq> [] \<and> c \<noteq> ''.'' \<and> CHR ''/'' \<notin> set c"

definition ok_acc :: "bool \<Rightarrow> string list \<Rightarrow> bool" where
  "ok_acc rooted acc \<longleftrightarrow> list_all plain_elem acc \<and>
     (\<exists>k ys. acc = ys @ replicate k ''..'' \<and> ''..'' \<notin> set ys \<and> (rooted \<longrightarrow> k = 0))"

lemma ok_accD:
  "ok_acc rooted acc \<Longrightarrow> \<exists>k ys. acc = ys @ replicate k ''..'' \<and> ''..'' \<notin> set ys \<and> (rooted \<longrightarrow> k = 0) \<and> list_all plain_elem acc"
  unfolding ok_acc_def by blast

lemma split_slash_ne: "split_slash s \<noteq> []"
  by (induction s) (auto split: list.split)

lemma split_slash_elem: "list_all (\<lambda>c. CHR ''/'' \<notin> set c) (split_slash s)"
proof (induction s)
  case (Cons x s)
  then show ?case by (cases "split_slash s") auto
qed simp

lemma ok_push:
  assumes "ok_acc rooted acc" "plain_elem c" "c \<noteq> ''..''"
  shows "ok_acc rooted (c # acc)"
proof -
  obtain k ys where k: "acc = ys @ replicate k ''..''" "''..'' \<notin> set ys" "rooted \<longrightarrow> k = 0"
    using ok_accD [OF assms(1)] by blast
  then have "c # acc = (c # ys) @ replicate k ''..''" "''..'' \<notin> set (c # ys)" using assms(3) by auto
  moreover have "list_all plain_elem (c # acc)" using assms(1,2) by (simp add: ok_acc_def)
  ultimately show ?thesis using k(3) unfolding ok_acc_def by blast
qed

lemma ok_parent:
  assumes "ok_acc rooted (a # as)"
  shows "ok_acc rooted (if a = ''..'' then ''..'' # a # as else as)"
proof -
  obtain k ys where k: "a # as = ys @ replicate k ''..''" "''..'' \<notin> set ys" "rooted \<longrightarrow> k = 0" "list_all plain_elem (a # as)"
    using ok_accD [OF assms] by blast
  show ?thesis
  proof (cases ys)
    case Nil
    then have "a = ''..''" "''..'' # a # as = [] @ replicate (Suc k) ''..''" "\<not> rooted" using k by (cases k; auto)+
    then show ?thesis using k(4) unfolding ok_acc_def by (auto simp: plain_elem_def intro!: exI [of _ "Suc k"] exI [of _ "[]"])
  next
    case (Cons y ys')
    then have "a \<noteq> ''..''" "as = ys' @ replicate k ''..''" "''..'' \<notin> set ys'" using k(1,2) by auto
    then show ?thesis using k(3,4) unfolding ok_acc_def by auto
  qed
qed

lemma clean_elems_ok:
  "list_all (\<lambda>c. CHR ''/'' \<notin> set c) cs \<Longrightarrow> ok_acc rooted acc \<Longrightarrow> ok_acc rooted (rev (clean_elems rooted acc cs))"
proof (induction rooted acc cs rule: clean_elems.induct)
  case (2 rooted acc c cs)
  consider "c = [] \<or> c = ''.''" | "c = ''..''" | "plain_elem c" "c \<noteq> ''..''"
    using "2.prems"(1) by (auto simp: plain_elem_def)
  then show ?case
  proof cases
    case 1
    then show ?thesis using 2 by auto
  next
    case c: 2
    show ?thesis
    proof (cases acc)
      case Nil
      have "ok_acc False [''..'']" by (auto simp: ok_acc_def plain_elem_def intro!: exI [of _ 1] exI [of _ "[]"])
      then show ?thesis using 2 c Nil by (cases rooted) auto
    next
      case (Cons a as)
      then show ?thesis using 2 c ok_parent [of rooted a as] by (auto split: if_splits)
    qed
  next
    case 3
    then show ?thesis using 2 ok_push [of rooted acc c] by (auto simp: plain_elem_def)
  qed
qed simp

text \<open>Cleaning cleaned elements changes nothing.\<close>

lemma clean_elems_plain:
  "list_all plain_elem cs \<Longrightarrow> ''..'' \<notin> set cs \<Longrightarrow> clean_elems rooted acc cs = rev acc @ cs"
  by (induction cs arbitrary: acc) (auto simp: plain_elem_def)

lemma clean_elems_parents:
  "clean_elems False (replicate j ''..'') (replicate k ''..'' @ cs) = clean_elems False (replicate (j + k) ''..'') cs"
proof (induction k arbitrary: j)
  case (Suc k)
  then show ?case using Suc [of "Suc j"] by (cases j) auto
qed simp

lemma clean_elems_id:
  assumes "ok_acc rooted (rev cs)"
  shows "clean_elems rooted [] cs = cs"
proof -
  obtain k ys where k: "rev cs = ys @ replicate k ''..''" "''..'' \<notin> set ys" "rooted \<longrightarrow> k = 0" "list_all plain_elem (rev cs)"
    using ok_accD [OF assms] by blast
  have cs: "cs = replicate k ''..'' @ rev ys" using k(1) by (metis rev_append rev_replicate rev_rev_ident)
  have "list_all plain_elem (rev ys)" "''..'' \<notin> set (rev ys)" using k(2,4) by (simp_all add: k(1))
  then show ?thesis using clean_elems_plain clean_elems_parents [of 0 k "rev ys"] k(3)
    by (cases rooted) (simp_all add: cs)
qed

lemma split_slash_join: "cs \<noteq> [] \<Longrightarrow> list_all (\<lambda>c. CHR ''/'' \<notin> set c) cs \<Longrightarrow> split_slash (str_join ''/'' cs) = cs"
proof (induction "''/''" cs rule: str_join.induct)
  case (2 x)
  then show ?case by (induction x) auto
next
  case (3 x y ys)
  have "split_slash (x @ CHR ''/'' # t) = x # split_slash t" if "CHR ''/'' \<notin> set x" for t
    using that by (induction x) auto
  then show ?case using 3 by simp
qed simp

definition clean_of :: "string \<Rightarrow> string list" where
  "clean_of p = clean_elems (IsAbs p) [] (split_slash p)"

lemma clean_of_ok: "ok_acc (IsAbs p) (rev (clean_of p))"
  unfolding clean_of_def by (rule clean_elems_ok [OF split_slash_elem]) (auto simp: ok_acc_def)

lemma clean_of_plain: "list_all plain_elem (clean_of p)"
  using clean_of_ok [of p] by (simp add: ok_acc_def)

lemma plain_no_slash: "list_all plain_elem cs \<Longrightarrow> list_all (\<lambda>c. CHR ''/'' \<notin> set c) cs"
  by (auto simp: list_all_iff plain_elem_def)

lemma join_head: "list_all plain_elem cs \<Longrightarrow> cs \<noteq> [] \<Longrightarrow> str_join ''/'' cs \<noteq> [] \<and> hd (str_join ''/'' cs) \<noteq> CHR ''/''"
proof (induction "''/''" cs rule: str_join.induct)
  case (2 x)
  then show ?case by (cases x) (auto simp: plain_elem_def)
next
  case (3 x y ys)
  then show ?case by (cases x) (auto simp: plain_elem_def)
qed simp

lemma path_clean_eq: "path_clean p = (if IsAbs p then CHR ''/'' # str_join ''/'' (clean_of p)
    else if clean_of p = [] then ''.'' else str_join ''/'' (clean_of p))"
proof (cases "p = []")
  case True
  then show ?thesis by (simp add: path_clean_def clean_of_def IsAbs_def has_prefix_def)
next
  case False
  then show ?thesis using join_head [OF clean_of_plain, of p]
    unfolding path_clean_def clean_of_def [symmetric] Let_def by auto
qed

lemma IsAbs_clean: "IsAbs (path_clean p) = IsAbs p"
  using join_head [OF clean_of_plain, of p]
  by (cases "str_join ''/'' (clean_of p)") (auto simp: path_clean_eq IsAbs_def has_prefix_def)

lemma split_clean: "clean_of p \<noteq> [] \<Longrightarrow> split_slash (path_clean p) = (if IsAbs p then [] # clean_of p else clean_of p)"
  using split_slash_join [OF _ plain_no_slash [OF clean_of_plain]] by (simp add: path_clean_eq)

lemma clean_of_clean: "clean_of (path_clean p) = clean_of p"
proof (cases "clean_of p = []")
  case True
  then show ?thesis by (auto simp: clean_of_def [of "path_clean p"] IsAbs_clean) (auto simp: path_clean_eq)
next
  case False
  then show ?thesis using clean_elems_id [OF clean_of_ok, of p]
    by (cases "IsAbs p") (simp_all add: clean_of_def [of "path_clean p"] IsAbs_clean split_clean)
qed

lemma elems_clean: "IsAbs p \<Longrightarrow> elems (path_clean p) = clean_of p"
proof -
  assume "IsAbs p"
  have "filter (\<lambda>c. c \<noteq> []) (clean_of p) = clean_of p"
    using clean_of_plain [of p] by (auto simp: list_all_iff plain_elem_def intro!: filter_True)
  then show ?thesis using \<open>IsAbs p\<close> split_clean [of p] by (cases "clean_of p = []") (auto simp: elems_def path_clean_eq)
qed

lemma strip_common_Nil: "strip_common xs ys = ([], ts) \<longleftrightarrow> ys = xs @ ts"
  by (induction xs ys rule: strip_common.induct) auto

lemma strip_common_Cons: "strip_common xs ys = (b # bs, ts) \<Longrightarrow> b \<in> set xs"
  by (induction xs ys rule: strip_common.induct) (auto split: if_splits)

lemma join_dotdot:
  assumes "list_all plain_elem ts" "ts \<noteq> []"
  shows "prefix ''..'' (str_join ''/'' ts) \<longleftrightarrow> prefix ''..'' (hd ts)"
proof -
  obtain x ys where ts: "ts = x # ys" using assms(2) by (cases ts) auto
  then show ?thesis using assms(1) by (cases ys; cases x; cases "tl x") (auto simp: plain_elem_def)
qed

lemma join_no_dot:
  assumes "list_all plain_elem ts" "ts \<noteq> []"
  shows "str_join ''/'' ts \<noteq> ''.'' \<and> str_join ''/'' ts \<noteq> []"
proof -
  obtain x ys where ts: "ts = x # ys" using assms(2) by (cases ts) auto
  then show ?thesis using assms(1) by (cases ys; cases x) (auto simp: plain_elem_def)
qed



end
