(* ===== verification/Call_Telemetry.thy ===== *)
theory Call_Telemetry
  imports Pincher_Prelude
begin

text \<open>
  Per-call telemetry of the server (\<^verbatim>\<open>internal/server/server.go\<close>, \<^verbatim>\<open>tool_latency.go\<close>,
  \<^verbatim>\<open>eventbus.go\<close>): the bounded buffer of call events and its flush, the per-tool latency
  counters updated by concurrent calls without a lock, and the bus that fans index events out to
  subscribers.  Concurrency is interleaving: the steps are the critical sections and atomic
  operations of the code.
\<close>

section \<open>Call events\<close>

definition toolComplexityTier :: "string \<Rightarrow> string" where
  "toolComplexityTier tool =
     (if tool \<in> set [''search'', ''symbol'', ''symbols'', ''health'', ''stats'', ''schema'', ''list'', ''doctor'', ''adr'', ''loop'',
          ''index'', ''rebuild_fts'', ''init'', ''self_test'', ''assert_graph'', ''models'', ''route'', ''why_empty''] then ''lite''
      else if tool \<in> set [''context'', ''trace'', ''query'', ''changes'', ''neighborhood'', ''dead_code'', ''architecture'',
          ''branch_overlap'', ''coach'', ''fetch'', ''batch''] then ''standard''
      else if tool \<in> set [''guide'', ''context_for_task'', ''investigate_failure'', ''plan_change'', ''audit_unused'',
          ''onboard_module'', ''verify_change''] then ''heavy''
      else [])"

record 'f tool_event =
  te_SessionID :: string
  te_Tool :: string
  te_Tier :: string
  te_ResponseBytes :: int
  te_TokensUsed :: int
  te_TokensSaved :: "int option"
  te_TokensSavedPct :: "'f option"
  te_TS :: int
  te_RequestID :: string

text \<open>The event of a call; \<open>pct\<close> and \<open>rid\<close> are the typed entries of its metadata.\<close>

definition make_event :: "string \<Rightarrow> int \<Rightarrow> string \<Rightarrow> string \<Rightarrow> int \<Rightarrow> int \<Rightarrow> int \<Rightarrow> 'f option \<Rightarrow> string option \<Rightarrow> 'f tool_event" where
  "make_event sessionID now tool baselineMethod used saved bytes pct rid =
     \<lparr>te_SessionID = sessionID, te_Tool = tool, te_Tier = toolComplexityTier tool, te_ResponseBytes = bytes,
      te_TokensUsed = used,
      te_TokensSaved = (if baselineMethod \<noteq> ''none'' then Some saved else None),
      te_TokensSavedPct = (if baselineMethod \<noteq> ''none'' then pct else None),
      te_TS = now, te_RequestID = (case rid of None \<Rightarrow> [] | Some r \<Rightarrow> r)\<rparr>"

definition toolCallEventCap :: nat where "toolCallEventCap = 2048"

text \<open>
  The buffer; batches that a flush has taken out and not yet resolved; the rows of the store; and, for
  the account, the events that the warnings report as dropped.
\<close>

record 'e call_buffer =
  cb_events :: "'e list"
  cb_overflowed :: bool
  cb_taken :: "'e list list"
  cb_stored :: "'e list"
  cb_dropped :: "'e list"

definition empty_buffer :: "'e call_buffer" where
  "empty_buffer = \<lparr>cb_events = [], cb_overflowed = False, cb_taken = [], cb_stored = [], cb_dropped = []\<rparr>"

definition recordToolCallEvent :: "'e \<Rightarrow> 'e call_buffer \<Rightarrow> 'e call_buffer" where
  "recordToolCallEvent ev b =
     (if length (cb_events b) \<ge> toolCallEventCap then b\<lparr>cb_overflowed := True, cb_dropped := cb_dropped b @ [ev]\<rparr>
      else b\<lparr>cb_overflowed := (if cb_overflowed b \<and> cb_events b = [] then False else cb_overflowed b),
             cb_events := cb_events b @ [ev]\<rparr>)"

text \<open>The locked part of a flush: take everything.\<close>

definition take_batch :: "'e call_buffer \<Rightarrow> 'e call_buffer" where
  "take_batch b =
     (if cb_events b = [] then b else b\<lparr>cb_events := [], cb_taken := cb_taken b @ [cb_events b]\<rparr>)"

text \<open>\<^verbatim>\<open>Store.RecordToolCalls\<close> is one transaction: all rows or none.\<close>

datatype flush_outcome = Stored | Locked | Failed

definition requeueToolCallEvents :: "'e list \<Rightarrow> 'e list \<Rightarrow> 'e list \<times> 'e list" where
  "requeueToolCallEvents batch events =
     (if batch = [] then (events, [])
      else if toolCallEventCap \<le> length events then (events, batch)
      else let available = toolCallEventCap - length events
        in (take available batch @ events, drop available batch))"

definition resolve_batch :: "flush_outcome \<Rightarrow> 'e list \<Rightarrow> 'e call_buffer \<Rightarrow> 'e call_buffer" where
  "resolve_batch res batch b =
     (case res of
        Stored \<Rightarrow> b\<lparr>cb_stored := cb_stored b @ batch\<rparr>
      | Locked \<Rightarrow> (let (events, dropped) = requeueToolCallEvents batch (cb_events b)
                  in b\<lparr>cb_events := events, cb_dropped := cb_dropped b @ dropped\<rparr>)
      | Failed \<Rightarrow> b\<lparr>cb_dropped := cb_dropped b @ batch\<rparr>)"

text \<open>The second half of a flush resolves one of the batches that are out.\<close>

definition finish_batch :: "nat \<Rightarrow> flush_outcome \<Rightarrow> 'e call_buffer \<Rightarrow> 'e call_buffer" where
  "finish_batch i res b =
     (if i < length (cb_taken b)
      then resolve_batch res (cb_taken b ! i) (b\<lparr>cb_taken := take i (cb_taken b) @ drop (i + 1) (cb_taken b)\<rparr>)
      else b)"

text \<open>A flush that nothing interleaves with.\<close>

definition drainToolCallEvents :: "flush_outcome \<Rightarrow> 'e call_buffer \<Rightarrow> 'e call_buffer" where
  "drainToolCallEvents res b =
     (if cb_events b = [] then b else resolve_batch res (cb_events b) (b\<lparr>cb_events := []\<rparr>))"

datatype 'e buffer_op = Record 'e | Take | Finish nat flush_outcome

fun buffer_step :: "'e call_buffer \<Rightarrow> 'e buffer_op \<Rightarrow> 'e call_buffer" where
  "buffer_step b (Record e) = recordToolCallEvent e b"
| "buffer_step b Take = take_batch b"
| "buffer_step b (Finish i res) = finish_batch i res b"

section \<open>Latency counters\<close>

text \<open>
  One tool's counters, and the calls that are updating them: each adds to the count, adds to the
  total, then loops over reading the maximum and swapping it in if it is still what was read.
\<close>

record latency =
  lt_count :: int
  lt_total :: int
  lt_max :: int

datatype latency_pc = Start int | Counted int | Loop int | Read int int | Finished int

text \<open>One atomic operation of a call.\<close>

fun latency_step :: "latency \<Rightarrow> latency_pc \<Rightarrow> latency \<times> latency_pc" where
  "latency_step s (Start ms) = (s\<lparr>lt_count := lt_count s + 1\<rparr>, Counted ms)"
| "latency_step s (Counted ms) = (s\<lparr>lt_total := lt_total s + ms\<rparr>, Loop ms)"
| "latency_step s (Loop ms) = (s, if ms \<le> lt_max s then Finished ms else Read ms (lt_max s))"
| "latency_step s (Read ms cur) =
     (if lt_max s = cur then (s\<lparr>lt_max := ms\<rparr>, Finished ms) else (s, Loop ms))"
| "latency_step s (Finished ms) = (s, Finished ms)"

inductive latency_steps :: "latency \<times> latency_pc list \<Rightarrow> latency \<times> latency_pc list \<Rightarrow> bool" where
  latency_done: "latency_steps c c"
| latency_next: "latency_steps c (s, pcs) \<Longrightarrow> i < length pcs \<Longrightarrow> latency_step s (pcs ! i) = (s', pc) \<Longrightarrow>
    latency_steps c (s', pcs[i := pc])"

record latency_row =
  lr_Tool :: string
  lr_Count :: int
  lr_TotalMs :: int
  lr_MaxMs :: int

definition row_before :: "latency_row \<Rightarrow> latency_row \<Rightarrow> bool" where
  "row_before a b =
     (if lr_TotalMs a \<noteq> lr_TotalMs b then lr_TotalMs a > lr_TotalMs b
      else if lr_Count a \<noteq> lr_Count b then lr_Count a > lr_Count b
      else lr_Tool a < lr_Tool b)"

fun insert_row :: "latency_row \<Rightarrow> latency_row list \<Rightarrow> latency_row list" where
  "insert_row r [] = [r]"
| "insert_row r (x # xs) = (if row_before x r then x # insert_row r xs else r # x # xs)"

text \<open>\<open>rows\<close> is the table in whatever order it is ranged over.\<close>

definition topToolsByTotalTime :: "int \<Rightarrow> latency_row list \<Rightarrow> latency_row list" where
  "topToolsByTotalTime n rows = (if n \<le> 0 then [] else take (nat n) (foldr insert_row rows []))"

section \<open>The event bus\<close>

definition subscriber_cap :: nat where "subscriber_cap = 32"

text \<open>
  Channels by number: whether it is closed, and what it holds.  \<open>eb_subs\<close> are the subscribed ones,
  \<open>eb_unsubbed\<close> those whose unsubscribe has run.  Sending on a closed channel and closing one twice
  panic.
\<close>

record 'e event_bus =
  eb_chans :: "(bool \<times> 'e list) list"
  eb_subs :: "nat list"
  eb_unsubbed :: "nat list"

definition newEventBus :: "'e event_bus" where
  "newEventBus = \<lparr>eb_chans = [], eb_subs = [], eb_unsubbed = []\<rparr>"

definition subscribe :: "'e event_bus \<Rightarrow> nat \<times> 'e event_bus" where
  "subscribe b =
     (length (eb_chans b), b\<lparr>eb_chans := eb_chans b @ [(False, [])], eb_subs := length (eb_chans b) # eb_subs b\<rparr>)"

text \<open>\<^term>\<open>None\<close> is a panic.\<close>

definition unsubscribe :: "nat \<Rightarrow> 'e event_bus \<Rightarrow> 'e event_bus option" where
  "unsubscribe ch b =
     (if ch \<in> set (eb_unsubbed b) then Some b
      else let b1 = b\<lparr>eb_unsubbed := ch # eb_unsubbed b, eb_subs := removeAll ch (eb_subs b)\<rparr> in
        if ch < length (eb_chans b) then
          (case eb_chans b ! ch of
             (True, _) \<Rightarrow> None
           | (False, q) \<Rightarrow> Some (b1\<lparr>eb_chans := (eb_chans b)[ch := (True, q)]\<rparr>))
        else Some b1)"

definition send :: "'e \<Rightarrow> nat \<Rightarrow> (bool \<times> 'e list) list \<Rightarrow> (bool \<times> 'e list) list option" where
  "send ev ch chans =
     (case chans ! ch of
        (True, _) \<Rightarrow> None
      | (False, q) \<Rightarrow> Some (if length q < subscriber_cap then chans[ch := (False, q @ [ev])] else chans))"

fun publish_to :: "'e \<Rightarrow> nat list \<Rightarrow> (bool \<times> 'e list) list \<Rightarrow> (bool \<times> 'e list) list option" where
  "publish_to ev [] chans = Some chans"
| "publish_to ev (ch # chs) chans = Option.bind (send ev ch chans) (publish_to ev chs)"

definition publish :: "'e \<Rightarrow> 'e event_bus \<Rightarrow> 'e event_bus option" where
  "publish ev b = map_option (\<lambda>cs. b\<lparr>eb_chans := cs\<rparr>) (publish_to ev (eb_subs b) (eb_chans b))"

definition receive :: "nat \<Rightarrow> 'e event_bus \<Rightarrow> 'e option \<times> 'e event_bus" where
  "receive ch b =
     (if ch < length (eb_chans b) then
        (case eb_chans b ! ch of
           (c, []) \<Rightarrow> (None, b)
         | (c, e # q) \<Rightarrow> (Some e, b\<lparr>eb_chans := (eb_chans b)[ch := (c, q)]\<rparr>))
      else (None, b))"

datatype 'e bus_op = Subscribe | Unsubscribe nat | Publish 'e | Receive nat

fun bus_step :: "'e event_bus \<Rightarrow> 'e bus_op \<Rightarrow> 'e event_bus option" where
  "bus_step b Subscribe = Some (snd (subscribe b))"
| "bus_step b (Unsubscribe ch) = unsubscribe ch b"
| "bus_step b (Publish e) = publish e b"
| "bus_step b (Receive ch) = Some (snd (receive ch b))"

inductive bus_reachable :: "'e event_bus \<Rightarrow> bool" where
  bus_new: "bus_reachable newEventBus"
| bus_next: "bus_reachable b \<Longrightarrow> (\<And>ch. op = Unsubscribe ch \<Longrightarrow> ch < length (eb_chans b)) \<Longrightarrow> bus_step b op = Some b' \<Longrightarrow> bus_reachable b'"

end
