(* ===== verification/Call_Telemetry_Props.thy ===== *)
theory Call_Telemetry_Props
  imports Call_Telemetry
begin

text \<open>
  The telemetry loses nothing silently: every recorded call is stored, still buffered, in a flush or
  counted as dropped, in the order of the calls; concurrent updates of the latency counters add up to
  what a lock would give; and the event bus cannot panic, whatever the interleaving.
\<close>

section \<open>The buffer of call events\<close>

fun recorded :: "'e buffer_op list \<Rightarrow> 'e list" where
  "recorded [] = []"
| "recorded (Record e # ops) = e # recorded ops"
| "recorded (op # ops) = recorded ops"

text \<open>Where the events of a buffer are.\<close>

definition everywhere :: "'e call_buffer \<Rightarrow> 'e multiset" where
  "everywhere b = mset (cb_stored b) + mset (concat (cb_taken b)) + mset (cb_events b) + mset (cb_dropped b)"

definition bounded :: "'e call_buffer \<Rightarrow> bool" where
  "bounded b \<longleftrightarrow> length (cb_events b) \<le> toolCallEventCap"

lemma mset_take_drop: "mset (take n xs) + mset (drop n xs) = mset xs"
  by (metis append_take_drop_id mset_append)

lemma requeue_everything:
  "requeueToolCallEvents batch events = (evs, dropped) \<Longrightarrow> mset evs + mset dropped = mset batch + mset events \<and>
     (length events \<le> toolCallEventCap \<longrightarrow> length evs \<le> toolCallEventCap)"
  using mset_take_drop [of "toolCallEventCap - length events" batch]
  by (auto simp: requeueToolCallEvents_def Let_def split: if_splits)

lemma resolve_everywhere:
  "everywhere (resolve_batch res batch b) = everywhere b + mset batch" "bounded b \<Longrightarrow> bounded (resolve_batch res batch b)"
proof -
  obtain evs dropped where r: "requeueToolCallEvents batch (cb_events b) = (evs, dropped)" by (metis prod.collapse)
  then show "everywhere (resolve_batch res batch b) = everywhere b + mset batch"
    using requeue_everything [OF r] by (cases res) (auto simp: resolve_batch_def everywhere_def ac_simps)
  show "bounded b \<Longrightarrow> bounded (resolve_batch res batch b)"
    using r requeue_everything [OF r] by (cases res) (auto simp: resolve_batch_def bounded_def)
qed

lemma concat_remove: "i < length xss \<Longrightarrow> mset (concat (take i xss @ drop (i + 1) xss)) + mset (xss ! i) = mset (concat xss)"
proof -
  assume "i < length xss"
  then have "xss = take i xss @ xss ! i # drop (i + 1) xss" by (simp add: id_take_nth_drop)
  then have "mset (concat xss) = mset (concat (take i xss)) + mset (xss ! i) + mset (concat (drop (i + 1) xss))"
    by (metis concat.simps(2) concat_append mset_append add.assoc)
  then show ?thesis by (simp add: ac_simps)
qed

lemma buffer_step_everywhere:
  "everywhere (buffer_step b op) = everywhere b + mset (recorded [op])" "bounded b \<Longrightarrow> bounded (buffer_step b op)"
proof -
  show "everywhere (buffer_step b op) = everywhere b + mset (recorded [op])"
  proof (cases op)
    case (Finish i res)
    then show ?thesis using concat_remove [of i "cb_taken b"]
      by (simp add: finish_batch_def resolve_everywhere) (simp add: everywhere_def ac_simps)
  qed (auto simp: recordToolCallEvent_def take_batch_def everywhere_def)
  show "bounded b \<Longrightarrow> bounded (buffer_step b op)"
  proof (cases op)
    case (Finish i res)
    then show "bounded b \<Longrightarrow> bounded (buffer_step b op)"
      by (simp add: finish_batch_def) (intro impI resolve_everywhere(2), simp add: bounded_def)
  qed (auto simp: recordToolCallEvent_def take_batch_def bounded_def)
qed


section \<open>Latency counters\<close>

fun pc_ms :: "latency_pc \<Rightarrow> int" where
  "pc_ms (Start ms) = ms" | "pc_ms (Counted ms) = ms" | "pc_ms (Loop ms) = ms" | "pc_ms (Read ms _) = ms" | "pc_ms (Finished ms) = ms"

fun counted :: "latency_pc \<Rightarrow> int" where
  "counted (Start _) = 0" | "counted _ = 1"

fun totalled :: "latency_pc \<Rightarrow> int" where
  "totalled (Start _) = 0" | "totalled (Counted _) = 0" | "totalled pc = pc_ms pc"

fun is_finished :: "latency_pc \<Rightarrow> bool" where
  "is_finished (Finished _) = True" | "is_finished _ = False"

definition latency_inv :: "latency \<Rightarrow> latency \<times> latency_pc list \<Rightarrow> bool" where
  "latency_inv s0 c \<longleftrightarrow> (case c of (s, pcs) \<Rightarrow>
     lt_count s = lt_count s0 + sum_list (map counted pcs) \<and> lt_total s = lt_total s0 + sum_list (map totalled pcs) \<and>
     lt_max s0 \<le> lt_max s \<and> (lt_max s = lt_max s0 \<or> lt_max s \<in> pc_ms ` set pcs) \<and>
     (\<forall>pc \<in> set pcs. is_finished pc \<longrightarrow> pc_ms pc \<le> lt_max s) \<and> (\<forall>ms cur. Read ms cur \<in> set pcs \<longrightarrow> cur < ms))"

lemma sum_list_update_int: "i < length xs \<Longrightarrow> sum_list (map f (xs[i := x])) = sum_list (map f xs) - f (xs ! i) + (f x :: int)"
  by (induction xs arbitrary: i) (auto split: nat.split)

lemma map_update_same: "i < length xs \<Longrightarrow> f y = f (xs ! i) \<Longrightarrow> map f (xs[i := y]) = map f xs"
  by (simp add: map_update list_update_same_conv)

lemma latency_inv_step:
  assumes "latency_inv s0 (s, pcs)" "i < length pcs" "latency_step s (pcs ! i) = (s', pc)"
  shows "latency_inv s0 (s', pcs[i := pc])"
proof -
  have ms: "pc_ms pc = pc_ms (pcs ! i)"
    using assms(3) by (cases "pcs ! i") (auto split: if_splits)
  have img: "pc_ms ` set (pcs[i := pc]) = pc_ms ` set pcs"
  proof -
    have "map pc_ms (pcs[i := pc]) = map pc_ms pcs" by (rule map_update_same [OF assms(2) ms])
    then show ?thesis by (metis set_map)
  qed
  have sub: "set (pcs[i := pc]) \<subseteq> insert pc (set pcs)" by (rule set_update_subset_insert)
  have mem: "pcs ! i \<in> set pcs" using assms(2) by simp
  then have memi: "pc_ms (pcs ! i) \<in> pc_ms ` set pcs" by (rule imageI)
  have inv: "lt_count s = lt_count s0 + sum_list (map counted pcs)" "lt_total s = lt_total s0 + sum_list (map totalled pcs)"
    "lt_max s0 \<le> lt_max s" "lt_max s = lt_max s0 \<or> lt_max s \<in> pc_ms ` set pcs"
    "\<And>pc. pc \<in> set pcs \<Longrightarrow> is_finished pc \<Longrightarrow> pc_ms pc \<le> lt_max s" "\<And>ms cur. Read ms cur \<in> set pcs \<Longrightarrow> cur < ms"
    using assms(1) by (auto simp: latency_inv_def)
  have counts: "lt_count s' = lt_count s - counted (pcs ! i) + counted pc" "lt_total s' = lt_total s - totalled (pcs ! i) + totalled pc"
    using assms(3) by (cases "pcs ! i"; auto split: if_splits)+
  have mx: "lt_max s \<le> lt_max s'" "lt_max s' = lt_max s \<or> lt_max s' = pc_ms (pcs ! i)" "is_finished pc \<Longrightarrow> pc_ms pc \<le> lt_max s'"
    "\<And>ms cur. pc = Read ms cur \<Longrightarrow> cur < ms"
    using assms(3) inv(5) [OF mem] inv(6) mem by (cases "pcs ! i"; fastforce split: if_splits)+
  show ?thesis unfolding latency_inv_def
  proof (simp only: prod.case, intro conjI ballI allI impI)
    show "lt_count s' = lt_count s0 + sum_list (map counted (pcs[i := pc]))"
      "lt_total s' = lt_total s0 + sum_list (map totalled (pcs[i := pc]))"
      using counts inv(1,2) by (simp_all add: sum_list_update_int [OF assms(2)])
    show "lt_max s0 \<le> lt_max s'" using inv(3) mx(1) by simp
    show "lt_max s' = lt_max s0 \<or> lt_max s' \<in> pc_ms ` set (pcs[i := pc])" using inv(4) mx(2) memi unfolding img by metis
    fix p assume p: "p \<in> set (pcs[i := pc])" "is_finished p"
    show "pc_ms p \<le> lt_max s'"
    proof (cases "p = pc")
      case False
      then have "p \<in> set pcs" using p(1) sub by blast
      then show ?thesis using inv(5) [OF _ p(2)] mx(1) by fastforce
    qed (use mx(3) p in simp)
  next
    fix m cur assume "Read m cur \<in> set (pcs[i := pc])"
    then have "Read m cur = pc \<or> Read m cur \<in> set pcs" using sub by blast
    then show "cur < m" using inv(6) mx(4) by metis
  qed
qed

lemma latency_inv_steps: "latency_steps c c' \<Longrightarrow> latency_inv s0 c \<Longrightarrow> latency_inv s0 c'"
  by (induction rule: latency_steps.induct) (auto intro: latency_inv_step)

lemma latency_ms_steps: "latency_steps c c' \<Longrightarrow> map pc_ms (snd c') = map pc_ms (snd c)"
proof (induction rule: latency_steps.induct)
  case (latency_next c s pcs i s' pc)
  then have "pc_ms pc = pc_ms (pcs ! i)" by (cases "pcs ! i") (auto split: if_splits)
  then show ?case using latency_next map_update_same [of i pcs pc_ms pc] by simp
qed simp

text \<open>
  C23. Concurrent latency updates add up: when calls with latencies \<open>mss\<close> have all finished, in
  whatever order their atomic operations were interleaved and however often the swap of the maximum
  was retried, the count has grown by the number of calls, the total by the sum of the latencies, and
  the maximum is the largest of the old maximum and the latencies.
\<close>

theorem latency_updates_add_up:
  assumes "latency_steps (s0, map Start mss) (s, pcs)" "list_all is_finished pcs"
  shows "lt_count s = lt_count s0 + int (length mss) \<and> lt_total s = lt_total s0 + sum_list mss \<and>
    lt_max s = fold max mss (lt_max s0)"
proof -
  have "latency_inv s0 (s0, map Start mss)"
    by (auto simp: latency_inv_def comp_def)
  then have inv: "latency_inv s0 (s, pcs)" by (rule latency_inv_steps [OF assms(1)])
  have ms: "map pc_ms pcs = mss" using latency_ms_steps [OF assms(1)] by (simp add: comp_def)
  have one: "map counted pcs = map (\<lambda>_. 1) pcs" using assms(2)
    by (intro map_cong refl) (auto simp: list_all_iff elim!: is_finished.elims)
  have tot: "map totalled pcs = mss" unfolding ms [symmetric] using assms(2)
    by (intro map_cong refl) (auto simp: list_all_iff elim!: is_finished.elims)
  have len: "length pcs = length mss" using ms by (metis length_map)
  have "lt_max s = Max (insert (lt_max s0) (set mss))"
  proof (rule Max_eqI [symmetric])
    fix y assume "y \<in> insert (lt_max s0) (set mss)"
    then show "y \<le> lt_max s" using inv assms(2) ms by (auto simp: latency_inv_def list_all_iff)
  next
    show "lt_max s \<in> insert (lt_max s0) (set mss)" using inv ms by (auto simp: latency_inv_def)
  qed simp
  also have "\<dots> = fold max mss (lt_max s0)" by (metis Max.set_eq_fold list.simps(15))
  finally show ?thesis using inv one tot len by (simp add: latency_inv_def sum_list_triv)
qed

theorem latency_updates_add_up_witness:
  "latency_steps (\<lparr>lt_count = 0, lt_total = 0, lt_max = 0\<rparr>, map Start [5]) (\<lparr>lt_count = 1, lt_total = 5, lt_max = 5\<rparr>, [Finished 5]) \<and>
   fold max [5] (0 :: int) = 5"
proof -
  let ?s = "\<lambda>c t m. \<lparr>lt_count = c, lt_total = t, lt_max = m\<rparr>"
  let ?c = "(?s 0 0 0, map Start [5])"
  have "latency_steps ?c (?s 0 0 0, [Start 5])" using latency_done [of ?c] by simp
  then have "latency_steps ?c (?s 1 0 0, [Counted 5])" using latency_next [of ?c _ "[Start 5]" 0] by fastforce
  then have "latency_steps ?c (?s 1 5 0, [Loop 5])" using latency_next [of ?c _ "[Counted 5]" 0] by fastforce
  then have "latency_steps ?c (?s 1 5 0, [Read 5 0])" using latency_next [of ?c _ "[Loop 5]" 0] by fastforce
  then have st: "latency_steps ?c (?s 1 5 5, [Finished 5])" using latency_next [of ?c _ "[Read 5 0]" 0] by fastforce
  from latency_updates_add_up [OF st] st show ?thesis by simp
qed

section \<open>The order of the stored events\<close>

text \<open>Histories in which one flush ends before the next begins.\<close>

datatype 'e serial_op = Call 'e | Flush flush_outcome

fun serial_step :: "'e call_buffer \<Rightarrow> 'e serial_op \<Rightarrow> 'e call_buffer" where
  "serial_step b (Call e) = recordToolCallEvent e b"
| "serial_step b (Flush res) = drainToolCallEvents res b"

fun calls :: "'e serial_op list \<Rightarrow> 'e list" where
  "calls [] = []"
| "calls (Call e # ops) = e # calls ops"
| "calls (Flush res # ops) = calls ops"

lemma calls_snoc: "calls (ops @ [op]) = calls ops @ calls [op]"
  by (induction ops rule: calls.induct) auto

lemma requeue_empty: "requeueToolCallEvents batch [] = (take toolCallEventCap batch, drop toolCallEventCap batch)"
  by (simp add: requeueToolCallEvents_def toolCallEventCap_def)

text \<open>
  Stored calls are in order: as long as flushes do not overlap, the stored rows followed by the
  buffered events are a subsequence of the calls as they were made, whatever flush was deferred and
  put back; and after a successful flush the buffer is empty and everything that was in it is stored.
\<close>

theorem flush_keeps_order:
  "subseq (cb_stored b @ cb_events b) (calls ops) \<and>
   cb_events (drainToolCallEvents Stored b) = [] \<and>
   cb_stored (drainToolCallEvents Stored b) = cb_stored b @ cb_events b"
  if "b = foldl serial_step empty_buffer ops"
proof -
  have "subseq (cb_stored b @ cb_events b) (calls ops)" using that
  proof (induction ops arbitrary: b rule: rev_induct)
    case (snoc op ops)
    define b0 where "b0 = foldl serial_step empty_buffer ops"
    have IH: "subseq (cb_stored b0 @ cb_events b0) (calls ops)" using snoc.IH [OF b0_def] .
    have b: "b = serial_step b0 op" using snoc.prems by (simp add: b0_def)
    show ?case
    proof (cases op)
      case (Call e)
      have kept: "subseq ((cb_stored b0 @ cb_events b0) @ [e]) (calls ops @ [e])"
        using IH by (intro list_emb_append_mono) simp_all
      have dropped: "subseq (cb_stored b0 @ cb_events b0) (calls ops @ [e])"
        using IH by (simp add: subseq_order.order_trans [OF IH] subseq_rev_drop_many)
      show ?thesis using kept dropped b Call by (auto simp: calls_snoc recordToolCallEvent_def)
    next
      case (Flush res)
      have "subseq (cb_stored b @ cb_events b) (cb_stored b0 @ cb_events b0)"
        unfolding b Flush by (cases res) (auto simp: drainToolCallEvents_def resolve_batch_def requeue_empty intro: list_emb_append_mono)
      then show ?thesis using IH Flush by (simp add: calls_snoc subseq_order.order_trans)
    qed
  qed (simp add: empty_buffer_def)
  then show ?thesis by (auto simp: drainToolCallEvents_def resolve_batch_def)
qed

theorem flush_keeps_order_witness:
  "subseq [1, 2 :: nat] (calls [Call 1, Flush Locked, Call 2])"
proof -
  define b where "b = foldl serial_step empty_buffer [Call 1, Flush Locked, Call (2 :: nat)]"
  have "cb_stored b @ cb_events b = [1, 2]"
    by (simp add: b_def empty_buffer_def recordToolCallEvent_def drainToolCallEvents_def resolve_batch_def requeueToolCallEvents_def toolCallEventCap_def)
  then show ?thesis using flush_keeps_order [OF b_def] by metis
qed

section \<open>The event bus\<close>

text \<open>Subscribed channels exist, are open and distinct; closed ones have been unsubscribed; no queue exceeds the cap.\<close>

definition bus_inv :: "'e event_bus \<Rightarrow> bool" where
  "bus_inv b \<longleftrightarrow> distinct (eb_subs b) \<and>
     (\<forall>ch \<in> set (eb_subs b). ch < length (eb_chans b) \<and> \<not> fst (eb_chans b ! ch)) \<and>
     (\<forall>ch < length (eb_chans b). fst (eb_chans b ! ch) \<longrightarrow> ch \<in> set (eb_unsubbed b)) \<and>
     (\<forall>ch \<in> set (eb_unsubbed b). ch < length (eb_chans b)) \<and>
     (\<forall>c \<in> set (eb_chans b). length (snd c) \<le> subscriber_cap)"

lemma publish_to_ok:
  "\<forall>ch \<in> set chs. ch < length cs \<and> \<not> fst (cs ! ch) \<Longrightarrow> distinct chs \<Longrightarrow>
   \<exists>cs'. publish_to ev chs cs = Some cs' \<and> length cs' = length cs \<and>
     (\<forall>i < length cs. cs' ! i = (if i \<in> set chs \<and> length (snd (cs ! i)) < subscriber_cap then (fst (cs ! i), snd (cs ! i) @ [ev]) else cs ! i))"
proof (induction chs arbitrary: cs)
  case (Cons ch chs)
  obtain q where q: "cs ! ch = (False, q)" using Cons.prems(1) by (metis list.set_intros(1) prod.collapse)
  define cs1 where "cs1 = (if length q < subscriber_cap then cs[ch := (False, q @ [ev])] else cs)"
  have send: "send ev ch cs = Some cs1" by (simp add: send_def q cs1_def)
  have nth: "i < length cs \<Longrightarrow> cs1 ! i = (if i = ch \<and> length q < subscriber_cap then (False, q @ [ev]) else cs ! i)" for i
    by (simp add: cs1_def nth_list_update)
  have len: "length cs1 = length cs" by (simp add: cs1_def)
  have "\<forall>i \<in> set chs. i < length cs1 \<and> \<not> fst (cs1 ! i)" using Cons.prems nth len by auto
  then obtain cs' where "publish_to ev chs cs1 = Some cs'" "length cs' = length cs"
    "\<forall>i < length cs. cs' ! i = (if i \<in> set chs \<and> length (snd (cs1 ! i)) < subscriber_cap then (fst (cs1 ! i), snd (cs1 ! i) @ [ev]) else cs1 ! i)"
    using Cons.IH [of cs1] Cons.prems(2) len by auto
  then show ?case using send nth q Cons.prems(2) by auto
qed simp

lemma bus_inv_step:
  assumes "bus_inv b" "\<And>ch. op = Unsubscribe ch \<Longrightarrow> ch < length (eb_chans b)"
  shows "\<exists>b'. bus_step b op = Some b' \<and> bus_inv b'"
proof (cases op)
  case Subscribe
  then show ?thesis using assms(1) by (auto simp: subscribe_def bus_inv_def nth_append less_Suc_eq)
next
  case (Unsubscribe ch)
  then have l: "ch < length (eb_chans b)" using assms(2) by simp
  show ?thesis
  proof (cases "ch \<in> set (eb_unsubbed b)")
    case False
    then have "\<not> fst (eb_chans b ! ch)" using assms(1) l by (auto simp: bus_inv_def)
    then obtain q where q: "eb_chans b ! ch = (False, q)" by (metis prod.collapse)
    have "length q \<le> subscriber_cap" using assms(1) l q by (metis bus_inv_def nth_mem snd_conv)
    then show ?thesis using assms(1) Unsubscribe False l q
      by (auto simp: unsubscribe_def bus_inv_def Let_def nth_list_update distinct_removeAll dest!: set_update_subset_insert [THEN subsetD])
  qed (use assms(1) Unsubscribe in \<open>simp add: unsubscribe_def\<close>)
next
  case (Publish e)
  obtain cs' where cs': "publish_to e (eb_subs b) (eb_chans b) = Some cs'" "length cs' = length (eb_chans b)"
    "\<forall>i < length (eb_chans b). cs' ! i = (if i \<in> set (eb_subs b) \<and> length (snd (eb_chans b ! i)) < subscriber_cap
       then (fst (eb_chans b ! i), snd (eb_chans b ! i) @ [e]) else eb_chans b ! i)"
    using publish_to_ok [of "eb_subs b" "eb_chans b" e] assms(1) by (auto simp: bus_inv_def)
  have "length (snd c) \<le> subscriber_cap" if "c \<in> set cs'" for c
  proof -
    obtain i where "i < length cs'" "c = cs' ! i" using \<open>c \<in> set cs'\<close> by (metis in_set_conv_nth)
    then show ?thesis using cs' assms(1) by (auto simp: bus_inv_def)
  qed
  then show ?thesis using assms(1) cs' Publish by (auto simp: publish_def bus_inv_def)
next
  case (Receive ch)
  have "length x \<le> subscriber_cap" if "eb_chans b ! ch = (c, y # x)" "ch < length (eb_chans b)" for c y x
  proof -
    have "length (y # x) \<le> subscriber_cap" using that assms(1) unfolding bus_inv_def by (metis nth_mem snd_conv)
    then show ?thesis by simp
  qed
  then show ?thesis using assms(1) Receive
    by (auto simp: receive_def bus_inv_def nth_list_update split: list.split prod.split dest!: set_update_subset_insert [THEN subsetD])
qed

lemma bus_inv_reachable: "bus_reachable b \<Longrightarrow> bus_inv b"
proof (induction rule: bus_reachable.induct)
  case (bus_next b op b')
  then show ?case using bus_inv_step [of b op] by (metis option.inject)
qed (simp add: bus_inv_def newEventBus_def)

text \<open>
  C24. The event bus cannot panic: in every state reachable by any interleaving of subscribing,
  unsubscribing, also repeatedly, publishing and receiving, the next such operation neither sends on
  nor closes a closed channel; a published event is put into the queue of exactly the subscribed
  channels that have room, behind what is there; and no queue holds more than 32 events.
\<close>

theorem bus_never_panics:
  assumes "bus_reachable b" "\<And>ch. op = Unsubscribe ch \<Longrightarrow> ch < length (eb_chans b)"
  shows "bus_step b op \<noteq> None \<and> (\<forall>c \<in> set (eb_chans b). length (snd c) \<le> subscriber_cap) \<and>
    (\<exists>b'. publish e b = Some b' \<and> (\<forall>i < length (eb_chans b).
       snd (eb_chans b' ! i) = snd (eb_chans b ! i) @
         (if i \<in> set (eb_subs b) \<and> length (snd (eb_chans b ! i)) < subscriber_cap then [e] else [])))"
proof -
  have inv: "bus_inv b" by (rule bus_inv_reachable [OF assms(1)])
  then have "\<exists>cs'. publish_to e (eb_subs b) (eb_chans b) = Some cs' \<and> (\<forall>i < length (eb_chans b).
      snd (cs' ! i) = snd (eb_chans b ! i) @ (if i \<in> set (eb_subs b) \<and> length (snd (eb_chans b ! i)) < subscriber_cap then [e] else []))"
    using publish_to_ok [of "eb_subs b" "eb_chans b" e] by (fastforce simp: bus_inv_def)
  then have pub: "\<exists>b'. publish e b = Some b' \<and> (\<forall>i < length (eb_chans b). snd (eb_chans b' ! i) = snd (eb_chans b ! i) @
      (if i \<in> set (eb_subs b) \<and> length (snd (eb_chans b ! i)) < subscriber_cap then [e] else []))"
    by (auto simp: publish_def)
  have "\<exists>b'. bus_step b op = Some b' \<and> bus_inv b'" by (rule bus_inv_step [OF inv]) (rule assms(2))
  then show ?thesis using pub inv unfolding bus_inv_def by blast
qed

theorem bus_never_panics_witness:
  "bus_step (snd (subscribe newEventBus)) (Publish (7 :: nat)) \<noteq> None"
proof -
  have "bus_reachable (snd (subscribe (newEventBus :: nat event_bus)))"
    by (rule bus_next [OF bus_new, of Subscribe]) simp_all
  from bus_never_panics [OF this, of "Publish 7"] show ?thesis by simp
qed

end
