(* ===== verification/Graph_Store.thy ===== *)
theory Graph_Store
  imports Project_Resolve Complex_Main
begin

text \<open>
  The symbol graph in the store (\<^verbatim>\<open>internal/db/db.go\<close>): symbols, edges and struct fields by project,
  the lookups the resolve passes use, and the statements that write edges.  Tables are lists in row
  order; a symbol is unique by project and id, an edge by project, both ends and kind.  Columns that no
  modelled code reads are left out.
\<close>

section \<open>Rows\<close>

record sym =
  sy_ID :: string
  sy_ProjectID :: string
  sy_FilePath :: string
  sy_Name :: string
  sy_QN :: string
  sy_Kind :: string
  sy_Language :: string
  sy_StartByte :: int
  sy_EndByte :: int
  sy_Signature :: string
  sy_Confidence :: rat

record edge =
  ed_ProjectID :: string
  ed_FromID :: string
  ed_ToID :: string
  ed_Kind :: string
  ed_Confidence :: rat
  ed_Source :: string
  ed_Branch :: string

record struct_field =
  sf_ProjectID :: string
  sf_StructID :: string
  sf_FieldName :: string
  sf_FieldType :: string

text \<open>An edge that an extractor deferred: its target is still a name.\<close>

record pending =
  pe_FromQN :: string
  pe_ToName :: string
  pe_Kind :: string
  pe_FromFile :: string
  pe_Confidence :: rat
  pe_ReceiverType :: string
  pe_BaseType :: string

record graph =
  gr_symbols :: "sym list"
  gr_edges :: "edge list"
  gr_fields :: "struct_field list"
  gr_pending :: "(string \<times> pending) list"

definition MakeSymbolID :: "string \<Rightarrow> string \<Rightarrow> string \<Rightarrow> string" where
  "MakeSymbolID filePath qualifiedName kind = filePath @ ''::'' @ qualifiedName @ ''#'' @ kind"

section \<open>Lookups\<close>

definition syms_of :: "graph \<Rightarrow> string \<Rightarrow> sym list" where
  "syms_of g pid = filter (\<lambda>s. sy_ProjectID s = pid) (gr_symbols g)"

definition GetSymbolsByQN :: "graph \<Rightarrow> string \<Rightarrow> string \<Rightarrow> sym list" where
  "GetSymbolsByQN g pid qn = filter (\<lambda>s. sy_QN s = qn) (syms_of g pid)"

definition GetSymbolsByName :: "graph \<Rightarrow> string \<Rightarrow> string \<Rightarrow> nat \<Rightarrow> sym list" where
  "GetSymbolsByName g pid name limit = sort_key sy_ID (take limit (filter (\<lambda>s. sy_Name s = name) (syms_of g pid)))"

definition GetSymbolsForFile :: "graph \<Rightarrow> string \<Rightarrow> string \<Rightarrow> sym list" where
  "GetSymbolsForFile g pid path = sort_key sy_StartByte (filter (\<lambda>s. sy_FilePath s = path) (syms_of g pid))"

definition ListSymbolsForProject :: "graph \<Rightarrow> string \<Rightarrow> sym list" where
  "ListSymbolsForProject g pid = sort_key sy_ID (syms_of g pid)"

text \<open>The rows of the preloaded map.\<close>

definition LoadAllSymbolsByQN :: "graph \<Rightarrow> string \<Rightarrow> sym list" where
  "LoadAllSymbolsByQN g pid = sort_key (\<lambda>s. (sy_QN s, sy_ID s)) (syms_of g pid)"

definition LoadStructFields :: "graph \<Rightarrow> string \<Rightarrow> struct_field list" where
  "LoadStructFields g pid = filter (\<lambda>f. sf_ProjectID f = pid) (gr_fields g)"

definition LoadPendingEdges :: "graph \<Rightarrow> string \<Rightarrow> string \<Rightarrow> pending list" where
  "LoadPendingEdges g pid kind =
     map snd (filter (\<lambda>(p, e). p = pid \<and> pe_Kind e = kind) (gr_pending g))"

definition LoadPendingEdgesByKindAndFiles :: "graph \<Rightarrow> string \<Rightarrow> string \<Rightarrow> string list \<Rightarrow> pending list" where
  "LoadPendingEdgesByKindAndFiles g pid kind files =
     filter (\<lambda>e. pe_FromFile e \<in> set files) (LoadPendingEdges g pid kind)"

section \<open>Writes\<close>

text \<open>\<^verbatim>\<open>INSERT OR REPLACE\<close>: the row moves to the end; a zero confidence is stored as 1.\<close>

definition upsert_symbol :: "sym \<Rightarrow> graph \<Rightarrow> graph" where
  "upsert_symbol s g =
     g\<lparr>gr_symbols := filter (\<lambda>r. \<not> (sy_ProjectID r = sy_ProjectID s \<and> sy_ID r = sy_ID s)) (gr_symbols g) @
        [s\<lparr>sy_Confidence := (if sy_Confidence s = 0 then 1 else sy_Confidence s)\<rparr>]\<rparr>"

definition BulkUpsertSymbols :: "sym list \<Rightarrow> graph \<Rightarrow> graph" where
  "BulkUpsertSymbols syms g = fold upsert_symbol syms g"

definition same_edge :: "edge \<Rightarrow> edge \<Rightarrow> bool" where
  "same_edge a b \<longleftrightarrow> ed_ProjectID a = ed_ProjectID b \<and> ed_FromID a = ed_FromID b \<and> ed_ToID a = ed_ToID b \<and> ed_Kind a = ed_Kind b"

text \<open>\<^verbatim>\<open>INSERT OR IGNORE\<close>: an edge with the same ends and kind stays as it is.\<close>

definition insert_edge :: "edge \<Rightarrow> edge list \<Rightarrow> edge list" where
  "insert_edge e es =
     (if list_ex (same_edge e) es then es
      else es @ [e\<lparr>ed_Source := (if ed_Source e = [] then ''per_file'' else ed_Source e)\<rparr>])"

definition insertEdgesTx :: "edge list \<Rightarrow> graph \<Rightarrow> graph" where
  "insertEdgesTx es g = g\<lparr>gr_edges := fold insert_edge es (gr_edges g)\<rparr>"

text \<open>Whether the source of an edge lies in one of the files, by the symbols table.\<close>

definition from_in_files :: "graph \<Rightarrow> string \<Rightarrow> string list \<Rightarrow> edge \<Rightarrow> bool" where
  "from_in_files g pid files e \<longleftrightarrow> list_ex (\<lambda>s. sy_ID s = ed_FromID e \<and> sy_FilePath s \<in> set files) (syms_of g pid)"

definition DeleteEdgesByKindAndSourceForSourceFiles :: "string \<Rightarrow> string \<Rightarrow> string \<Rightarrow> string list \<Rightarrow> graph \<Rightarrow> graph" where
  "DeleteEdgesByKindAndSourceForSourceFiles pid kind source files g =
     (if files = [] then g
      else g\<lparr>gr_edges := filter (\<lambda>e. \<not> (ed_ProjectID e = pid \<and> ed_Kind e = kind \<and> ed_Source e = source \<and> from_in_files g pid files e))
        (gr_edges g)\<rparr>)"

definition DeleteResolvePassEdgesByKindForSourceFiles :: "string \<Rightarrow> string \<Rightarrow> string list \<Rightarrow> graph \<Rightarrow> graph" where
  "DeleteResolvePassEdgesByKindForSourceFiles pid kind files g =
     DeleteEdgesByKindAndSourceForSourceFiles pid kind ''resolve_pass'' files g"

definition ReplaceEdgesByKindSource :: "string \<Rightarrow> string \<Rightarrow> string \<Rightarrow> string list \<Rightarrow> edge list \<Rightarrow> graph \<Rightarrow> graph" where
  "ReplaceEdgesByKindSource pid kind source scopeFiles es g =
     insertEdgesTx es
       (if scopeFiles \<noteq> [] then DeleteEdgesByKindAndSourceForSourceFiles pid kind source scopeFiles g
        else g\<lparr>gr_edges := filter (\<lambda>e. \<not> (ed_ProjectID e = pid \<and> ed_Kind e = kind \<and> ed_Source e = source)) (gr_edges g)\<rparr>)"

text \<open>The files with an edge into a file, each once, in the order of the edges.\<close>

definition FilesWithEdgesToFile :: "graph \<Rightarrow> string \<Rightarrow> string \<Rightarrow> string list" where
  "FilesWithEdgesToFile g pid target =
     remdups (concat (map (\<lambda>e.
       concat (map (\<lambda>f. if sy_FilePath f \<noteq> target \<and>
            list_ex (\<lambda>t. sy_ID t = ed_ToID e \<and> sy_FilePath t = target) (syms_of g pid) then [sy_FilePath f] else [])
         (filter (\<lambda>f. sy_ID f = ed_FromID e) (syms_of g pid))))
       (filter (\<lambda>e. ed_ProjectID e = pid) (gr_edges g))))"

end
