(* ===== verification/Edge_Lookup.thy ===== *)
theory Edge_Lookup
  imports Graph_Store
begin

text \<open>
  What the resolve passes of the indexer (\<^verbatim>\<open>internal/index/indexer.go\<close>) use to choose a target: file
  and kind filters, build-tag siblings, the canonical pick, Python import candidates
  (\<^verbatim>\<open>internal/ast/python_resolve.go\<close>) and synthesized modules.  Paths have forward slashes, as they are
  stored; \<open>lang_of\<close> is the registry of extractors (\<^verbatim>\<open>ast.DetectLanguage\<close>).
\<close>

section \<open>Strings and paths\<close>

fun split_byte :: "char \<Rightarrow> string \<Rightarrow> string list" where
  "split_byte c [] = [[]]"
| "split_byte c (x # xs) =
     (if x = c then [] # split_byte c xs
      else case split_byte c xs of [] \<Rightarrow> [[x]] | p # ps \<Rightarrow> (x # p) # ps)"

text \<open>Before and after the last occurrence.\<close>

definition cut_last :: "char \<Rightarrow> string \<Rightarrow> (string \<times> string) option" where
  "cut_last c s = map_option (\<lambda>(a, b). (rev b, rev a)) (cut_byte c (rev s))"

definition has_dot :: "string \<Rightarrow> bool" where "has_dot s \<longleftrightarrow> CHR ''.'' \<in> set s"

text \<open>\<^verbatim>\<open>filepath.Dir\<close> and \<^verbatim>\<open>filepath.Base\<close>.\<close>

definition file_dir :: "string \<Rightarrow> string" where
  "file_dir p = path_clean (case cut_last CHR ''/'' p of None \<Rightarrow> [] | Some (a, _) \<Rightarrow> a @ ''/'')"

definition file_base :: "string \<Rightarrow> string" where
  "file_base p =
     (if p = [] then ''.''
      else let q = rev (dropWhile (\<lambda>c. c = CHR ''/'') (rev p)) in
        if q = [] then ''/'' else case cut_last CHR ''/'' q of None \<Rightarrow> q | Some (_, b) \<Rightarrow> b)"

definition isPythonFile :: "string \<Rightarrow> bool" where
  "isPythonFile path \<longleftrightarrow> has_suffix path ''.py'' \<or> has_suffix path ''.pyw''"

definition isJSorTSFile :: "string \<Rightarrow> bool" where
  "isJSorTSFile path \<longleftrightarrow> list_ex (has_suffix path) [''.ts'', ''.tsx'', ''.js'', ''.jsx'', ''.mjs'', ''.cjs'']"

section \<open>Filters\<close>

definition isFixturePath :: "string \<Rightarrow> bool" where
  "isFixturePath filePath \<longleftrightarrow>
     (let low = to_lower (replace_byte backslash ''/'' filePath) in
      list_ex (contains low) [''/testdata/'', ''/test-fixtures/'', ''/test_fixtures/'', ''/__fixtures__/'', ''/fixtures/''] \<or>
      list_ex (has_prefix low) [''testdata/'', ''test-fixtures/'', ''test_fixtures/'', ''__fixtures__/'', ''fixtures/''])"

definition preferNonFixtureSyms :: "sym list \<Rightarrow> sym list" where
  "preferNonFixtureSyms syms =
     (let out = filter (\<lambda>s. \<not> isFixturePath (sy_FilePath s)) syms in if out = [] then syms else out)"

definition excludeMethodSyms :: "sym list \<Rightarrow> sym list" where
  "excludeMethodSyms syms = filter (\<lambda>s. sy_Kind s \<noteq> ''Method'') syms"

definition isNonCodeKind :: "string \<Rightarrow> bool" where
  "isNonCodeKind kind \<longleftrightarrow> kind \<in> set [''Setting'', ''Section'', ''Document'', ''Resource'',
     ''Output'', ''Local'', ''Provider'', ''Block'', ''DataSource'']"

definition excludeNonCodeSyms :: "sym list \<Rightarrow> sym list" where
  "excludeNonCodeSyms syms = filter (\<lambda>s. \<not> isNonCodeKind (sy_Kind s)) syms"

definition isStdlibReceiver :: "string \<Rightarrow> bool" where
  "isStdlibReceiver name \<longleftrightarrow> name \<in> set
     [''strings'', ''bytes'', ''time'', ''os'', ''fmt'', ''io'', ''ioutil'',
      ''errors'', ''context'', ''sync'', ''atomic'', ''filepath'', ''path'',
      ''exec'', ''url'', ''http'', ''regexp'', ''sort'', ''strconv'', ''math'',
      ''rand'', ''log'', ''slog'', ''ast'', ''token'', ''reflect'', ''runtime'',
      ''unsafe'', ''unicode'', ''utf8'', ''utf16'', ''binary'', ''hex'',
      ''base64'', ''csv'', ''xml'', ''html'', ''template'', ''tls'', ''syscall'',
      ''encoding'', ''hash'', ''crypto'', ''sha256'', ''sha1'', ''md5'', ''rsa'',
      ''tar'', ''zip'', ''gzip'', ''flate'', ''bufio'', ''bits'', ''big'',
      ''cmplx'', ''list'', ''ring'', ''heap'', ''container'', ''image'',
      ''color'', ''draw'', ''jpeg'', ''png'', ''gif'', ''mime'', ''multipart'',
      ''smtp'', ''mail'', ''net'', ''tcp'', ''udp'', ''ip'', ''rpc'', ''jsonrpc'',
      ''signal'', ''user'', ''build'', ''cgo'', ''format'', ''parser'',
      ''printer'', ''scanner'', ''types'', ''constant'', ''doc'', ''importer'',
      ''plugin'', ''tabwriter'', ''text'', ''elliptic'', ''ecdsa'', ''ed25519'',
      ''x509'', ''pem'', ''subtle'', ''sql'', ''driver'', ''expvar'', ''trace'',
      ''pprof'']"

text \<open>The Go entry of \<^verbatim>\<open>polymorphicMethodNamesByLanguage\<close>, the one the resolvers read.\<close>

definition isPolymorphicInterfaceMethodName :: "string \<Rightarrow> bool" where
  "isPolymorphicInterfaceMethodName name \<longleftrightarrow> name \<in> set
     [''String'', ''Error'', ''GoString'',
      ''Read'', ''Write'', ''Close'', ''Seek'', ''ReadAt'', ''WriteAt'', ''ReadFrom'', ''WriteTo'',
      ''ReadByte'', ''WriteByte'', ''ReadString'', ''WriteString'', ''ReadRune'', ''WriteRune'',
      ''UnreadByte'', ''UnreadRune'',
      ''Lock'', ''Unlock'', ''RLock'', ''RUnlock'', ''TryLock'',
      ''Len'', ''Less'', ''Swap'', ''ServeHTTP'',
      ''MarshalJSON'', ''UnmarshalJSON'', ''MarshalText'', ''UnmarshalText'',
      ''MarshalBinary'', ''UnmarshalBinary'', ''MarshalYAML'', ''UnmarshalYAML'',
      ''Format'', ''Scan'', ''Now'', ''Add'', ''Sub'', ''Before'', ''After'', ''Equal'',
      ''Deadline'', ''Done'', ''Err'', ''Value'', ''Is'', ''As'', ''Unwrap'', ''Stats'', ''Run'']"

section \<open>Build-tag siblings\<close>

definition splitFile :: "string \<Rightarrow> string \<times> string" where
  "splitFile p =
     (let base = rev (takeWhile (\<lambda>c. c \<noteq> CHR ''/'' \<and> c \<noteq> backslash) (rev p)) in
      if length base = length p then ([], p) else (take (length p - length base - 1) p, base))"

definition platform_suffixes :: "string list" where
  "platform_suffixes =
     [''_aix'', ''_android'', ''_darwin'', ''_dragonfly'', ''_freebsd'', ''_hurd'',
      ''_illumos'', ''_ios'', ''_js'', ''_linux'', ''_nacl'', ''_netbsd'', ''_openbsd'',
      ''_plan9'', ''_solaris'', ''_unix'', ''_wasip1'', ''_windows'', ''_zos'',
      ''_386'', ''_amd64'', ''_amd64p32'', ''_arm'', ''_arm64'', ''_armbe'', ''_arm64be'',
      ''_loong64'', ''_mips'', ''_mips64'', ''_mips64le'', ''_mips64p32'', ''_mips64p32le'',
      ''_mipsle'', ''_ppc'', ''_ppc64'', ''_ppc64le'', ''_riscv'', ''_riscv64'',
      ''_s390'', ''_s390x'', ''_sparc'', ''_sparc64'', ''_wasm'']"

definition stripPlatformSuffix :: "string \<Rightarrow> string" where
  "stripPlatformSuffix name =
     (if \<not> has_suffix name ''.go'' then []
      else let stem = trim_suffix name ''.go'' in
        case find (has_suffix stem) platform_suffixes of None \<Rightarrow> [] | Some s \<Rightarrow> trim_suffix stem s)"

definition isBuildTagSibling :: "string \<Rightarrow> string \<Rightarrow> bool" where
  "isBuildTagSibling a b \<longleftrightarrow>
     (if a = [] \<or> b = [] \<or> a = b then False
      else let (aDir, aFile) = splitFile a; (bDir, bFile) = splitFile b in
        if aDir \<noteq> bDir then False
        else stripPlatformSuffix aFile \<noteq> [] \<and> stripPlatformSuffix aFile = stripPlatformSuffix bFile)"

definition fileOfID :: "sym list \<Rightarrow> string \<Rightarrow> string" where
  "fileOfID syms i = (case find (\<lambda>s. sy_ID s = i) syms of None \<Rightarrow> [] | Some s \<Rightarrow> sy_FilePath s)"

section \<open>Picks\<close>

text \<open>The least id; of no symbols, the empty string.\<close>

definition pickCanonical :: "sym list \<Rightarrow> string" where
  "pickCanonical syms =
     (case syms of [] \<Rightarrow> [] | s # ss \<Rightarrow> foldl (\<lambda>c s. if sy_ID s < c then sy_ID s else c) (sy_ID s) ss)"

definition siblingsForCanonical :: "sym list \<Rightarrow> string \<Rightarrow> string list" where
  "siblingsForCanonical syms canonical =
     map sy_ID (filter (\<lambda>s. sy_ID s \<noteq> canonical \<and> isBuildTagSibling (sy_FilePath s) (fileOfID syms canonical)) syms)"

text \<open>The one method of the name, if there is exactly one.\<close>

definition resolveMethodByName :: "graph \<Rightarrow> string \<Rightarrow> string \<Rightarrow> string" where
  "resolveMethodByName g pid name =
     (case filter (\<lambda>s. sy_Kind s = ''Method'') (preferNonFixtureSyms (GetSymbolsByName g pid name 16)) of
        [s] \<Rightarrow> sy_ID s
      | _ \<Rightarrow> [])"

section \<open>Python imports\<close>

text \<open>A leading-dot import against the importing file; \<^term>\<open>None\<close> when it escapes the root.\<close>

definition resolveRelativeImport :: "string \<Rightarrow> string \<Rightarrow> string option" where
  "resolveRelativeImport toName fromFile =
     (let level = length (takeWhile (\<lambda>c. c = CHR ''.'') toName);
          rest = drop level toName;
          dir = (if file_dir fromFile = ''.'' then [] else file_dir fromFile);
          parts = (if dir = [] then [] else split_byte CHR ''/'' dir);
          pops = level - 1
      in if pops > length parts then None
         else let dotted = str_join ''.'' (take (length parts - pops) parts) in
           if dotted = [] \<and> rest = [] then None
           else if dotted = [] then Some rest
           else if rest = [] then Some dotted
           else Some (dotted @ ''.'' @ rest))"

definition PythonImportCandidates :: "string \<Rightarrow> string \<Rightarrow> string list \<Rightarrow> string list" where
  "PythonImportCandidates toName fromFile sourceRoots =
     (if toName = [] then []
      else if has_prefix toName ''.'' then (case resolveRelativeImport toName fromFile of None \<Rightarrow> [] | Some c \<Rightarrow> [c])
      else toName # map (\<lambda>root. replace_byte CHR ''/'' ''.'' root @ ''.'' @ toName) (filter (\<lambda>r. r \<noteq> []) sourceRoots))"

section \<open>Synthesized modules\<close>

definition sanitizeExternalPath :: "string \<Rightarrow> string" where
  "sanitizeExternalPath s =
     (if s = [] then ''unknown''
      else map (\<lambda>c. if c \<in> set (''<>:|?*'' @ [dquote, CHR 0x00]) then CHR ''_'' else c) s)"

text \<open>After the last slash or backslash, unless nothing follows it.\<close>

definition display_name :: "string \<Rightarrow> string" where
  "display_name name =
     (let base = rev (takeWhile (\<lambda>c. c \<noteq> CHR ''/'' \<and> c \<noteq> backslash) (rev name)) in if base = [] then name else base)"

definition externalModuleSymbol :: "string \<Rightarrow> string \<Rightarrow> sym" where
  "externalModuleSymbol pid toName =
     (let filePath = ''@external/'' @ sanitizeExternalPath toName in
      \<lparr>sy_ID = MakeSymbolID filePath toName ''Module'', sy_ProjectID = pid, sy_FilePath = filePath,
       sy_Name = display_name toName, sy_QN = toName, sy_Kind = ''Module'', sy_Language = ''External'',
       sy_StartByte = 0, sy_EndByte = 0, sy_Signature = [], sy_Confidence = 1\<rparr>)"

definition syntheticFileModuleSymbol :: "(string \<Rightarrow> string) \<Rightarrow> string \<Rightarrow> string \<Rightarrow> string \<Rightarrow> sym" where
  "syntheticFileModuleSymbol lang_of pid filePath qnHint =
     (let b = file_base filePath;
          qn = (if qnHint \<noteq> [] then qnHint
                else case cut_last CHR ''.'' b of Some (a, _) \<Rightarrow> if a \<noteq> [] then a else b | None \<Rightarrow> b)
      in \<lparr>sy_ID = MakeSymbolID filePath qn ''Module'', sy_ProjectID = pid, sy_FilePath = filePath,
          sy_Name = qn, sy_QN = qn, sy_Kind = ''Module'', sy_Language = lang_of filePath,
          sy_StartByte = 0, sy_EndByte = 0, sy_Signature = [], sy_Confidence = 1/2\<rparr>)"

definition isAnsibleVarDeclFile :: "string \<Rightarrow> bool" where
  "isAnsibleVarDeclFile relPath \<longleftrightarrow>
     (let cl = replace_byte backslash ''/'' relPath in
      (has_suffix cl ''.yml'' \<or> has_suffix cl ''.yaml'') \<and>
      (has_prefix cl ''group_vars/'' \<or> contains cl ''/group_vars/'' \<or>
       has_prefix cl ''host_vars/'' \<or> contains cl ''/host_vars/'' \<or>
       has_prefix cl ''vars/'' \<or> contains cl ''/vars/'' \<or>
       contains cl ''/defaults/''))"

end
