(* ===== verification/Edge_Resolve.thy ===== *)
theory Edge_Resolve
  imports Edge_Lookup
begin

text \<open>
  The resolve passes that bind deferred edges to symbols (\<^verbatim>\<open>internal/index/indexer.go\<close>):
  \<open>resolveImports\<close>, \<open>resolveUsesVar\<close>, \<open>resolveReferences\<close> and \<open>resolveFilePathEdges\<close>.  A pass reads
  the graph, builds its edges, stores the modules it had to synthesize, then replaces the edges of its
  kind.  The tables do not change while edges are built, so the caches of the code, which hold answers
  already computed, are left out; a lookup that fails counts as one without an answer.  The edges
  already built stand for the set of seen pairs.
\<close>

section \<open>Shared steps\<close>

text \<open>What fails: storing modules, replacing edges, a scoped delete, and loading struct fields, all symbols or deferred edges.\<close>

record pass_faults =
  pf_upsert :: bool
  pf_replace :: "string \<Rightarrow> string \<Rightarrow> bool"
  pf_delete :: bool
  pf_fields :: bool
  pf_symbols :: bool
  pf_load :: "string \<Rightarrow> bool"

text \<open>\<^verbatim>\<open>lookupSyms\<close>: the preloaded map, here its rows, if there is one, else a query.\<close>

definition lookup_syms :: "graph \<Rightarrow> string \<Rightarrow> sym list option \<Rightarrow> string \<Rightarrow> sym list" where
  "lookup_syms g pid qnMap qn = (case qnMap of Some m \<Rightarrow> filter (\<lambda>s. sy_QN s = qn) m | None \<Rightarrow> GetSymbolsByQN g pid qn)"

definition seen_pair :: "edge list \<Rightarrow> string \<Rightarrow> string \<Rightarrow> bool" where
  "seen_pair es a b \<longleftrightarrow> list_ex (\<lambda>e. ed_FromID e = a \<and> ed_ToID e = b) es"

definition pass_edge :: "string \<Rightarrow> string \<Rightarrow> string \<Rightarrow> pending \<Rightarrow> string \<Rightarrow> string \<Rightarrow> edge" where
  "pass_edge pid kind branch e a b =
     \<lparr>ed_ProjectID = pid, ed_FromID = a, ed_ToID = b, ed_Kind = kind, ed_Confidence = pe_Confidence e,
      ed_Source = ''resolve_pass'', ed_Branch = branch\<rparr>"

text \<open>Nothing to resolve: on a scoped pass the old edges of the scope still go.\<close>

definition clear_scope :: "pass_faults \<Rightarrow> string \<Rightarrow> string \<Rightarrow> string list \<Rightarrow> graph \<Rightarrow> graph" where
  "clear_scope ft pid kind scopeFiles g =
     (if scopeFiles \<noteq> [] \<and> \<not> pf_delete ft then DeleteResolvePassEdgesByKindForSourceFiles pid kind scopeFiles g else g)"

definition replace_edges :: "pass_faults \<Rightarrow> string \<Rightarrow> string \<Rightarrow> string list \<Rightarrow> edge list \<Rightarrow> graph \<Rightarrow> nat \<times> graph" where
  "replace_edges ft pid kind scopeFiles es g =
     (if pf_replace ft kind ''resolve_pass'' then (0, g)
      else (length es, ReplaceEdgesByKindSource pid kind ''resolve_pass'' scopeFiles es g))"

fun first_nonempty :: "(string \<Rightarrow> string) \<Rightarrow> string list \<Rightarrow> string" where
  "first_nonempty f [] = []"
| "first_nonempty f (c # cs) = (if f c \<noteq> [] then f c else first_nonempty f cs)"

section \<open>Imports\<close>

definition lookupPythonTarget :: "graph \<Rightarrow> string \<Rightarrow> sym list option \<Rightarrow> string \<Rightarrow> string" where
  "lookupPythonTarget g pid qnMap qn = pickCanonical (excludeNonCodeSyms (lookup_syms g pid qnMap qn))"

definition import_target :: "graph \<Rightarrow> string \<Rightarrow> sym list option \<Rightarrow> string list \<Rightarrow> pending \<Rightarrow> string" where
  "import_target g pid qnMap roots e =
     (if isPythonFile (pe_FromFile e)
      then first_nonempty (lookupPythonTarget g pid qnMap) (PythonImportCandidates (pe_ToName e) (pe_FromFile e) roots)
      else pickCanonical (lookup_syms g pid qnMap (pe_ToName e)))"

text \<open>The edges so far, and the external modules by id.\<close>

definition import_step :: "graph \<Rightarrow> string \<Rightarrow> sym list option \<Rightarrow> string list \<Rightarrow>
    edge list \<times> (string \<times> sym) list \<Rightarrow> pending \<Rightarrow> edge list \<times> (string \<times> sym) list" where
  "import_step g pid qnMap roots st e =
     (let (es, exts) = st;
          fromID = pickCanonical (lookup_syms g pid qnMap (pe_FromQN e));
          toID = import_target g pid qnMap roots e
      in if fromID = [] then (es, exts)
         else let (toID, exts) =
                (if toID = [] \<and> pe_ToName e \<noteq> []
                 then let ext = externalModuleSymbol pid (pe_ToName e) in (sy_ID ext, AList.update (sy_ID ext) ext exts)
                 else (toID, exts))
           in if toID = [] \<or> seen_pair es fromID toID then (es, exts)
              else (es @ [pass_edge pid ''IMPORTS'' [] e fromID toID], exts))"

definition resolveImports :: "pass_faults \<Rightarrow> string \<Rightarrow> pending list \<Rightarrow> string list \<Rightarrow> sym list option \<Rightarrow>
    string list \<Rightarrow> graph \<Rightarrow> nat \<times> graph" where
  "resolveImports ft pid pend roots qnMap scopeFiles g =
     (if pend = [] then (0, clear_scope ft pid ''IMPORTS'' scopeFiles g)
      else let (es, exts) = foldl (import_step g pid qnMap roots) ([], []) pend;
               (es, g) = (if exts = [] then (es, g)
                          else if pf_upsert ft then (filter (\<lambda>e. map_of exts (ed_ToID e) = None) es, g)
                          else (es, BulkUpsertSymbols (map snd exts) g))
        in replace_edges ft pid ''IMPORTS'' scopeFiles es g)"

section \<open>Uses of Ansible variables\<close>

text \<open>
  The source is the module of the name, else any symbol of the file, else a module made for it; the
  target a setting of that name in a file that declares variables.
\<close>

definition uses_from :: "(string \<Rightarrow> string) \<Rightarrow> graph \<Rightarrow> string \<Rightarrow> string \<Rightarrow> string \<Rightarrow> string \<times> sym option" where
  "uses_from lang_of g pid qn fromFile =
     (let i = pickCanonical (filter (\<lambda>s. sy_Kind s = ''Module'' \<and> sy_QN s = qn) (ListSymbolsForProject g pid));
          i = (if i = [] \<and> fromFile \<noteq> [] then pickCanonical (filter (\<lambda>s. sy_FilePath s = fromFile) (ListSymbolsForProject g pid)) else i)
      in if i = [] \<and> fromFile \<noteq> []
         then let s = syntheticFileModuleSymbol lang_of pid fromFile qn in (sy_ID s, Some s)
         else (i, None))"

definition uses_to :: "graph \<Rightarrow> string \<Rightarrow> string \<Rightarrow> string" where
  "uses_to g pid name =
     pickCanonical (filter (\<lambda>s. sy_Kind s = ''Setting'' \<and> isAnsibleVarDeclFile (sy_FilePath s) \<and> sy_Name s = name)
       (ListSymbolsForProject g pid))"

definition uses_step :: "(string \<Rightarrow> string) \<Rightarrow> graph \<Rightarrow> string \<Rightarrow> edge list \<times> (string \<times> sym) list \<Rightarrow> pending \<Rightarrow>
    edge list \<times> (string \<times> sym) list" where
  "uses_step lang_of g pid st e =
     (let (es, synths) = st;
          (fromID, synth) = uses_from lang_of g pid (pe_FromQN e) (pe_FromFile e);
          synths = (case synth of None \<Rightarrow> synths | Some s \<Rightarrow> AList.update (sy_ID s) s synths);
          toID = uses_to g pid (pe_ToName e)
      in if fromID = [] \<or> toID = [] \<or> seen_pair es fromID toID then (es, synths)
         else (es @ [pass_edge pid ''USES_VAR'' [] e fromID toID], synths))"

definition resolveUsesVar :: "(string \<Rightarrow> string) \<Rightarrow> pass_faults \<Rightarrow> string \<Rightarrow> pending list \<Rightarrow> string list \<Rightarrow> graph \<Rightarrow> nat \<times> graph" where
  "resolveUsesVar lang_of ft pid pend scopeFiles g =
     (if pend = [] then (0, clear_scope ft pid ''USES_VAR'' scopeFiles g)
      else if pf_symbols ft then (0, g)
      else let (es, synths) = foldl (uses_step lang_of g pid) ([], []) pend;
               (es, g) = (if synths = [] then (es, g)
                          else if pf_upsert ft then (filter (\<lambda>e. map_of synths (ed_FromID e) = None) es, g)
                          else (es, BulkUpsertSymbols (map snd synths) g))
        in replace_edges ft pid ''USES_VAR'' scopeFiles es g)"

section \<open>References between documents\<close>

definition md_section :: "sym \<Rightarrow> bool" where
  "md_section s \<longleftrightarrow> sy_Kind s = ''Section'' \<and> sy_Language s = ''Markdown''"

definition found_id :: "sym option \<Rightarrow> string" where
  "found_id r = (case r of None \<Rightarrow> [] | Some s \<Rightarrow> sy_ID s)"

definition ref_from :: "graph \<Rightarrow> string \<Rightarrow> string \<Rightarrow> string \<Rightarrow> string" where
  "ref_from g pid path qn =
     (let syms = GetSymbolsForFile g pid path; qn = (if qn = [] then ''preamble'' else qn) in
      case find (\<lambda>s. md_section s \<and> sy_QN s = qn) syms of
        Some s \<Rightarrow> sy_ID s
      | None \<Rightarrow> found_id (find md_section syms))"

definition MarkdownDocRefPrefix :: string where "MarkdownDocRefPrefix = ''@docref:''"

definition ref_target :: "graph \<Rightarrow> string \<Rightarrow> pending \<Rightarrow> string" where
  "ref_target g pid p =
     (if \<not> has_prefix (pe_ToName p) MarkdownDocRefPrefix
      then found_id (find (\<lambda>s. md_section s \<and> sy_QN s = pe_ToName p) (GetSymbolsForFile g pid (pe_FromFile p)))
      else let raw = trim_prefix (pe_ToName p) MarkdownDocRefPrefix;
               (targetFile, anchor) = (case cut_byte CHR ''#'' raw of None \<Rightarrow> (raw, []) | Some (a, b) \<Rightarrow> (a, b));
               syms = GetSymbolsForFile g pid targetFile
        in if targetFile = [] then []
           else if anchor \<noteq> []
           then found_id (find (\<lambda>s. md_section s \<and> (sy_QN s = anchor \<or> has_suffix (sy_QN s) (CHR ''.'' # anchor))) syms)
           else let firstSection = found_id (find md_section syms);
                    preamble = found_id (find (\<lambda>s. md_section s \<and> sy_QN s = ''preamble'') (rev syms))
             in if firstSection \<noteq> [] then firstSection else preamble)"

definition ref_step :: "graph \<Rightarrow> string \<Rightarrow> string \<Rightarrow> edge list \<Rightarrow> pending \<Rightarrow> edge list" where
  "ref_step g pid branch es p =
     (let fromID = ref_from g pid (pe_FromFile p) (pe_FromQN p); toID = ref_target g pid p in
      if fromID = [] \<or> toID = [] \<or> fromID = toID \<or> seen_pair es fromID toID then es
      else es @ [pass_edge pid ''REFERENCES'' branch p fromID toID])"

definition resolveReferences :: "pass_faults \<Rightarrow> string \<Rightarrow> string \<Rightarrow> pending list \<Rightarrow> string list \<Rightarrow> graph \<Rightarrow> nat \<times> graph" where
  "resolveReferences ft branch pid pend scopeFiles g =
     (if pend = [] then (0, clear_scope ft pid ''REFERENCES'' scopeFiles g)
      else replace_edges ft pid ''REFERENCES'' scopeFiles (foldl (ref_step g pid branch) [] pend) g)"

section \<open>Includes and loads\<close>

datatype made = Synth sym | External sym

definition pickFileModule :: "(string \<Rightarrow> string) \<Rightarrow> graph \<Rightarrow> string \<Rightarrow> string \<Rightarrow> string \<Rightarrow> bool \<Rightarrow> string \<times> made option" where
  "pickFileModule lang_of g pid path qnHint allowExternal =
     (if path = [] then ([], None)
      else let syms = GetSymbolsForFile g pid path in
        case find (\<lambda>s. sy_Kind s = ''Module'' \<and> (qnHint = [] \<or> sy_QN s = qnHint \<or> sy_Name s = qnHint)) syms of
          Some s \<Rightarrow> (sy_ID s, None)
        | None \<Rightarrow>
            if syms = [] \<and> allowExternal then let x = externalModuleSymbol pid path in (sy_ID x, Some (External x))
            else let x = syntheticFileModuleSymbol lang_of pid path qnHint in (sy_ID x, Some (Synth x)))"

definition note_made :: "made option \<Rightarrow> (string \<times> sym) list \<times> (string \<times> sym) list \<Rightarrow> (string \<times> sym) list \<times> (string \<times> sym) list" where
  "note_made m st =
     (case m of
        None \<Rightarrow> st
      | Some (Synth s) \<Rightarrow> (AList.update (sy_ID s) s (fst st), snd st)
      | Some (External s) \<Rightarrow> (fst st, AList.update (sy_ID s) s (snd st)))"

definition file_step :: "(string \<Rightarrow> string) \<Rightarrow> graph \<Rightarrow> string \<Rightarrow> string \<Rightarrow> string \<Rightarrow>
    edge list \<times> (string \<times> sym) list \<times> (string \<times> sym) list \<Rightarrow> pending \<Rightarrow>
    edge list \<times> (string \<times> sym) list \<times> (string \<times> sym) list" where
  "file_step lang_of g pid kind branch st p =
     (let (es, mds) = st in
      if pe_Kind p \<noteq> kind then (es, mds)
      else let (fromID, m1) = pickFileModule lang_of g pid (pe_FromFile p) (pe_FromQN p) False;
               (toID, m2) = pickFileModule lang_of g pid (pe_ToName p) [] True;
               mds = note_made m2 (note_made m1 mds)
        in if fromID = [] \<or> toID = [] \<or> fromID = toID \<or> seen_pair es fromID toID then (es, mds)
           else (es @ [pass_edge pid kind branch p fromID toID], mds))"

definition resolveFilePathEdges :: "(string \<Rightarrow> string) \<Rightarrow> pass_faults \<Rightarrow> string \<Rightarrow> string \<Rightarrow> string \<Rightarrow> pending list \<Rightarrow>
    string list \<Rightarrow> graph \<Rightarrow> nat \<times> graph" where
  "resolveFilePathEdges lang_of ft branch pid kind pend scopeFiles g =
     (if pend = [] then (0, clear_scope ft pid kind scopeFiles g)
      else let (es, synths, exts) = foldl (file_step lang_of g pid kind branch) ([], [], []) pend; mds = synths @ exts in
        if mds \<noteq> [] \<and> pf_upsert ft then (0, g)
        else replace_edges ft pid kind scopeFiles es (if mds = [] then g else BulkUpsertSymbols (map snd mds) g))"

end
