(* ===== verification/Call_Resolve.thy ===== *)
theory Call_Resolve
  imports Edge_Resolve
begin

text \<open>
  \<open>resolveCalls\<close> and \<open>resolveReads\<close> (\<^verbatim>\<open>internal/index/indexer.go\<close>) and the block that runs all
  passes.  Of the caches of \<open>resolveCalls\<close> those that record build-tag siblings on a miss are part of
  the state, since a hit does not record them; the others hold answers already computed and are left
  out, as are all caches of \<open>resolveReads\<close>.
\<close>

section \<open>Names in calls\<close>

record ctx =
  cx_graph :: graph
  cx_pid :: string
  cx_qnMap :: "sym list option"
  cx_roots :: "string list"
  cx_fields :: "struct_field list"

record caches =
  cc_qn :: "(string \<times> string) list"
  cc_name :: "(string \<times> string) list"
  cc_nameDir :: "((string \<times> string) \<times> string) list"
  cc_sib :: "(string \<times> string list) list"

definition no_caches :: caches where
  "no_caches = \<lparr>cc_qn = [], cc_name = [], cc_nameDir = [], cc_sib = []\<rparr>"

definition cx_syms :: "ctx \<Rightarrow> string \<Rightarrow> sym list" where
  "cx_syms cx qn = lookup_syms (cx_graph cx) (cx_pid cx) (cx_qnMap cx) qn"

text \<open>Record the siblings of a pick under the name that was looked up.\<close>

definition note_siblings :: "string \<Rightarrow> sym list \<Rightarrow> string \<Rightarrow> caches \<Rightarrow> caches" where
  "note_siblings key syms canonical c =
     (let sibs = siblingsForCanonical syms canonical in
      if length syms > 1 \<and> sibs \<noteq> [] then c\<lparr>cc_sib := AList.update key sibs (cc_sib c)\<rparr> else c)"

definition lookupQN :: "ctx \<Rightarrow> string \<Rightarrow> caches \<Rightarrow> string \<times> caches" where
  "lookupQN cx qn c =
     (if qn = [] then ([], c)
      else case map_of (cc_qn c) qn of
        Some i \<Rightarrow> (i, c)
      | None \<Rightarrow>
          (let syms = excludeNonCodeSyms (cx_syms cx qn); i = pickCanonical syms
           in (i, note_siblings qn syms i (c\<lparr>cc_qn := AList.update qn i (cc_qn c)\<rparr>))))"

text \<open>The symbol of the file that deferred the call, if it is among them.\<close>

definition lookupFromQN :: "ctx \<Rightarrow> string \<Rightarrow> string \<Rightarrow> caches \<Rightarrow> string \<times> caches" where
  "lookupFromQN cx qn fromFile c =
     (if qn = [] then ([], c)
      else if fromFile = [] then lookupQN cx qn c
      else case find (\<lambda>s. sy_FilePath s = fromFile) (cx_syms cx qn) of
        Some s \<Rightarrow> (sy_ID s, c)
      | None \<Rightarrow> (pickCanonical (cx_syms cx qn), c))"

definition name_candidates :: "ctx \<Rightarrow> string \<Rightarrow> sym list" where
  "name_candidates cx name =
     excludeNonCodeSyms (excludeMethodSyms (preferNonFixtureSyms (GetSymbolsByName (cx_graph cx) (cx_pid cx) name 200)))"

definition lookupName :: "ctx \<Rightarrow> string \<Rightarrow> caches \<Rightarrow> string \<times> caches" where
  "lookupName cx name c =
     (if name = [] then ([], c)
      else case map_of (cc_name c) name of
        Some i \<Rightarrow> (i, c)
      | None \<Rightarrow>
          (let syms = name_candidates cx name; i = pickCanonical syms
           in (i, note_siblings name syms i (c\<lparr>cc_name := AList.update name i (cc_name c)\<rparr>))))"

definition dir_candidates :: "ctx \<Rightarrow> string \<Rightarrow> string \<Rightarrow> sym list" where
  "dir_candidates cx name fromDir =
     filter (\<lambda>s. sy_Language s = ''Go'' \<and> file_dir (sy_FilePath s) = fromDir) (name_candidates cx name)"

definition lookupNameInFileDir :: "ctx \<Rightarrow> string \<Rightarrow> string \<Rightarrow> caches \<Rightarrow> string \<times> caches" where
  "lookupNameInFileDir cx name fromFile c =
     (if name = [] then ([], c)
      else if fromFile = [] then lookupName cx name c
      else let fromDir = file_dir fromFile in
        case map_of (cc_nameDir c) (name, fromDir) of
          Some i \<Rightarrow> (i, c)
        | None \<Rightarrow>
            (let syms = dir_candidates cx name fromDir; i = pickCanonical syms
             in (i, note_siblings name syms i (c\<lparr>cc_nameDir := AList.update (name, fromDir) i (cc_nameDir c)\<rparr>))))"

definition lookupWebBareName :: "ctx \<Rightarrow> string \<Rightarrow> string \<Rightarrow> string" where
  "lookupWebBareName cx name fromFile =
     (if name = [] \<or> has_dot name then []
      else let fromDir = file_dir fromFile;
               webSyms = filter (\<lambda>s. sy_Language s \<in> set [''JavaScript'', ''TypeScript'', ''TSX'']) (name_candidates cx name);
               sameDir = filter (\<lambda>s. fromDir \<noteq> ''.'' \<and> file_dir (sy_FilePath s) = fromDir) webSyms
        in case sameDir of
             [s] \<Rightarrow> sy_ID s
           | _ \<Rightarrow> (case webSyms of [s] \<Rightarrow> sy_ID s | _ \<Rightarrow> []))"

section \<open>Receiver types\<close>

text \<open>The qualified name inside a struct id \<open>file::QN#Kind\<close>; empty when it has another shape.\<close>

fun after_colons :: "string \<Rightarrow> string option" where
  "after_colons (a # b # s) = (if a = CHR '':'' \<and> b = CHR '':'' then Some s else after_colons (b # s))"
| "after_colons _ = None"

definition struct_qn :: "string \<Rightarrow> string" where
  "struct_qn i =
     (case after_colons i of
        None \<Rightarrow> []
      | Some rest \<Rightarrow> (case cut_last CHR ''#'' rest of Some (q, _) \<Rightarrow> q | None \<Rightarrow> []))"

text \<open>The type of a field; of two rows the later counts.\<close>

definition field_type :: "struct_field list \<Rightarrow> string \<Rightarrow> string \<Rightarrow> string option" where
  "field_type rows structQN name =
     map_option sf_FieldType (find (\<lambda>f. struct_qn (sf_StructID f) = structQN \<and> structQN \<noteq> [] \<and> sf_FieldName f = name) (rev rows))"

definition pkg_of :: "string \<Rightarrow> string" where
  "pkg_of fromQN = (case cut_byte CHR ''.'' fromQN of Some (a, _) \<Rightarrow> if a \<noteq> [] then a else fromQN | None \<Rightarrow> fromQN)"

fun first_qn :: "ctx \<Rightarrow> string list \<Rightarrow> caches \<Rightarrow> string \<times> caches" where
  "first_qn cx [] c = ([], c)"
| "first_qn cx (q # qs) c = (case lookupQN cx q c of (i, c1) \<Rightarrow> if i \<noteq> [] then (i, c1) else first_qn cx qs c1)"

definition resolveByReceiverType :: "ctx \<Rightarrow> string \<Rightarrow> string \<Rightarrow> string \<Rightarrow> caches \<Rightarrow> string \<times> caches" where
  "resolveByReceiverType cx toName receiverType fromQN c =
     (let pkg = pkg_of fromQN; bareRecv = trim_prefix receiverType ''*'' in
      if receiverType = [] \<or> toName = [] \<or> fromQN = [] \<or> has_dot bareRecv then ([], c)
      else case split_byte CHR ''.'' toName of
        [recv, meth] \<Rightarrow>
          if isStdlibReceiver recv then ([], c)
          else first_qn cx (map (\<lambda>r. pkg @ ''.'' @ r @ ''.'' @ meth) [receiverType, CHR ''*'' # bareRecv, bareRecv]) c
      | [recv, fld, meth] \<Rightarrow>
          if isStdlibReceiver recv then ([], c)
          else (case field_type (cx_fields cx) (pkg @ ''.'' @ bareRecv) fld of
                  None \<Rightarrow> ([], c)
                | Some ft \<Rightarrow>
                    let bareField = trim_prefix ft ''*'' in
                    if has_dot bareField then ([], c)
                    else first_qn cx (map (\<lambda>r. pkg @ ''.'' @ r @ ''.'' @ meth) [CHR ''*'' # bareField, bareField]) c)
      | _ \<Rightarrow> ([], c))"

text \<open>A method of a package variable, by the type in the signature of the variable.\<close>

definition resolveBySingletonVar :: "ctx \<Rightarrow> string \<Rightarrow> string \<Rightarrow> caches \<Rightarrow> string \<times> caches" where
  "resolveBySingletonVar cx toName fromQN c =
     (if toName = [] \<or> fromQN = [] then ([], c)
      else case cut_byte CHR ''.'' toName of
        None \<Rightarrow> ([], c)
      | Some (base, meth) \<Rightarrow>
          if base = [] \<or> meth = [] \<or> has_dot meth then ([], c)
          else (case find (\<lambda>s. sy_Kind s = ''Variable'' \<and> sy_Signature s \<noteq> []) (cx_syms cx (pkg_of fromQN @ ''.'' @ base)) of
                  None \<Rightarrow> ([], c)
                | Some s \<Rightarrow> resolveByReceiverType cx toName (sy_Signature s) fromQN c))"

definition classQNByName :: "ctx \<Rightarrow> string \<Rightarrow> string" where
  "classQNByName cx name =
     (if name = [] then []
      else case find (\<lambda>s. sy_Kind s = ''Class'' \<or> sy_Kind s = ''Interface'') (GetSymbolsByName (cx_graph cx) (cx_pid cx) name 50) of
        None \<Rightarrow> []
      | Some s \<Rightarrow> sy_QN s)"

definition resolveByReceiverTypeNonGo :: "ctx \<Rightarrow> string \<Rightarrow> string \<Rightarrow> caches \<Rightarrow> string \<times> caches" where
  "resolveByReceiverTypeNonGo cx toName receiverType c =
     (if receiverType = [] \<or> toName = [] then ([], c)
      else case split_byte CHR ''.'' toName of
        [_, meth] \<Rightarrow>
          if meth = [] \<or> classQNByName cx receiverType = [] then ([], c)
          else lookupQN cx (classQNByName cx receiverType @ ''.'' @ meth) c
      | _ \<Rightarrow> ([], c))"

section \<open>Python calls\<close>

definition py_suffix_qns :: "ctx \<Rightarrow> string list" where
  "py_suffix_qns cx =
     remdups (filter (\<lambda>q. q \<noteq> [])
       (map sy_QN (filter (\<lambda>s. sy_Language s = ''Python'' \<and> \<not> isNonCodeKind (sy_Kind s))
          (case cx_qnMap cx of Some m \<Rightarrow> m | None \<Rightarrow> ListSymbolsForProject (cx_graph cx) (cx_pid cx)))))"

definition last_segment :: "string \<Rightarrow> string" where
  "last_segment qn = (case cut_last CHR ''.'' qn of Some (_, b) \<Rightarrow> b | None \<Rightarrow> qn)"

text \<open>The one qualified name with the suffix; two different ones are ambiguous.\<close>

definition lookupPythonSuffix :: "ctx \<Rightarrow> string \<Rightarrow> caches \<Rightarrow> string \<times> caches" where
  "lookupPythonSuffix cx toName c =
     (let trimmed = dropWhile (\<lambda>x. x = CHR ''.'') toName in
      case cut_last CHR ''.'' trimmed of
        None \<Rightarrow> ([], c)
      | Some (a, b) \<Rightarrow>
          if a = [] \<or> b = [] then ([], c)
          else (case filter (\<lambda>q. last_segment q = b \<and> has_suffix q (CHR ''.'' # trimmed)) (py_suffix_qns cx) of
                  [q] \<Rightarrow> lookupQN cx q c
                | _ \<Rightarrow> ([], c)))"

text \<open>The first candidate that is a symbol of the project, else the external placeholder met first.\<close>

fun py_candidates :: "ctx \<Rightarrow> string list \<Rightarrow> string \<Rightarrow> caches \<Rightarrow> (string \<times> string) \<times> caches" where
  "py_candidates cx [] external c = (([], external), c)"
| "py_candidates cx (q # qs) external c =
     (case lookupQN cx q c of
        (i, c1) \<Rightarrow>
          if i = [] then py_candidates cx qs external c1
          else if has_prefix i ''@external/'' then py_candidates cx qs (if external = [] then i else external) c1
          else ((i, external), c1))"

definition lookupPythonCall :: "ctx \<Rightarrow> string \<Rightarrow> string \<Rightarrow> caches \<Rightarrow> string \<times> caches" where
  "lookupPythonCall cx toName fromFile c =
     (case py_candidates cx (PythonImportCandidates toName fromFile (cx_roots cx)) [] c of
        ((i, external), c1) \<Rightarrow>
          if i \<noteq> [] then (i, c1)
          else (case lookupPythonSuffix cx toName c1 of (j, c2) \<Rightarrow> (if j \<noteq> [] then j else external, c2)))"

section \<open>Calls\<close>

definition attempt :: "bool \<Rightarrow> (caches \<Rightarrow> string \<times> caches) \<Rightarrow> string \<times> caches \<Rightarrow> string \<times> caches" where
  "attempt cond f r = (if fst r = [] \<and> cond then f (snd r) else r)"

definition call_from :: "ctx \<Rightarrow> pending \<Rightarrow> caches \<Rightarrow> string \<times> caches" where
  "call_from cx e c =
     attempt (\<not> has_dot (pe_FromQN e)) (lookupName cx (pe_FromQN e)) (lookupFromQN cx (pe_FromQN e) (pe_FromFile e) c)"

text \<open>Any method of the trailing name, unless the receiver or the method looks like the standard library.\<close>

definition receiver_method :: "ctx \<Rightarrow> string \<Rightarrow> string" where
  "receiver_method cx toName =
     (case cut_last CHR ''.'' toName of
        None \<Rightarrow> []
      | Some (receiver, trailing) \<Rightarrow>
          if receiver = [] \<or> trailing = [] \<or> isStdlibReceiver receiver \<or> isPolymorphicInterfaceMethodName trailing then []
          else resolveMethodByName (cx_graph cx) (cx_pid cx) trailing)"

definition call_target :: "ctx \<Rightarrow> pending \<Rightarrow> caches \<Rightarrow> string \<times> caches" where
  "call_target cx e c =
     (let toName = pe_ToName e; fromFile = pe_FromFile e; recv = pe_ReceiverType e;
          go = has_suffix fromFile ''.go''; js = isJSorTSFile fromFile;
          r = (if isPythonFile fromFile then lookupPythonCall cx toName fromFile c
               else attempt (go \<and> \<not> has_dot toName) (lookupNameInFileDir cx toName fromFile) (lookupQN cx toName c));
          r = attempt go (resolveByReceiverType cx toName recv (pe_FromQN e)) r;
          r = attempt (recv = [] \<and> go) (resolveBySingletonVar cx toName (pe_FromQN e)) r;
          r = attempt (recv \<noteq> [] \<and> js) (resolveByReceiverTypeNonGo cx toName recv) r;
          r = attempt (js \<and> \<not> has_dot toName) (\<lambda>c. (lookupWebBareName cx toName fromFile, c)) r
      in attempt go (\<lambda>c. (receiver_method cx toName, c)) r)"

text \<open>The extra edges to the build-tag siblings recorded under the name of the call.\<close>

definition add_sibling :: "ctx \<Rightarrow> pending \<Rightarrow> string \<Rightarrow> string \<Rightarrow> edge list \<Rightarrow> edge list" where
  "add_sibling cx e fromID sib es =
     (if sib = fromID \<or> seen_pair es fromID sib then es
      else es @ [pass_edge (cx_pid cx) ''CALLS'' [] e fromID sib])"

definition call_step :: "ctx \<Rightarrow> edge list \<times> caches \<Rightarrow> pending \<Rightarrow> edge list \<times> caches" where
  "call_step cx st e =
     (let (es, c) = st; (fromID, c) = call_from cx e c in
      if fromID = [] then (es, c)
      else let (toID, c) = call_target cx e c in
        if toID = [] \<or> fromID = toID \<or> seen_pair es fromID toID then (es, c)
        else (fold (add_sibling cx e fromID) (case map_of (cc_sib c) (pe_ToName e) of None \<Rightarrow> [] | Some sibs \<Rightarrow> sibs)
                (es @ [pass_edge (cx_pid cx) ''CALLS'' [] e fromID toID]), c))"

definition call_edges :: "ctx \<Rightarrow> pending list \<Rightarrow> edge list \<times> caches" where
  "call_edges cx pend = foldl (call_step cx) ([], no_caches) pend"

definition resolve_ctx :: "pass_faults \<Rightarrow> string \<Rightarrow> string list \<Rightarrow> sym list option \<Rightarrow> graph \<Rightarrow> ctx" where
  "resolve_ctx ft pid roots qnMap g =
     \<lparr>cx_graph = g, cx_pid = pid, cx_qnMap = qnMap, cx_roots = roots,
      cx_fields = (if pf_fields ft then [] else LoadStructFields g pid)\<rparr>"

definition resolveCalls :: "pass_faults \<Rightarrow> string \<Rightarrow> pending list \<Rightarrow> string list \<Rightarrow> sym list option \<Rightarrow>
    string list \<Rightarrow> graph \<Rightarrow> nat \<times> graph" where
  "resolveCalls ft pid pend roots qnMap scopeFiles g =
     (if pend = [] then (0, clear_scope ft pid ''CALLS'' scopeFiles g)
      else replace_edges ft pid ''CALLS'' scopeFiles
             (fst (call_edges (resolve_ctx ft pid roots qnMap g) pend)) g)"

section \<open>Reads and writes\<close>

record lookup =
  lk_id :: string
  lk_lang :: string
  lk_isVar :: bool
  lk_isFunc :: bool
  lk_funcIDs :: "string list"

definition no_lookup :: lookup where
  "no_lookup = \<lparr>lk_id = [], lk_lang = [], lk_isVar = False, lk_isFunc = False, lk_funcIDs = []\<rparr>"

definition sym_lookup :: "sym \<Rightarrow> lookup" where
  "sym_lookup s = \<lparr>lk_id = sy_ID s, lk_lang = sy_Language s, lk_isVar = (sy_Kind s = ''Variable''),
     lk_isFunc = (sy_Kind s = ''Function'' \<or> sy_Kind s = ''Method''), lk_funcIDs = []\<rparr>"

text \<open>The symbol of the least id, and all functions of the name in its language.\<close>

definition read_qn :: "ctx \<Rightarrow> string \<Rightarrow> lookup" where
  "read_qn cx qn =
     (if qn = [] then no_lookup
      else case cx_syms cx qn of
        [] \<Rightarrow> no_lookup
      | s # ss \<Rightarrow>
          (let m = foldl (\<lambda>m s. if sy_ID s < sy_ID m then s else m) s ss in
           (sym_lookup m)\<lparr>lk_funcIDs :=
              (if sy_Kind m = ''Function''
               then sort (map sy_ID (filter (\<lambda>s. sy_Kind s = ''Function'' \<and> sy_Language s = sy_Language m) (s # ss)))
               else [])\<rparr>))"

text \<open>A variable, else the functions, else a method; of the language, and in the directory if one is given.\<close>

definition read_name :: "ctx \<Rightarrow> string \<Rightarrow> string \<Rightarrow> string \<Rightarrow> lookup" where
  "read_name cx name lang pkgDir =
     (if name = [] then no_lookup
      else let syms = preferNonFixtureSyms (GetSymbolsByName (cx_graph cx) (cx_pid cx) name 10);
               syms = filter (\<lambda>s. pkgDir = [] \<or> file_dir (sy_FilePath s) = pkgDir) syms;
               syms = filter (\<lambda>s. lang = [] \<or> sy_Language s = lang) syms
        in case find (\<lambda>s. sy_Kind s = ''Variable'') syms of
             Some s \<Rightarrow> sym_lookup s
           | None \<Rightarrow>
               (case filter (\<lambda>s. sy_Kind s = ''Function'') syms of
                  f # fs \<Rightarrow> (let ids = sort (map sy_ID (f # fs)) in
                    \<lparr>lk_id = hd ids, lk_lang = sy_Language f, lk_isVar = False, lk_isFunc = True, lk_funcIDs = ids\<rparr>)
                | [] \<Rightarrow> (case find (\<lambda>s. sy_Kind s = ''Method'') syms of Some s \<Rightarrow> sym_lookup s | None \<Rightarrow> no_lookup)))"

definition read_from_qn :: "ctx \<Rightarrow> string \<Rightarrow> string \<Rightarrow> lookup" where
  "read_from_qn cx qn fromFile =
     (let base = read_qn cx qn in
      if lk_id base = [] \<or> fromFile = [] then base
      else case find (\<lambda>s. sy_FilePath s = fromFile) (cx_syms cx qn) of Some s \<Rightarrow> sym_lookup s | None \<Rightarrow> base)"

definition isStructFieldRead :: "ctx \<Rightarrow> string \<Rightarrow> string \<Rightarrow> string \<Rightarrow> bool" where
  "isStructFieldRead cx baseType fromQN fieldName \<longleftrightarrow>
     baseType \<noteq> [] \<and> fieldName \<noteq> [] \<and>
     (field_type (cx_fields cx) baseType fieldName \<noteq> None \<or>
      \<not> has_dot baseType \<and> pkg_of fromQN \<noteq> [] \<and> field_type (cx_fields cx) (pkg_of fromQN @ ''.'' @ baseType) fieldName \<noteq> None)"

text \<open>
  \<open>seen\<close> holds the pairs with the kind as the extractor gave it.  A target that is a function makes a
  binding edge to every function of the name.
\<close>

type_synonym seen = "(string \<times> string \<times> string) list"

definition add_binding :: "ctx \<Rightarrow> string \<Rightarrow> string \<Rightarrow> edge list \<times> seen \<Rightarrow> edge list \<times> seen" where
  "add_binding cx fromID target st =
     (let (es, sn) = st in
      if (fromID, target, ''CALLS'') \<in> set sn then (es, sn)
      else (es @ [\<lparr>ed_ProjectID = cx_pid cx, ed_FromID = fromID, ed_ToID = target, ed_Kind = ''CALLS'',
                    ed_Confidence = 2/5, ed_Source = ''binding_pass'', ed_Branch = []\<rparr>],
            (fromID, target, ''CALLS'') # sn))"

definition read_source :: "ctx \<Rightarrow> pending \<Rightarrow> lookup" where
  "read_source cx e =
     (let from = read_from_qn cx (pe_FromQN e) (pe_FromFile e) in
      if lk_id from = [] \<and> \<not> has_dot (pe_FromQN e) then read_name cx (pe_FromQN e) [] [] else from)"

definition read_target :: "ctx \<Rightarrow> lookup \<Rightarrow> pending \<Rightarrow> lookup" where
  "read_target cx from e =
     (let readerPkgDir = (if pe_FromFile e \<noteq> [] then file_dir (pe_FromFile e) else []);
          to = read_qn cx (pe_ToName e);
          mismatch = (lk_id to \<noteq> [] \<and> lk_lang from \<noteq> [] \<and> lk_lang to \<noteq> [] \<and> lk_lang to \<noteq> lk_lang from);
          nameTo = read_name cx (pe_ToName e) (lk_lang from) readerPkgDir
      in if (lk_id to = [] \<or> mismatch) \<and> \<not> has_dot (pe_ToName e) \<and> lk_id nameTo \<noteq> [] then nameTo else to)"

definition trailing_name :: "string \<Rightarrow> string" where
  "trailing_name n = (case cut_last CHR ''.'' n of Some (a, b) \<Rightarrow> if a \<noteq> [] \<and> b \<noteq> [] then b else n | None \<Rightarrow> n)"

definition read_step :: "ctx \<Rightarrow> edge list \<times> seen \<Rightarrow> pending \<Rightarrow> edge list \<times> seen" where
  "read_step cx st e =
     (let (es, sn) = st; from = read_source cx e; to = read_target cx from e in
      if lk_id from = [] \<or> lk_id to = [] \<or> lk_id from = lk_id to \<or>
         (lk_lang from \<noteq> [] \<and> lk_lang to \<noteq> [] \<and> lk_lang from \<noteq> lk_lang to) then (es, sn)
      else if lk_isFunc to then
        (let cand = trailing_name (pe_ToName e) in
         if isPolymorphicInterfaceMethodName cand \<or> isStructFieldRead cx (pe_BaseType e) (pe_FromQN e) cand then (es, sn)
         else fold (add_binding cx (lk_id from)) (if lk_funcIDs to = [] then [lk_id to] else lk_funcIDs to) (es, sn))
      else if \<not> lk_isVar to \<or> (lk_id from, lk_id to, pe_Kind e) \<in> set sn then (es, sn)
      else let kind = (if pe_Kind e \<noteq> ''READS'' \<and> pe_Kind e \<noteq> ''WRITES'' then ''READS'' else pe_Kind e) in
        (es @ [pass_edge (cx_pid cx) kind [] e (lk_id from) (lk_id to)], (lk_id from, lk_id to, pe_Kind e) # sn))"

definition replace_if :: "pass_faults \<Rightarrow> string \<Rightarrow> string \<Rightarrow> string \<Rightarrow> string list \<Rightarrow> edge list \<Rightarrow> graph \<Rightarrow> graph" where
  "replace_if ft pid kind source scopeFiles es g =
     (if pf_replace ft kind source then g else ReplaceEdgesByKindSource pid kind source scopeFiles es g)"

definition clear_reads :: "pass_faults \<Rightarrow> string \<Rightarrow> string list \<Rightarrow> graph \<Rightarrow> graph" where
  "clear_reads ft pid scopeFiles g =
     (let g = clear_scope ft pid ''WRITES'' scopeFiles (clear_scope ft pid ''READS'' scopeFiles g) in
      if scopeFiles \<noteq> [] \<and> \<not> pf_delete ft
      then DeleteEdgesByKindAndSourceForSourceFiles pid ''CALLS'' ''binding_pass'' scopeFiles g else g)"

definition resolveReads :: "pass_faults \<Rightarrow> string \<Rightarrow> pending list \<Rightarrow> sym list option \<Rightarrow> string list \<Rightarrow> graph \<Rightarrow> nat \<times> graph" where
  "resolveReads ft pid pend qnMap scopeFiles g =
     (if pend = [] then (0, clear_reads ft pid scopeFiles g)
      else let es = fst (foldl (read_step (resolve_ctx ft pid [] qnMap g)) ([], []) pend);
               g = replace_if ft pid ''READS'' ''resolve_pass'' scopeFiles (filter (\<lambda>e. ed_Kind e = ''READS'') es) g;
               g = replace_if ft pid ''WRITES'' ''resolve_pass'' scopeFiles (filter (\<lambda>e. ed_Kind e = ''WRITES'') es) g
        in (length es, replace_if ft pid ''CALLS'' ''binding_pass'' scopeFiles (filter (\<lambda>e. ed_Kind e = ''CALLS'') es) g))"

section \<open>All passes\<close>

definition qnPreloadThreshold :: nat where "qnPreloadThreshold = 1000"

text \<open>
  The candidates of a kind: from the table, of the scope if there is one, else those of this run.
  \<open>scope\<close> is \<open>None\<close> for a project-wide pass; \<open>run\<close> are the candidates deferred by this run, by kind.
\<close>

definition load_kind :: "pass_faults \<Rightarrow> string \<Rightarrow> string list option \<Rightarrow> graph \<Rightarrow> string \<Rightarrow> pending list \<Rightarrow> pending list" where
  "load_kind ft pid scope g kind fallback =
     (if pf_load ft kind then fallback
      else case scope of
        None \<Rightarrow> LoadPendingEdges g pid kind
      | Some files \<Rightarrow> if files = [] then fallback else LoadPendingEdgesByKindAndFiles g pid kind files)"

datatype pass = Imports | Calls | Reads | References | Includes | Loads

definition run_pass :: "(string \<Rightarrow> string) \<Rightarrow> pass_faults \<Rightarrow> string \<Rightarrow> string list \<Rightarrow> string \<Rightarrow> sym list option \<Rightarrow> string list \<Rightarrow>
    pass \<Rightarrow> pending list \<Rightarrow> graph \<Rightarrow> graph" where
  "run_pass lang_of ft branch roots pid qnMap files p pend g = snd
     (case p of
        Imports \<Rightarrow> resolveImports ft pid pend roots qnMap files g
      | Calls \<Rightarrow> resolveCalls ft pid pend roots qnMap files g
      | Reads \<Rightarrow> resolveReads ft pid pend qnMap files g
      | References \<Rightarrow> resolveReferences ft branch pid pend files g
      | Includes \<Rightarrow> resolveFilePathEdges lang_of ft branch pid ''INCLUDES'' pend files g
      | Loads \<Rightarrow> resolveFilePathEdges lang_of ft branch pid ''LOADS'' pend files g)"

text \<open>The candidates of each pass, in the order of the passes, and the map preloaded when there are many.\<close>

definition block_work :: "(string \<Rightarrow> pending list \<Rightarrow> pending list) \<Rightarrow> (string \<Rightarrow> pending list) \<Rightarrow> (pass \<times> pending list) list" where
  "block_work ld run =
     [(Imports, ld ''IMPORTS'' (run ''IMPORTS'')), (Calls, ld ''CALLS'' (run ''CALLS'')),
      (Reads, ld ''READS'' (run ''READS'') @ ld ''WRITES'' []), (References, ld ''REFERENCES'' (run ''REFERENCES'')),
      (Includes, ld ''INCLUDES'' (run ''STRUCT'')), (Loads, ld ''LOADS'' (run ''STRUCT''))]"

definition block_map :: "bool \<Rightarrow> string \<Rightarrow> (pass \<times> pending list) list \<Rightarrow> graph \<Rightarrow> sym list option" where
  "block_map preload_ok pid work g =
     (if sum_list (map (length \<circ> snd) (take 3 work)) > qnPreloadThreshold \<and> preload_ok
      then Some (LoadAllSymbolsByQN g pid) else None)"

text \<open>On a scoped run the passes without candidates come first: they clear their edges of the scope.\<close>

definition run_work :: "(pass \<Rightarrow> pending list \<Rightarrow> graph \<Rightarrow> graph) \<Rightarrow> bool \<Rightarrow> (pass \<times> pending list) list \<Rightarrow> graph \<Rightarrow> graph" where
  "run_work run scoped work g =
     fold (\<lambda>(p, pend). if pend = [] then id else run p pend) work
       (if scoped then fold (\<lambda>(p, pend). if pend = [] then run p [] else id) work g else g)"

definition resolve_block :: "(string \<Rightarrow> string) \<Rightarrow> pass_faults \<Rightarrow> bool \<Rightarrow> string \<Rightarrow> string list \<Rightarrow> string \<Rightarrow> string list option \<Rightarrow>
    (string \<Rightarrow> pending list) \<Rightarrow> graph \<Rightarrow> graph" where
  "resolve_block lang_of ft preload_ok branch roots pid scope run g =
     (let files = (case scope of None \<Rightarrow> [] | Some fs \<Rightarrow> fs);
          work = block_work (load_kind ft pid scope g) run;
          g = run_work (run_pass lang_of ft branch roots pid (block_map preload_ok pid work g) files) (scope \<noteq> None) work g;
          uses = load_kind ft pid scope g ''USES_VAR'' (run ''USES_VAR'')
      in if scope = None \<and> uses = [] then g else snd (resolveUsesVar lang_of ft pid uses files g))"

end
