(* ===== verification/Edge_Resolve_Props.thy ===== *)
theory Edge_Resolve_Props
  imports Call_Resolve Project_Resolve_Props
begin

text \<open>
  The resolve passes keep the graph sound.  A pass is anything that satisfies the contract
  \<open>graph_pass\<close>: it forgets no symbol, leaves other projects and the edges of the extractors alone, and
  adds no edge with an unknown end.  Every resolver satisfies it, whatever write fails, and contracts
  compose, so that the whole block satisfies it.
\<close>

section \<open>Picks\<close>

lemma foldl_least: "foldl (\<lambda>c s. if sy_ID s < c then sy_ID s else c) x ss = Min (insert x (sy_ID ` set ss))"
proof (induction ss arbitrary: x)
  case (Cons s ss)
  have "Min (insert (if sy_ID s < x then sy_ID s else x) (sy_ID ` set ss)) = Min (insert x (insert (sy_ID s) (sy_ID ` set ss)))"
    by (cases "set ss = {}") (auto simp: min_def not_less)
  then show ?case using Cons.IH [of "if sy_ID s < x then sy_ID s else x"] by simp
qed simp

lemma pickCanonical_Min: "pickCanonical syms = (if syms = [] then [] else Min (sy_ID ` set syms))"
  by (cases syms) (simp_all add: pickCanonical_def foldl_least)

lemma pickCanonical_in: "syms \<noteq> [] \<Longrightarrow> \<exists>s \<in> set syms. sy_ID s = pickCanonical syms"
  using Min_in [of "sy_ID ` set syms"] by (simp add: pickCanonical_Min image_iff) metis

lemma pickCanonical_le: "s \<in> set syms \<Longrightarrow> pickCanonical syms \<le> sy_ID s"
  by (auto simp: pickCanonical_Min)

lemma pickCanonical_cong: "set xs = set ys \<Longrightarrow> pickCanonical xs = pickCanonical ys"
  by (cases xs; cases ys) (auto simp: pickCanonical_Min)

section \<open>Sound graphs\<close>

definition known :: "graph \<Rightarrow> string \<Rightarrow> string \<Rightarrow> bool" where
  "known g p i \<longleftrightarrow> (\<exists>s \<in> set (gr_symbols g). sy_ProjectID s = p \<and> sy_ID s = i)"

definition derived :: "edge \<Rightarrow> bool" where
  "derived e \<longleftrightarrow> ed_Source e \<in> {''resolve_pass'', ''binding_pass''}"

text \<open>Every edge made by a pass has its ends in the symbols table.\<close>

definition edge_known :: "graph \<Rightarrow> edge \<Rightarrow> bool" where
  "edge_known g e \<longleftrightarrow> known g (ed_ProjectID e) (ed_FromID e) \<and> known g (ed_ProjectID e) (ed_ToID e)"

definition graph_closed :: "graph \<Rightarrow> bool" where
  "graph_closed g \<longleftrightarrow> (\<forall>e \<in> set (gr_edges g). derived e \<longrightarrow> edge_known g e)"

text \<open>What a pass over a project may not touch: the rows of others, extracted edges, deferred edges, fields.\<close>

definition untouched :: "string \<Rightarrow> graph \<Rightarrow> graph \<Rightarrow> bool" where
  "untouched pid g g' \<longleftrightarrow>
     filter (\<lambda>s. sy_ProjectID s \<noteq> pid) (gr_symbols g') = filter (\<lambda>s. sy_ProjectID s \<noteq> pid) (gr_symbols g) \<and>
     filter (\<lambda>e. ed_ProjectID e \<noteq> pid \<or> \<not> derived e) (gr_edges g') = filter (\<lambda>e. ed_ProjectID e \<noteq> pid \<or> \<not> derived e) (gr_edges g) \<and>
     gr_fields g' = gr_fields g \<and> gr_pending g' = gr_pending g"

lemma untouched_refl [simp]: "untouched pid g g"
  by (simp add: untouched_def)

lemma untouched_trans: "untouched pid g1 g2 \<Longrightarrow> untouched pid g2 g3 \<Longrightarrow> untouched pid g1 g3"
  by (simp add: untouched_def)

text \<open>
  What a pass may do to the graph.  \<open>K\<close> are ids that it was given beforehand, such as those of a
  preloaded map.
\<close>

definition sound_step :: "string \<Rightarrow> string set \<Rightarrow> graph \<Rightarrow> graph \<Rightarrow> bool" where
  "sound_step pid K g g' \<longleftrightarrow>
     (\<forall>p i. known g p i \<longrightarrow> known g' p i) \<and> untouched pid g g' \<and>
     ((\<forall>i \<in> K. known g pid i) \<longrightarrow> graph_closed g \<longrightarrow> graph_closed g')"

lemma sound_step_refl [simp]: "sound_step pid K g g"
  by (simp add: sound_step_def)

lemma sound_step_trans: "sound_step pid K g1 g2 \<Longrightarrow> sound_step pid K g2 g3 \<Longrightarrow> sound_step pid K g1 g3"
  unfolding sound_step_def using untouched_trans by blast

text \<open>The contract.\<close>

locale graph_pass =
  fixes pid :: string and K :: "string set" and run :: "graph \<Rightarrow> graph"
  assumes sound: "sound_step pid K g (run g)"
begin

lemma forgets_none: "known g p i \<Longrightarrow> known (run g) p i"
  using sound by (simp add: sound_step_def)

lemma leaves_others: "untouched pid g (run g)"
  using sound by (simp add: sound_step_def)

text \<open>It may run any number of times.\<close>

lemma repeated: "sound_step pid K g ((run ^^ n) g)"
proof (induction n)
  case (Suc n)
  from sound_step_trans [OF this sound] show ?case by simp
qed simp

end

lemma graph_pass_comp: "graph_pass pid K f \<Longrightarrow> graph_pass pid K h \<Longrightarrow> graph_pass pid K (\<lambda>g. h (f g))"
  unfolding graph_pass_def using sound_step_trans by blast

lemma graph_pass_id: "graph_pass pid K (\<lambda>g. g)"
  by (simp add: graph_pass_def)

lemma graph_pass_fold: "(\<And>x. x \<in> set xs \<Longrightarrow> graph_pass pid K (f x)) \<Longrightarrow> graph_pass pid K (fold f xs)"
proof (induction xs)
  case (Cons x xs)
  have "graph_pass pid K (f x)" "graph_pass pid K (fold f xs)" using Cons by simp_all
  from graph_pass_comp [OF this] have "graph_pass pid K (\<lambda>g. fold f xs (f x g))" .
  then show ?case by (simp add: comp_def)
qed (simp add: graph_pass_id id_def)

section \<open>The writes\<close>

lemma known_upsert: "known (upsert_symbol s g) p i \<longleftrightarrow> known g p i \<or> (p = sy_ProjectID s \<and> i = sy_ID s)"
  by (auto simp: known_def upsert_symbol_def)

lemma known_bulk: "known (BulkUpsertSymbols ss g) p i \<longleftrightarrow> known g p i \<or> (\<exists>s \<in> set ss. p = sy_ProjectID s \<and> i = sy_ID s)"
  by (induction ss arbitrary: g) (auto simp: BulkUpsertSymbols_def known_upsert)

lemma bulk_parts [simp]:
  "gr_edges (BulkUpsertSymbols ss g) = gr_edges g" "gr_fields (BulkUpsertSymbols ss g) = gr_fields g"
  "gr_pending (BulkUpsertSymbols ss g) = gr_pending g"
  by (induction ss arbitrary: g) (simp_all add: BulkUpsertSymbols_def upsert_symbol_def)

lemma bulk_untouched: "\<forall>s \<in> set ss. sy_ProjectID s = pid \<Longrightarrow> untouched pid g (BulkUpsertSymbols ss g)"
proof (induction ss arbitrary: g)
  case (Cons s ss)
  have "filter (\<lambda>s. sy_ProjectID s \<noteq> pid) (gr_symbols (upsert_symbol s g)) = filter (\<lambda>s. sy_ProjectID s \<noteq> pid) (gr_symbols g)"
    using Cons.prems by (auto simp: upsert_symbol_def intro: filter_cong)
  then have "untouched pid g (upsert_symbol s g)" by (simp add: untouched_def upsert_symbol_def)
  moreover have "untouched pid (upsert_symbol s g) (BulkUpsertSymbols ss (upsert_symbol s g))"
    using Cons.IH Cons.prems by simp
  ultimately have "untouched pid g (BulkUpsertSymbols ss (upsert_symbol s g))" by (rule untouched_trans)
  then show ?case by (simp add: BulkUpsertSymbols_def)
qed (simp add: BulkUpsertSymbols_def)

lemma bulk_step: "\<forall>s \<in> set ss. sy_ProjectID s = pid \<Longrightarrow> sound_step pid K g (BulkUpsertSymbols ss g)"
  by (auto simp: sound_step_def known_bulk bulk_untouched graph_closed_def edge_known_def)

lemma known_edges [simp]: "known (g\<lparr>gr_edges := es\<rparr>) p i \<longleftrightarrow> known g p i"
  by (simp add: known_def)

text \<open>The edges of a pass are of the project and derived.\<close>

definition own_edges :: "string \<Rightarrow> edge list \<Rightarrow> bool" where
  "own_edges pid es \<longleftrightarrow> (\<forall>e \<in> set es. ed_ProjectID e = pid \<and> derived e)"

lemma insert_edges_spec:
  "own_edges pid es \<Longrightarrow>
   filter (\<lambda>e. ed_ProjectID e \<noteq> pid \<or> \<not> derived e) (fold insert_edge es old) = filter (\<lambda>e. ed_ProjectID e \<noteq> pid \<or> \<not> derived e) old \<and>
   set (fold insert_edge es old) \<subseteq> set old \<union> set es"
proof (induction es arbitrary: old)
  case (Cons e es)
  have e: "ed_ProjectID e = pid" "derived e" and rest: "own_edges pid es" using Cons.prems by (auto simp: own_edges_def)
  have src: "ed_Source e \<noteq> []" using e(2) by (auto simp: derived_def)
  then have ins: "insert_edge e old = (if list_ex (same_edge e) old then old else old @ [e])" by (simp add: insert_edge_def)
  show ?case using Cons.IH [OF rest, of "insert_edge e old"] e ins by (auto split: if_splits)
qed simp

text \<open>A statement that deletes derived edges of the project.\<close>

lemma delete_step:
  assumes "\<And>e. P e \<Longrightarrow> ed_ProjectID e = pid \<and> derived e"
  shows "sound_step pid K g (g\<lparr>gr_edges := filter (\<lambda>e. \<not> P e) (gr_edges g)\<rparr>)"
proof -
  have "filter (\<lambda>e. ed_ProjectID e \<noteq> pid \<or> \<not> derived e) (filter (\<lambda>e. \<not> P e) (gr_edges g)) =
      filter (\<lambda>e. ed_ProjectID e \<noteq> pid \<or> \<not> derived e) (gr_edges g)"
    using assms by (auto intro!: filter_cong)
  then show ?thesis by (auto simp: sound_step_def untouched_def graph_closed_def edge_known_def)
qed

lemma derived_source: "source \<in> {''resolve_pass'', ''binding_pass''} \<Longrightarrow> ed_Source e = source \<Longrightarrow> derived e"
  by (simp add: derived_def)

lemma scoped_delete_step:
  assumes "source \<in> {''resolve_pass'', ''binding_pass''}"
  shows "sound_step pid K g (DeleteEdgesByKindAndSourceForSourceFiles pid kind source files g)"
  using delete_step [of "\<lambda>e. ed_ProjectID e = pid \<and> ed_Kind e = kind \<and> ed_Source e = source \<and> from_in_files g pid files e" pid K g]
    derived_source [OF assms] by (simp add: DeleteEdgesByKindAndSourceForSourceFiles_def)

lemma clear_scope_step: "sound_step pid K g (clear_scope ft pid kind files g)"
  by (simp add: clear_scope_def DeleteResolvePassEdgesByKindForSourceFiles_def scoped_delete_step)

lemma insert_closed:
  assumes own: "own_edges pid es" and ends: "\<forall>e \<in> set es. edge_known g e" and closed: "graph_closed g"
  shows "graph_closed (insertEdgesTx es g)"
proof (unfold graph_closed_def, intro ballI impI)
  fix e assume "e \<in> set (gr_edges (insertEdgesTx es g))" "derived e"
  then have "e \<in> set (gr_edges g) \<or> e \<in> set es" using insert_edges_spec [OF own, of "gr_edges g"] by (auto simp: insertEdgesTx_def)
  then have "edge_known g e" using \<open>derived e\<close> closed ends by (auto simp: graph_closed_def)
  then show "edge_known (insertEdgesTx es g) e" by (simp add: edge_known_def insertEdgesTx_def)
qed

lemma known_replace [simp]: "known (ReplaceEdgesByKindSource pid kind source files es g) p i \<longleftrightarrow> known g p i"
  by (simp add: ReplaceEdgesByKindSource_def insertEdgesTx_def DeleteEdgesByKindAndSourceForSourceFiles_def)

lemma edge_known_mono: "(\<And>p i. known g p i \<Longrightarrow> known h p i) \<Longrightarrow> edge_known g e \<Longrightarrow> edge_known h e"
  by (simp add: edge_known_def)

text \<open>A replacement deletes derived edges and inserts those of the pass.\<close>

lemma replace_facts:
  assumes src: "source \<in> {''resolve_pass'', ''binding_pass''}" and own: "own_edges pid es"
  shows "untouched pid g (ReplaceEdgesByKindSource pid kind source files es g)"
    and "\<forall>e \<in> set es. edge_known g e \<Longrightarrow> graph_closed g \<Longrightarrow> graph_closed (ReplaceEdgesByKindSource pid kind source files es g)"
proof -
  define d where "d = (if files \<noteq> [] then DeleteEdgesByKindAndSourceForSourceFiles pid kind source files g
        else g\<lparr>gr_edges := filter (\<lambda>e. \<not> (ed_ProjectID e = pid \<and> ed_Kind e = kind \<and> ed_Source e = source)) (gr_edges g)\<rparr>)"
  have dk: "known d p i \<longleftrightarrow> known g p i" for p i
    by (simp add: d_def DeleteEdgesByKindAndSourceForSourceFiles_def)
  have d: "sound_step pid {} g d"
    using delete_step [of "\<lambda>e. ed_ProjectID e = pid \<and> ed_Kind e = kind \<and> ed_Source e = source" pid "{}" g]
      scoped_delete_step [OF src, of pid "{}" g kind files] derived_source [OF src] by (simp add: d_def)
  have g': "ReplaceEdgesByKindSource pid kind source files es g = insertEdgesTx es d"
    by (simp add: ReplaceEdgesByKindSource_def d_def)
  have "untouched pid d (insertEdgesTx es d)"
    using insert_edges_spec [OF own, of "gr_edges d"] by (simp add: insertEdgesTx_def untouched_def)
  then show "untouched pid g (ReplaceEdgesByKindSource pid kind source files es g)"
    using d untouched_trans [of pid g d] by (simp add: g' sound_step_def)
  show "graph_closed (ReplaceEdgesByKindSource pid kind source files es g)" if "\<forall>e \<in> set es. edge_known g e" "graph_closed g"
    unfolding g' by (rule insert_closed [OF own]) (use that d dk in \<open>simp_all add: edge_known_def sound_step_def\<close>)
qed

lemma replace_step:
  assumes "source \<in> {''resolve_pass'', ''binding_pass''}" "own_edges pid es" "\<forall>i \<in> K. known g pid i \<Longrightarrow> \<forall>e \<in> set es. edge_known g e"
  shows "sound_step pid K g (ReplaceEdgesByKindSource pid kind source files es g)"
  using replace_facts [OF assms(1,2)] assms(3) by (auto simp: sound_step_def)

text \<open>An edge list of one pass, with the modules made for it.\<close>

lemma replace_edges_step:
  assumes "own_edges pid es" "\<forall>i \<in> K. known g pid i \<Longrightarrow> \<forall>e \<in> set es. edge_known g e"
  shows "sound_step pid K g (snd (replace_edges ft pid kind files es g))"
  using replace_step [of "''resolve_pass''" pid es K g kind files] assms by (simp add: replace_edges_def)

definition made_ok :: "string \<Rightarrow> (string \<times> sym) list \<Rightarrow> bool" where
  "made_ok pid ms \<longleftrightarrow> (\<forall>(i, s) \<in> set ms. sy_ID s = i \<and> sy_ProjectID s = pid)"

definition ends_in :: "string set \<Rightarrow> string set \<Rightarrow> edge list \<Rightarrow> bool" where
  "ends_in F T es \<longleftrightarrow> (\<forall>e \<in> set es. ed_FromID e \<in> F \<and> ed_ToID e \<in> T)"

lemma made_ok_update: "made_ok pid ms \<Longrightarrow> sy_ProjectID s = pid \<Longrightarrow> made_ok pid (AList.update (sy_ID s) s ms)"
  by (induction ms) (auto simp: made_ok_def)

lemma keys_update [simp]: "fst ` set (AList.update k v ms) = insert k (fst ` set ms)"
  by (simp add: dom_update)

lemma made_known:
  assumes "made_ok pid ms" "i \<in> fst ` set ms"
  shows "known (BulkUpsertSymbols (map snd ms) g) pid i"
  using assms by (force simp: made_ok_def known_bulk)

lemma ends_edge_known:
  assumes "own_edges pid es" "ends_in F T es" "\<And>i. i \<in> F \<union> T \<Longrightarrow> known g pid i" "e \<in> set es"
  shows "edge_known g e"
  using assms by (simp add: own_edges_def ends_in_def edge_known_def)

lemma built_step:
  assumes own: "own_edges pid es" and made: "made_ok pid ms"
    and ends: "ends_in (I \<union> fst ` set ms) (I \<union> fst ` set ms) es"
    and known: "\<forall>i \<in> K. known g pid i \<Longrightarrow> \<forall>i \<in> I. known g pid i"
  shows "sound_step pid K g (snd (replace_edges ft pid kind files es (BulkUpsertSymbols (map snd ms) g)))"
proof -
  let ?h = "BulkUpsertSymbols (map snd ms) g"
  have b: "sound_step pid K g ?h" using made by (intro bulk_step) (auto simp: made_ok_def)
  have kn: "known ?h pid i" if "\<forall>i \<in> I. known g pid i" "i \<in> I \<union> fst ` set ms" for i
    using made_known [OF made, of i g] that known_bulk [of _ g pid i] by blast
  have "\<forall>e \<in> set es. edge_known ?h e" if "\<forall>i \<in> I. known g pid i"
    using ends_edge_known [OF own ends, of ?h] kn [OF that] by blast
  then have "sound_step pid K g (ReplaceEdgesByKindSource pid kind ''resolve_pass'' files es ?h)"
    using b known replace_facts [OF _ own, of "''resolve_pass''" ?h kind files] untouched_trans [of pid g ?h]
    by (simp add: sound_step_def)
  then show ?thesis using b by (simp add: replace_edges_def)
qed

section \<open>The ids a lookup can give\<close>

definition preload_ids :: "sym list option \<Rightarrow> string set" where
  "preload_ids qnMap = (case qnMap of None \<Rightarrow> {} | Some m \<Rightarrow> sy_ID ` set m)"

definition lookup_ids :: "graph \<Rightarrow> string \<Rightarrow> sym list option \<Rightarrow> string set" where
  "lookup_ids g pid qnMap = sy_ID ` set (syms_of g pid) \<union> preload_ids qnMap"

lemma lookup_ids_known: "\<forall>i \<in> preload_ids qnMap. known g pid i \<Longrightarrow> \<forall>i \<in> lookup_ids g pid qnMap. known g pid i"
  by (auto simp: lookup_ids_def known_def syms_of_def)

definition pick_ok :: "string set \<Rightarrow> string \<Rightarrow> bool" where
  "pick_ok I i \<longleftrightarrow> i = [] \<or> i \<in> I"

lemma pick_ok_Nil [simp]: "pick_ok I []"
  by (simp add: pick_ok_def)

lemma pick_okD: "pick_ok I i \<Longrightarrow> i \<noteq> [] \<Longrightarrow> i \<in> I"
  by (simp add: pick_ok_def)

lemma pick_ok_canonical: "sy_ID ` set syms \<subseteq> I \<Longrightarrow> pick_ok I (pickCanonical syms)"
  using pickCanonical_in [of syms] by (cases "syms = []") (auto simp: pick_ok_def pickCanonical_Min)

lemma lookup_syms_ids: "sy_ID ` set (lookup_syms g pid qnMap qn) \<subseteq> lookup_ids g pid qnMap"
  by (auto simp: lookup_syms_def lookup_ids_def preload_ids_def GetSymbolsByQN_def split: option.splits)

lemma list_ids:
  "sy_ID ` set (ListSymbolsForProject g pid) \<subseteq> sy_ID ` set (syms_of g pid)"
  "sy_ID ` set (GetSymbolsForFile g pid path) \<subseteq> sy_ID ` set (syms_of g pid)"
  "sy_ID ` set (GetSymbolsByName g pid name n) \<subseteq> sy_ID ` set (syms_of g pid)"
  by (auto simp: ListSymbolsForProject_def GetSymbolsForFile_def GetSymbolsByName_def dest: in_set_takeD)

lemma first_nonempty_ok: "(\<And>c. pick_ok I (f c)) \<Longrightarrow> pick_ok I (first_nonempty f cs)"
  by (induction cs) simp_all

lemma foldl_keeps: "P st \<Longrightarrow> (\<And>st x. P st \<Longrightarrow> P (f st x)) \<Longrightarrow> P (foldl f st xs)"
  by (induction xs arbitrary: st) auto

section \<open>The passes without caches\<close>

text \<open>What holds of the edges and modules while they are built.\<close>

definition built :: "string \<Rightarrow> string set \<Rightarrow> edge list \<Rightarrow> (string \<times> sym) list \<Rightarrow> bool" where
  "built pid I es ms \<longleftrightarrow> own_edges pid es \<and> made_ok pid ms \<and> ends_in (I \<union> fst ` set ms) (I \<union> fst ` set ms) es"

lemma built_Nil [simp]: "built pid I [] []"
  by (simp add: built_def own_edges_def made_ok_def ends_in_def)

lemma built_update:
  assumes "built pid I es ms" "sy_ProjectID s = pid"
  shows "built pid I es (AList.update (sy_ID s) s ms)"
  using assms made_ok_update [of pid ms s] by (auto simp: built_def ends_in_def)

lemma built_snoc:
  "built pid I es ms \<Longrightarrow> a \<in> I \<union> fst ` set ms \<Longrightarrow> b \<in> I \<union> fst ` set ms \<Longrightarrow> built pid I (es @ [pass_edge pid kind branch e a b]) ms"
  by (simp add: built_def own_edges_def ends_in_def pass_edge_def derived_def)

lemma made_project [simp]:
  "sy_ProjectID (externalModuleSymbol pid n) = pid" "sy_ProjectID (syntheticFileModuleSymbol l pid f q) = pid"
  by (simp_all add: externalModuleSymbol_def syntheticFileModuleSymbol_def Let_def)

lemma built_filter: "built pid I es ms \<Longrightarrow> built pid I (filter P es) ms"
  by (auto simp: built_def own_edges_def ends_in_def)

lemma built_pass:
  assumes "built pid (lookup_ids g pid qnMap) es ms"
  shows "sound_step pid (preload_ids qnMap) g (snd (replace_edges ft pid kind files es (BulkUpsertSymbols (map snd ms) g)))"
  by (rule built_step [where I = "lookup_ids g pid qnMap"]) (use assms lookup_ids_known in \<open>auto simp: built_def\<close>)

lemma built_pass_plain:
  assumes "built pid (lookup_ids g pid qnMap) es []"
  shows "sound_step pid (preload_ids qnMap) g (snd (replace_edges ft pid kind files es g))"
  using built_pass [OF assms] by (simp add: BulkUpsertSymbols_def)

lemma import_target_ok: "pick_ok (lookup_ids g pid qnMap) (import_target g pid qnMap roots e)"
proof -
  have "pick_ok (lookup_ids g pid qnMap) (lookupPythonTarget g pid qnMap qn)" for qn
    unfolding lookupPythonTarget_def excludeNonCodeSyms_def
    by (rule pick_ok_canonical) (use lookup_syms_ids [of g pid qnMap qn] in auto)
  then show ?thesis
    by (simp add: import_target_def first_nonempty_ok pick_ok_canonical lookup_syms_ids)
qed

lemma import_step_built:
  assumes "built pid (lookup_ids g pid qnMap) (fst st) (snd st)" "\<forall>e \<in> set (fst st). ed_FromID e \<in> lookup_ids g pid qnMap"
  shows "built pid (lookup_ids g pid qnMap) (fst (import_step g pid qnMap roots st e)) (snd (import_step g pid qnMap roots st e)) \<and>
    (\<forall>x \<in> set (fst (import_step g pid qnMap roots st e)). ed_FromID x \<in> lookup_ids g pid qnMap)"
proof -
  let ?I = "lookup_ids g pid qnMap" and ?from = "pickCanonical (lookup_syms g pid qnMap (pe_FromQN e))"
    and ?to = "import_target g pid qnMap roots e" and ?x = "externalModuleSymbol pid (pe_ToName e)"
  have f: "?from \<noteq> [] \<Longrightarrow> ?from \<in> ?I" by (rule pick_okD [OF pick_ok_canonical [OF lookup_syms_ids]])
  have t: "?to \<noteq> [] \<Longrightarrow> ?to \<in> ?I" by (rule pick_okD [OF import_target_ok])
  have x: "built pid ?I (fst st) (AList.update (sy_ID ?x) ?x (snd st))" by (rule built_update [OF assms(1)]) simp
  show ?thesis
    using assms f t built_snoc [OF assms(1), of ?from ?to] built_snoc [OF x, of ?from "sy_ID ?x"] x
    by (cases st) (auto simp: import_step_def Let_def pass_edge_def)
qed

lemma resolveImports_step: "sound_step pid (preload_ids qnMap) g (snd (resolveImports ft pid pend roots qnMap files g))"
proof (cases "pend = []")
  case False
  let ?I = "lookup_ids g pid qnMap"
  obtain es exts where r: "foldl (import_step g pid qnMap roots) ([], []) pend = (es, exts)" by fastforce
  have "built pid ?I (fst (es, exts)) (snd (es, exts)) \<and> (\<forall>x \<in> set (fst (es, exts)). ed_FromID x \<in> ?I)"
    unfolding r [symmetric] by (rule foldl_keeps) (simp, rule import_step_built, auto)
  then have b: "built pid ?I es exts" and f: "\<forall>x \<in> set es. ed_FromID x \<in> ?I" by simp_all
  have "built pid ?I (filter (\<lambda>e. map_of exts (ed_ToID e) = None) es) []"
    using built_filter [OF b] f by (auto simp: built_def ends_in_def made_ok_def map_of_eq_None_iff)
  from built_pass_plain [OF this, of ft "''IMPORTS''" files] built_pass [OF b, of ft "''IMPORTS''" files]
  show ?thesis using False r by (auto simp: resolveImports_def BulkUpsertSymbols_def)
qed (simp add: resolveImports_def clear_scope_step)

lemma pick_ok_list:
  "pick_ok (sy_ID ` set (syms_of g pid)) (pickCanonical (filter P (ListSymbolsForProject g pid)))"
  by (rule pick_ok_canonical) (use list_ids(1) [of g pid] in auto)

lemma pick_twice:
  "(let i = a; i = (if i = [] \<and> f \<noteq> [] then b else i) in if i = [] \<and> f \<noteq> [] then let s = x in (k s, Some s) else (i, None)) =
   (if a = [] \<and> f \<noteq> [] then if b = [] then (k x, Some x) else (b, None) else (a, None))"
  unfolding Let_def by (cases a; cases f; cases b) simp_all

lemma uses_from_facts:
  assumes "uses_from lang_of g pid qn file = (i, m)"
  shows "case m of None \<Rightarrow> pick_ok (sy_ID ` set (syms_of g pid)) i | Some s \<Rightarrow> sy_ID s = i \<and> sy_ProjectID s = pid"
proof -
  define a where "a = pickCanonical (filter (\<lambda>s. sy_Kind s = ''Module'' \<and> sy_QN s = qn) (ListSymbolsForProject g pid))"
  define b where "b = pickCanonical (filter (\<lambda>s. sy_FilePath s = file) (ListSymbolsForProject g pid))"
  define s where "s = syntheticFileModuleSymbol lang_of pid file qn"
  have ok: "pick_ok (sy_ID ` set (syms_of g pid)) a" "pick_ok (sy_ID ` set (syms_of g pid)) b"
    by (simp_all add: a_def b_def pick_ok_list)
  have "sy_ProjectID s = pid" by (simp add: s_def)
  moreover have "uses_from lang_of g pid qn file =
      (if a = [] \<and> file \<noteq> [] then if b = [] then (sy_ID s, Some s) else (b, None) else (a, None))"
    unfolding uses_from_def a_def [symmetric] b_def [symmetric] s_def [symmetric] by (rule pick_twice)
  ultimately show ?thesis using ok assms by (cases "a = [] \<and> file \<noteq> []"; cases "b = []") auto
qed

lemma uses_step_built:
  fixes st :: "edge list \<times> (string \<times> sym) list"
  assumes "built pid (lookup_ids g pid None) (fst st) (snd st) \<and> (\<forall>x \<in> set (fst st). ed_ToID x \<in> lookup_ids g pid None)"
  shows "built pid (lookup_ids g pid None) (fst (uses_step lang_of g pid st e)) (snd (uses_step lang_of g pid st e)) \<and>
    (\<forall>x \<in> set (fst (uses_step lang_of g pid st e)). ed_ToID x \<in> lookup_ids g pid None)"
proof -
  let ?I = "lookup_ids g pid None" and ?to = "uses_to g pid (pe_ToName e)"
  obtain es ms where st: "st = (es, ms)" by fastforce
  obtain i m where u: "uses_from lang_of g pid (pe_FromQN e) (pe_FromFile e) = (i, m)" by fastforce
  define ms' where "ms' = (case m of None \<Rightarrow> ms | Some s \<Rightarrow> AList.update (sy_ID s) s ms)"
  have I: "?I = sy_ID ` set (syms_of g pid)" by (simp add: lookup_ids_def preload_ids_def)
  have i: "i \<noteq> [] \<Longrightarrow> i \<in> ?I \<union> fst ` set ms'" and b: "built pid ?I es ms'"
    using uses_from_facts [OF u] assms built_update [of pid ?I es ms] by (auto simp: st ms'_def I pick_ok_def split: option.splits)
  have t: "?to \<noteq> [] \<Longrightarrow> ?to \<in> ?I" unfolding uses_to_def I
    by (rule pick_okD [OF pick_ok_canonical]) (use list_ids(1) [of g pid] in auto)
  have "uses_step lang_of g pid st e =
      (if i = [] \<or> ?to = [] \<or> seen_pair es i ?to then (es, ms') else (es @ [pass_edge pid ''USES_VAR'' [] e i ?to], ms'))"
    by (simp add: uses_step_def st u ms'_def Let_def)
  then show ?thesis using assms b i t built_snoc [OF b, of i ?to] by (auto simp: st pass_edge_def)
qed

lemma resolveUsesVar_step: "sound_step pid {} g (snd (resolveUsesVar lang_of ft pid pend files g))"
proof (cases "pend = []")
  case False
  let ?I = "lookup_ids g pid None"
  obtain es ms where r: "foldl (uses_step lang_of g pid) ([], []) pend = (es, ms)" by fastforce
  have "built pid ?I (fst (es, ms)) (snd (es, ms)) \<and> (\<forall>x \<in> set (fst (es, ms)). ed_ToID x \<in> ?I)"
    unfolding r [symmetric] by (rule foldl_keeps) (simp, rule uses_step_built, assumption)
  then have b: "built pid ?I es ms" and t: "\<forall>x \<in> set es. ed_ToID x \<in> ?I" by simp_all
  have "built pid ?I (filter (\<lambda>e. map_of ms (ed_FromID e) = None) es) []"
    using built_filter [OF b] t by (auto simp: built_def ends_in_def made_ok_def map_of_eq_None_iff)
  from built_pass_plain [OF this, of ft "''USES_VAR''" files] built_pass [OF b, of ft "''USES_VAR''" files]
  show ?thesis using False r by (auto simp: resolveUsesVar_def BulkUpsertSymbols_def preload_ids_def)
qed (simp add: resolveUsesVar_def clear_scope_step)

lemma pick_ok_find: "sy_ID ` set syms \<subseteq> I \<Longrightarrow> pick_ok I (found_id (find P syms))"
proof (cases "find P syms")
  case (Some s)
  then have "s \<in> set syms" by (auto simp: find_Some_iff)
  then show "sy_ID ` set syms \<subseteq> I \<Longrightarrow> ?thesis" using Some by (auto simp: found_id_def pick_ok_def)
qed (simp add: found_id_def)

lemma pick_ok_find_file:
  "pick_ok (sy_ID ` set (syms_of g pid)) (found_id (find P (GetSymbolsForFile g pid path)))"
  "pick_ok (sy_ID ` set (syms_of g pid)) (found_id (find P (rev (GetSymbolsForFile g pid path))))"
  by (simp_all add: pick_ok_find list_ids)

lemma ref_ids:
  "pick_ok (sy_ID ` set (syms_of g pid)) (ref_from g pid path qn)" "pick_ok (sy_ID ` set (syms_of g pid)) (ref_target g pid p)"
proof -
  have "pick_ok (sy_ID ` set (syms_of g pid)) (sy_ID s)" if "find P (GetSymbolsForFile g pid path) = Some s" for P s
    using pick_ok_find_file(1) [of g pid P path] that by (simp add: found_id_def)
  then show "pick_ok (sy_ID ` set (syms_of g pid)) (ref_from g pid path qn)"
    by (simp add: ref_from_def Let_def pick_ok_find_file split: option.split)
  show "pick_ok (sy_ID ` set (syms_of g pid)) (ref_target g pid p)"
    by (simp add: ref_target_def Let_def pick_ok_find_file split: option.split prod.split)
qed

lemma ref_step_built:
  assumes "built pid (lookup_ids g pid None) es []"
  shows "built pid (lookup_ids g pid None) (ref_step g pid branch es p) []"
proof -
  have I: "lookup_ids g pid None = sy_ID ` set (syms_of g pid)" by (simp add: lookup_ids_def preload_ids_def)
  show ?thesis
    using assms built_snoc [OF assms, of "ref_from g pid (pe_FromFile p) (pe_FromQN p)" "ref_target g pid p"]
      pick_okD [OF ref_ids(1)] pick_okD [OF ref_ids(2)]
    by (simp add: ref_step_def Let_def I)
qed

lemma resolveReferences_step: "sound_step pid {} g (snd (resolveReferences ft branch pid pend files g))"
proof (cases "pend = []")
  case False
  have "built pid (lookup_ids g pid None) (foldl (ref_step g pid branch) [] pend) []"
    by (rule foldl_keeps [where P = "\<lambda>es. built pid (lookup_ids g pid None) es []"]) (simp_all add: ref_step_built)
  from built_pass_plain [OF this, of ft "''REFERENCES''" files] show ?thesis
    using False by (simp add: resolveReferences_def preload_ids_def)
qed (simp add: resolveReferences_def clear_scope_step)

lemma pickFileModule_facts:
  assumes "pickFileModule lang_of g pid path hint ext = (i, m)"
  shows "case m of None \<Rightarrow> pick_ok (sy_ID ` set (syms_of g pid)) i
    | Some (Synth s) \<Rightarrow> sy_ID s = i \<and> sy_ProjectID s = pid | Some (External s) \<Rightarrow> sy_ID s = i \<and> sy_ProjectID s = pid"
proof -
  have "pick_ok (sy_ID ` set (syms_of g pid)) (sy_ID s)" if "find P (GetSymbolsForFile g pid path) = Some s" for P s
    using pick_ok_find_file(1) [of g pid P path] that by (simp add: found_id_def)
  then show ?thesis using assms by (auto simp: pickFileModule_def Let_def split: if_splits option.splits)
qed

text \<open>The two maps of modules count as one.\<close>

definition built2 :: "string \<Rightarrow> string set \<Rightarrow> edge list \<times> (string \<times> sym) list \<times> (string \<times> sym) list \<Rightarrow> bool" where
  "built2 pid I st \<longleftrightarrow> built pid I (fst st) (fst (snd st) @ snd (snd st))"

lemma built2_note:
  assumes "built2 pid I (es, mds)" "pickFileModule lang_of g pid path hint ext = (i, m)" "I = sy_ID ` set (syms_of g pid)"
  shows "built2 pid I (es, note_made m mds) \<and> (i \<noteq> [] \<longrightarrow> i \<in> I \<union> fst ` set (fst (note_made m mds) @ snd (note_made m mds))) \<and>
    fst ` set (fst mds @ snd mds) \<subseteq> fst ` set (fst (note_made m mds) @ snd (note_made m mds))"
proof -
  have ups: "made_ok pid (xs @ ys) \<longleftrightarrow> made_ok pid xs \<and> made_ok pid ys" for xs ys by (auto simp: made_ok_def)
  have sub: "own_edges pid es' \<Longrightarrow> made_ok pid ms \<Longrightarrow> ends_in (I \<union> A) (I \<union> A) es' \<Longrightarrow> A \<subseteq> fst ` set ms \<Longrightarrow> built pid I es' ms" for es' ms A
    by (auto simp: built_def ends_in_def)
  show ?thesis
    using assms(1,3) pickFileModule_facts [OF assms(2)] made_ok_update [of pid "fst mds"] made_ok_update [of pid "snd mds"]
    by (auto simp: built2_def built_def note_made_def ups image_Un pick_ok_def ends_in_def split: option.splits made.splits)
qed

lemma file_step_built2:
  assumes "built2 pid (sy_ID ` set (syms_of g pid)) st"
  shows "built2 pid (sy_ID ` set (syms_of g pid)) (file_step lang_of g pid kind branch st p)"
proof -
  let ?I = "sy_ID ` set (syms_of g pid)"
  obtain es mds where st: "st = (es, mds)" by (rule prod.exhaust)
  obtain i m1 where p1: "pickFileModule lang_of g pid (pe_FromFile p) (pe_FromQN p) False = (i, m1)" by fastforce
  obtain j m2 where p2: "pickFileModule lang_of g pid (pe_ToName p) [] True = (j, m2)" by fastforce
  let ?m1 = "note_made m1 mds" let ?m2 = "note_made m2 ?m1"
  note n1 = built2_note [OF assms [unfolded st] p1 refl]
  note n2 = built2_note [OF conjunct1 [OF n1] p2 refl]
  have b: "built pid ?I es (fst ?m2 @ snd ?m2)" using n2 by (simp add: built2_def)
  have "i \<noteq> [] \<Longrightarrow> i \<in> ?I \<union> fst ` set (fst ?m2 @ snd ?m2)" "j \<noteq> [] \<Longrightarrow> j \<in> ?I \<union> fst ` set (fst ?m2 @ snd ?m2)"
    using n1 n2 by blast+
  then have "built pid ?I (es @ [pass_edge pid kind branch p i j]) (fst ?m2 @ snd ?m2)" if "i \<noteq> []" "j \<noteq> []"
    using built_snoc [OF b] that by simp
  then show ?thesis using assms b by (simp add: file_step_def st p1 p2 built2_def Let_def)
qed

lemma resolveFilePathEdges_step: "sound_step pid {} g (snd (resolveFilePathEdges lang_of ft branch pid kind pend files g))"
proof (cases "pend = []")
  case False
  let ?I = "sy_ID ` set (syms_of g pid)"
  obtain es a b where r: "foldl (file_step lang_of g pid kind branch) ([], [], []) pend = (es, a, b)" by (metis prod_cases3)
  have "built2 pid ?I (es, a, b)"
    unfolding r [symmetric] by (rule foldl_keeps) (simp add: built2_def, rule file_step_built2)
  then have "built pid (lookup_ids g pid None) es (a @ b)" by (simp add: built2_def lookup_ids_def preload_ids_def)
  from built_pass [OF this, of ft kind files] show ?thesis
    using False r by (auto simp: resolveFilePathEdges_def preload_ids_def BulkUpsertSymbols_def Let_def)
qed (simp add: resolveFilePathEdges_def clear_scope_step)

end
