(* ===== verification/Call_Resolve_Props.thy ===== *)
theory Call_Resolve_Props
  imports Edge_Resolve_Props
begin

text \<open>
  Calls and reads.  What a cached lookup answers does not depend on the cache: the target of a call is a
  function of the graph and the call alone.  All passes keep the graph sound, so the whole block does.
\<close>

section \<open>Consistent caches\<close>

definition cx_ids :: "ctx \<Rightarrow> string set" where
  "cx_ids cx = lookup_ids (cx_graph cx) (cx_pid cx) (cx_qnMap cx)"

definition qn_syms :: "ctx \<Rightarrow> string \<Rightarrow> sym list" where
  "qn_syms cx qn = excludeNonCodeSyms (cx_syms cx qn)"

text \<open>Symbols of a name, qualified or not, that are build-tag siblings of another one.\<close>

definition named :: "ctx \<Rightarrow> string \<Rightarrow> sym set" where
  "named cx k = set (qn_syms cx k) \<union> set (name_candidates cx k)"

definition sib_ids :: "ctx \<Rightarrow> string \<Rightarrow> string set" where
  "sib_ids cx k = {sy_ID s | s. s \<in> named cx k \<and> (\<exists>t \<in> named cx k. isBuildTagSibling (sy_FilePath s) (sy_FilePath t))}"

definition consistent :: "ctx \<Rightarrow> caches \<Rightarrow> bool" where
  "consistent cx c \<longleftrightarrow>
     (\<forall>q i. map_of (cc_qn c) q = Some i \<longrightarrow> i = pickCanonical (qn_syms cx q)) \<and>
     (\<forall>n i. map_of (cc_name c) n = Some i \<longrightarrow> i = pickCanonical (name_candidates cx n)) \<and>
     (\<forall>n d i. map_of (cc_nameDir c) (n, d) = Some i \<longrightarrow> i = pickCanonical (dir_candidates cx n d)) \<and>
     (\<forall>kv \<in> set (cc_sib c). set (snd kv) \<subseteq> sib_ids cx (fst kv))"

lemma consistent_none [simp]: "consistent cx no_caches"
  by (simp add: consistent_def no_caches_def)

text \<open>
  A lookup is a memo of a value if it gives the value whatever consistent caches it starts from, and
  keeps them consistent.
\<close>

definition memo :: "ctx \<Rightarrow> ('a \<Rightarrow> bool) \<Rightarrow> (caches \<Rightarrow> 'a \<times> caches) \<Rightarrow> bool" where
  "memo cx P f \<longleftrightarrow> (\<exists>v. P v \<and> (\<forall>c. consistent cx c \<longrightarrow> fst (f c) = v \<and> consistent cx (snd (f c))))"

abbreviation finds :: "ctx \<Rightarrow> (caches \<Rightarrow> string \<times> caches) \<Rightarrow> bool" where
  "finds cx f \<equiv> memo cx (pick_ok (cx_ids cx)) f"

lemma memoI: "P v \<Longrightarrow> (\<And>c. consistent cx c \<Longrightarrow> fst (f c) = v \<and> consistent cx (snd (f c))) \<Longrightarrow> memo cx P f"
  by (auto simp: memo_def)

lemma memo_at:
  assumes "memo cx P f" "consistent cx c"
  shows "P (fst (f c))" "consistent cx (snd (f c))" "fst (f c) = fst (f no_caches)"
  using assms consistent_none [of cx] by (auto simp: memo_def)

lemma memo_pure: "P v \<Longrightarrow> memo cx P (\<lambda>c. (v, c))"
  by (rule memoI) simp_all

text \<open>The shapes of the lookups; what they branch on is not the cache.\<close>

lemma memo_if: "(b \<Longrightarrow> memo cx P f) \<Longrightarrow> (\<not> b \<Longrightarrow> memo cx P g) \<Longrightarrow> memo cx P (\<lambda>c. if b then f c else g c)"
  by (cases b) simp_all

lemma memo_option:
  "(x = None \<Longrightarrow> memo cx P f) \<Longrightarrow> (\<And>y. x = Some y \<Longrightarrow> memo cx P (g y)) \<Longrightarrow>
   memo cx P (\<lambda>c. case x of None \<Rightarrow> f c | Some y \<Rightarrow> g y c)"
  by (cases x) simp_all

lemma memo_list:
  "(xs = [] \<Longrightarrow> memo cx P f) \<Longrightarrow> (\<And>y ys. xs = y # ys \<Longrightarrow> memo cx P (g y ys)) \<Longrightarrow>
   memo cx P (\<lambda>c. case xs of [] \<Rightarrow> f c | y # ys \<Rightarrow> g y ys c)"
  by (cases xs) simp_all

lemma memo_prod: "(\<And>a b. x = (a, b) \<Longrightarrow> memo cx P (f a b)) \<Longrightarrow> memo cx P (\<lambda>c. case x of (a, b) \<Rightarrow> f a b c)"
  by (cases x) simp_all

lemmas memo_shapes = memo_if memo_option memo_list memo_prod

lemma finds_attempt:
  assumes "finds cx f" "finds cx r"
  shows "finds cx (\<lambda>c. attempt b f (r c))"
proof -
  obtain v where v: "pick_ok (cx_ids cx) v" "\<And>c. consistent cx c \<Longrightarrow> fst (r c) = v \<and> consistent cx (snd (r c))"
    using assms(2) by (auto simp: memo_def)
  obtain u where u: "pick_ok (cx_ids cx) u" "\<And>c. consistent cx c \<Longrightarrow> fst (f c) = u \<and> consistent cx (snd (f c))"
    using assms(1) by (auto simp: memo_def)
  show ?thesis by (rule memoI [where v = "if v = [] \<and> b then u else v"]) (use u v in \<open>auto simp: attempt_def\<close>)
qed

lemma cx_syms_ids: "sy_ID ` set (cx_syms cx qn) \<subseteq> cx_ids cx"
  by (simp add: cx_syms_def cx_ids_def lookup_syms_ids)

lemma qn_syms_ids: "sy_ID ` set (qn_syms cx qn) \<subseteq> cx_ids cx"
  using cx_syms_ids [of cx qn] by (auto simp: qn_syms_def excludeNonCodeSyms_def)

lemma preferNonFixture_sub: "set (preferNonFixtureSyms ss) \<subseteq> set ss"
  by (auto simp: preferNonFixtureSyms_def Let_def)

lemma name_limit_ids: "sy_ID ` set (GetSymbolsByName (cx_graph cx) (cx_pid cx) name n) \<subseteq> cx_ids cx"
  using list_ids(3) [of "cx_graph cx" "cx_pid cx" name n] by (auto simp: cx_ids_def lookup_ids_def)

lemma name_ids: "sy_ID ` set (name_candidates cx name) \<subseteq> cx_ids cx"
  using name_limit_ids [of cx name 200] preferNonFixture_sub
  by (fastforce simp: name_candidates_def excludeNonCodeSyms_def excludeMethodSyms_def)

lemma dir_ids: "sy_ID ` set (dir_candidates cx name d) \<subseteq> cx_ids cx"
  using name_ids [of cx name] by (auto simp: dir_candidates_def)

lemma sib_ids_sub: "sib_ids cx k \<subseteq> cx_ids cx"
  using qn_syms_ids [of cx k] name_ids [of cx k] by (auto simp: sib_ids_def named_def)

lemma siblings_ids:
  assumes "set syms \<subseteq> named cx k"
  shows "set (siblingsForCanonical syms i) \<subseteq> sib_ids cx k"
proof
  fix x assume "x \<in> set (siblingsForCanonical syms i)"
  then obtain s where s: "s \<in> set syms" "x = sy_ID s" "isBuildTagSibling (sy_FilePath s) (fileOfID syms i)"
    by (auto simp: siblingsForCanonical_def)
  then have "fileOfID syms i \<noteq> []" by (auto simp: isBuildTagSibling_def)
  then obtain t where t: "find (\<lambda>s. sy_ID s = i) syms = Some t" by (auto simp: fileOfID_def split: option.splits)
  then have "t \<in> set syms" by (auto simp: find_Some_iff)
  moreover have "fileOfID syms i = sy_FilePath t" by (simp add: fileOfID_def t)
  ultimately show "x \<in> sib_ids cx k" using s assms by (auto simp: sib_ids_def)
qed

lemma update_values:
  "\<forall>kv \<in> set al. set (snd kv) \<subseteq> A (fst kv) \<Longrightarrow> set v \<subseteq> A k \<Longrightarrow> \<forall>kv \<in> set (AList.update k v al). set (snd kv) \<subseteq> A (fst kv)"
  by (induction al) auto

lemma consistent_siblings:
  assumes "consistent cx c" "set syms \<subseteq> named cx key"
  shows "consistent cx (note_siblings key syms i c)"
  using assms(1) update_values [where A = "sib_ids cx", OF _ siblings_ids [OF assms(2)], of "cc_sib c" i]
  by (auto simp: consistent_def note_siblings_def Let_def)

lemma named_parts: "set (qn_syms cx k) \<subseteq> named cx k" "set (name_candidates cx k) \<subseteq> named cx k" "set (dir_candidates cx k d) \<subseteq> named cx k"
  by (auto simp: named_def dir_candidates_def)

text \<open>The three caches: a hit gives what a miss would compute.\<close>

lemma finds_lookupQN: "finds cx (lookupQN cx qn)"
proof (cases "qn = []")
  case False
  have "fst (lookupQN cx qn c) = pickCanonical (qn_syms cx qn) \<and> consistent cx (snd (lookupQN cx qn c))" if c: "consistent cx c" for c
  proof (cases "map_of (cc_qn c) qn")
    case None
    have "consistent cx (c\<lparr>cc_qn := AList.update qn (pickCanonical (qn_syms cx qn)) (cc_qn c)\<rparr>)"
      using c by (auto simp: consistent_def update_conv')
    from consistent_siblings [OF this named_parts(1)] show ?thesis
      using None False by (simp add: lookupQN_def qn_syms_def Let_def)
  qed (use that False in \<open>auto simp: lookupQN_def consistent_def\<close>)
  then show ?thesis using pick_ok_canonical [OF qn_syms_ids] by (rule memoI [rotated])
qed (simp add: lookupQN_def [abs_def] memo_pure)

lemma finds_lookupName: "finds cx (lookupName cx n)"
proof (cases "n = []")
  case False
  have "fst (lookupName cx n c) = pickCanonical (name_candidates cx n) \<and> consistent cx (snd (lookupName cx n c))" if c: "consistent cx c" for c
  proof (cases "map_of (cc_name c) n")
    case None
    have "consistent cx (c\<lparr>cc_name := AList.update n (pickCanonical (name_candidates cx n)) (cc_name c)\<rparr>)"
      using c by (auto simp: consistent_def update_conv')
    from consistent_siblings [OF this named_parts(2)] show ?thesis
      using None False by (simp add: lookupName_def Let_def)
  qed (use that False in \<open>auto simp: lookupName_def consistent_def\<close>)
  then show ?thesis using pick_ok_canonical [OF name_ids] by (rule memoI [rotated])
qed (simp add: lookupName_def [abs_def] memo_pure)

lemma finds_lookupNameInFileDir: "finds cx (lookupNameInFileDir cx n fromFile)"
proof (cases "n = [] \<or> fromFile = []")
  case False
  let ?d = "file_dir fromFile"
  have "fst (lookupNameInFileDir cx n fromFile c) = pickCanonical (dir_candidates cx n ?d) \<and>
      consistent cx (snd (lookupNameInFileDir cx n fromFile c))" if c: "consistent cx c" for c
  proof (cases "map_of (cc_nameDir c) (n, ?d)")
    case None
    have "consistent cx (c\<lparr>cc_nameDir := AList.update (n, ?d) (pickCanonical (dir_candidates cx n ?d)) (cc_nameDir c)\<rparr>)"
      using c by (auto simp: consistent_def update_conv')
    from consistent_siblings [OF this named_parts(3)] show ?thesis
      using None False by (simp add: lookupNameInFileDir_def Let_def)
  qed (use that False in \<open>auto simp: lookupNameInFileDir_def consistent_def Let_def\<close>)
  then show ?thesis using pick_ok_canonical [OF dir_ids] by (rule memoI [rotated])
qed (cases "n = []"; simp add: lookupNameInFileDir_def [abs_def] finds_lookupName memo_pure)

lemma finds_lookupFromQN: "finds cx (lookupFromQN cx qn fromFile)"
proof -
  have "pick_ok (cx_ids cx) (sy_ID s)" if "find P (cx_syms cx qn) = Some s" for P s
    using pick_ok_find [OF cx_syms_ids [of cx qn], where P = P] that by (simp add: found_id_def)
  then show ?thesis
    unfolding lookupFromQN_def [abs_def]
    by (intro memo_shapes memo_pure finds_lookupQN) (simp_all add: pick_ok_canonical cx_syms_ids)
qed

lemma finds_first_qn: "finds cx (first_qn cx qs)"
proof (induction qs)
  case (Cons q qs)
  have "first_qn cx (q # qs) = (\<lambda>c. attempt True (first_qn cx qs) (lookupQN cx q c))"
    by (auto simp: attempt_def split: prod.splits)
  then show ?case using finds_attempt [OF Cons finds_lookupQN] by simp
next
  case Nil
  show ?case by (rule memoI) simp_all
qed

section \<open>Targets of calls\<close>

lemma finds_byReceiverType: "finds cx (resolveByReceiverType cx n t q)"
  unfolding resolveByReceiverType_def [abs_def] Let_def
  by (intro memo_shapes memo_pure finds_first_qn) simp_all

lemma finds_bySingletonVar: "finds cx (resolveBySingletonVar cx n q)"
  unfolding resolveBySingletonVar_def [abs_def]
  by (intro memo_shapes memo_pure finds_byReceiverType) simp_all

lemma finds_byReceiverTypeNonGo: "finds cx (resolveByReceiverTypeNonGo cx n t)"
  unfolding resolveByReceiverTypeNonGo_def [abs_def]
  by (intro memo_shapes memo_pure finds_lookupQN) simp_all

lemma finds_pythonSuffix: "finds cx (lookupPythonSuffix cx n)"
  unfolding lookupPythonSuffix_def [abs_def] Let_def
  by (intro memo_shapes memo_pure finds_lookupQN) simp_all

lemma memo_py_candidates:
  "pick_ok (cx_ids cx) external \<Longrightarrow> memo cx (\<lambda>r. pick_ok (cx_ids cx) (fst r) \<and> pick_ok (cx_ids cx) (snd r)) (py_candidates cx qs external)"
proof (induction qs arbitrary: external)
  case (Cons q qs)
  obtain i where i: "pick_ok (cx_ids cx) i" "\<And>c. consistent cx c \<Longrightarrow> fst (lookupQN cx q c) = i \<and> consistent cx (snd (lookupQN cx q c))"
    using finds_lookupQN [of cx q] by (auto simp: memo_def)
  let ?ext = "if i = [] then external else if external = [] then i else external"
  have "pick_ok (cx_ids cx) ?ext" using i Cons.prems by simp
  from Cons.IH [OF this] obtain r where r: "pick_ok (cx_ids cx) (fst r) \<and> pick_ok (cx_ids cx) (snd r)"
    "\<And>c. consistent cx c \<Longrightarrow> fst (py_candidates cx qs ?ext c) = r \<and> consistent cx (snd (py_candidates cx qs ?ext c))"
    by (auto simp: memo_def)
  show ?case
  proof (rule memoI [where v = "if i = [] \<or> has_prefix i ''@external/'' then r else (i, external)"])
    fix c assume c: "consistent cx c"
    obtain c1 where l: "lookupQN cx q c = (i, c1)" using i(2) [OF c] by (metis prod.collapse)
    then have "consistent cx c1" using i(2) [OF c] by simp
    then show "fst (py_candidates cx (q # qs) external c) = (if i = [] \<or> has_prefix i ''@external/'' then r else (i, external)) \<and>
        consistent cx (snd (py_candidates cx (q # qs) external c))"
      using r(2) [of c1] by (cases "i = []"; cases "has_prefix i ''@external/''") (simp_all add: l)
  qed (use r i Cons.prems in auto)
next
  case Nil
  then show ?case by (intro memoI [where v = "([], external)"]) simp_all
qed

lemma finds_pythonCall: "finds cx (lookupPythonCall cx n file)"
proof -
  obtain i x where v: "pick_ok (cx_ids cx) i" "pick_ok (cx_ids cx) x"
    "\<And>c. consistent cx c \<Longrightarrow> fst (py_candidates cx (PythonImportCandidates n file (cx_roots cx)) [] c) = (i, x) \<and>
       consistent cx (snd (py_candidates cx (PythonImportCandidates n file (cx_roots cx)) [] c))"
    using memo_py_candidates [of cx "[]" "PythonImportCandidates n file (cx_roots cx)"] by (auto simp: memo_def)
  obtain j where j: "pick_ok (cx_ids cx) j"
    "\<And>c. consistent cx c \<Longrightarrow> fst (lookupPythonSuffix cx n c) = j \<and> consistent cx (snd (lookupPythonSuffix cx n c))"
    using finds_pythonSuffix [of cx n] by (auto simp: memo_def)
  show ?thesis
  proof (rule memoI [where v = "if i \<noteq> [] then i else if j \<noteq> [] then j else x"])
    fix c assume c: "consistent cx c"
    obtain c1 where p: "py_candidates cx (PythonImportCandidates n file (cx_roots cx)) [] c = ((i, x), c1)"
      using v(3) [OF c] by (metis prod.collapse)
    then have "consistent cx c1" using v(3) [OF c] by simp
    then show "fst (lookupPythonCall cx n file c) = (if i \<noteq> [] then i else if j \<noteq> [] then j else x) \<and>
        consistent cx (snd (lookupPythonCall cx n file c))"
      using j(2) [of c1] by (auto simp: lookupPythonCall_def p split: prod.split)
  qed (use v j in auto)
qed

lemma finds_methodByName: "pick_ok (cx_ids cx) (resolveMethodByName (cx_graph cx) (cx_pid cx) n)"
proof -
  define m where "m = filter (\<lambda>s. sy_Kind s = ''Method'') (preferNonFixtureSyms (GetSymbolsByName (cx_graph cx) (cx_pid cx) n 16))"
  have "sy_ID ` set m \<subseteq> cx_ids cx" using name_limit_ids [of cx n 16] preferNonFixture_sub by (fastforce simp: m_def)
  then show ?thesis unfolding resolveMethodByName_def m_def [symmetric] by (auto simp: pick_ok_def split: list.split)
qed

lemma finds_webBareName: "pick_ok (cx_ids cx) (lookupWebBareName cx n file)"
proof -
  define w where "w = filter (\<lambda>s. sy_Language s \<in> set [''JavaScript'', ''TypeScript'', ''TSX'']) (name_candidates cx n)"
  define d where "d = filter (\<lambda>s. file_dir file \<noteq> ''.'' \<and> file_dir (sy_FilePath s) = file_dir file) w"
  have "sy_ID ` set w \<subseteq> cx_ids cx" "sy_ID ` set d \<subseteq> cx_ids cx" using name_ids [of cx n] by (auto simp: w_def d_def)
  then show ?thesis
    unfolding lookupWebBareName_def Let_def w_def [symmetric] d_def [symmetric]
    by (auto simp: pick_ok_def split: list.split)
qed

lemma finds_receiverMethod: "pick_ok (cx_ids cx) (receiver_method cx n)"
  by (simp add: receiver_method_def finds_methodByName split: option.split)

lemma finds_call_from: "finds cx (call_from cx e)"
  unfolding call_from_def [abs_def] by (intro finds_attempt finds_lookupName finds_lookupFromQN)

lemma finds_call_target: "finds cx (call_target cx e)"
  unfolding call_target_def [abs_def] Let_def
  by (intro finds_attempt memo_if finds_pythonCall finds_lookupNameInFileDir finds_lookupQN finds_byReceiverType
      finds_bySingletonVar finds_byReceiverTypeNonGo memo_pure finds_webBareName finds_receiverMethod)

section \<open>The passes over calls and reads\<close>

definition inside :: "ctx \<Rightarrow> edge list \<Rightarrow> bool" where
  "inside cx es \<longleftrightarrow> own_edges (cx_pid cx) es \<and> ends_in (cx_ids cx) (cx_ids cx) es"

lemma inside_Nil [simp]: "inside cx []"
  by (simp add: inside_def own_edges_def ends_in_def)

lemma inside_snoc:
  "inside cx es \<Longrightarrow> a \<in> cx_ids cx \<Longrightarrow> b \<in> cx_ids cx \<Longrightarrow> inside cx (es @ [pass_edge (cx_pid cx) kind branch e a b])"
  by (simp add: inside_def own_edges_def ends_in_def pass_edge_def derived_def)

lemma inside_siblings:
  "inside cx es \<Longrightarrow> i \<in> cx_ids cx \<Longrightarrow> set sibs \<subseteq> cx_ids cx \<Longrightarrow> inside cx (fold (add_sibling cx e i) sibs es)"
  by (induction sibs arbitrary: es) (auto simp: add_sibling_def inside_snoc)

lemma recorded_siblings:
  assumes "consistent cx c"
  shows "set (case map_of (cc_sib c) k of None \<Rightarrow> [] | Some sibs \<Rightarrow> sibs) \<subseteq> sib_ids cx k"
proof (cases "map_of (cc_sib c) k")
  case (Some v)
  have "\<forall>kv \<in> set (cc_sib c). set (snd kv) \<subseteq> sib_ids cx (fst kv)" using assms by (simp add: consistent_def)
  from this [rule_format, OF map_of_SomeD [OF Some]] show ?thesis by (simp add: Some)
qed simp

lemma call_step_inside:
  assumes "inside cx (fst st) \<and> consistent cx (snd st)"
  shows "inside cx (fst (call_step cx st e)) \<and> consistent cx (snd (call_step cx st e))"
proof -
  obtain es c where st: "st = (es, c)" by fastforce
  have es: "inside cx es" and c: "consistent cx c" using assms by (simp_all add: st)
  obtain i c1 where f: "call_from cx e c = (i, c1)" by fastforce
  note f1 = memo_at [OF finds_call_from c, of e, unfolded f fst_conv snd_conv]
  obtain j c2 where t: "call_target cx e c1 = (j, c2)" by fastforce
  note t1 = memo_at [OF finds_call_target f1(2), of e, unfolded t fst_conv snd_conv]
  define sibs where "sibs = (case map_of (cc_sib c2) (pe_ToName e) of None \<Rightarrow> [] | Some sibs \<Rightarrow> sibs)"
  have sibs: "set sibs \<subseteq> cx_ids cx"
    using recorded_siblings [OF t1(2), of "pe_ToName e"] sib_ids_sub by (force simp: sibs_def)
  have "inside cx (fold (add_sibling cx e i) sibs (es @ [pass_edge (cx_pid cx) ''CALLS'' [] e i j]))" if "i \<noteq> []" "j \<noteq> []"
    using that f1(1) t1(1) es sibs by (intro inside_siblings inside_snoc) (auto dest: pick_okD)
  moreover have "call_step cx st e =
      (if i = [] then (es, c1) else if j = [] \<or> i = j \<or> seen_pair es i j then (es, c2)
       else (fold (add_sibling cx e i) sibs (es @ [pass_edge (cx_pid cx) ''CALLS'' [] e i j]), c2))"
    unfolding call_step_def st Let_def prod.case f t sibs_def by (rule refl)
  ultimately show ?thesis using es f1(2) t1(2)
    by (cases "i = []"; cases "j = [] \<or> i = j \<or> seen_pair es i j") auto
qed

text \<open>What a call binds to, and the ends of an edge.\<close>

definition bind_call :: "ctx \<Rightarrow> pending \<Rightarrow> string \<times> string" where
  "bind_call cx e = (fst (call_from cx e no_caches), fst (call_target cx e no_caches))"

definition bindable :: "ctx \<Rightarrow> pending \<Rightarrow> bool" where
  "bindable cx e \<longleftrightarrow> fst (bind_call cx e) \<noteq> [] \<and> snd (bind_call cx e) \<noteq> [] \<and> fst (bind_call cx e) \<noteq> snd (bind_call cx e)"

definition ends :: "edge \<Rightarrow> string \<times> string" where
  "ends x = (ed_FromID x, ed_ToID x)"

definition pairs :: "edge list \<Rightarrow> (string \<times> string) set" where
  "pairs es = ends ` set es"

text \<open>The edges a call may give: the one it binds to, and to siblings of its target from the same source.\<close>

definition call_pairs :: "ctx \<Rightarrow> pending \<Rightarrow> (string \<times> string) set" where
  "call_pairs cx e =
     (if bindable cx e then insert (bind_call cx e) ({fst (bind_call cx e)} \<times> sib_ids cx (pe_ToName e)) else {})"

lemma pairs_simps [simp]: "pairs [] = {}" "pairs (es @ [x]) = insert (ends x) (pairs es)"
  by (simp_all add: pairs_def)

lemma seen_pair_pairs: "seen_pair es a b \<longleftrightarrow> (a, b) \<in> pairs es"
  by (force simp: seen_pair_def pairs_def ends_def list_ex_iff)

lemma distinct_snoc_pairs [simp]: "distinct (map ends (es @ [x])) \<longleftrightarrow> distinct (map ends es) \<and> ends x \<notin> pairs es"
  by (auto simp: pairs_def)

lemma ends_pass_edge [simp]: "ends (pass_edge pid kind branch e a b) = (a, b)"
  by (simp add: ends_def pass_edge_def)

lemma siblings_ends:
  "distinct (map ends es) \<Longrightarrow> distinct (map ends (fold (add_sibling cx e i) sibs es)) \<and>
   pairs es \<subseteq> pairs (fold (add_sibling cx e i) sibs es) \<and> pairs (fold (add_sibling cx e i) sibs es) \<subseteq> pairs es \<union> {i} \<times> set sibs"
proof (induction sibs arbitrary: es)
  case (Cons t ts)
  define es' where "es' = add_sibling cx e i t es"
  have d: "distinct (map ends es')"
    using Cons.prems unfolding es'_def add_sibling_def by (simp add: seen_pair_pairs del: map_append)
  have "pairs es \<subseteq> pairs es'" "pairs es' \<subseteq> insert (i, t) (pairs es)" by (auto simp: es'_def add_sibling_def)
  then show ?case using Cons.IH [OF d] by (simp add: es'_def [symmetric]) blast
qed simp

lemma call_step_ends:
  assumes "consistent cx (snd st)" "distinct (map ends (fst st))"
  shows "distinct (map ends (fst (call_step cx st e))) \<and> pairs (fst st) \<subseteq> pairs (fst (call_step cx st e)) \<and>
    (bindable cx e \<longrightarrow> bind_call cx e \<in> pairs (fst (call_step cx st e))) \<and>
    pairs (fst (call_step cx st e)) \<subseteq> pairs (fst st) \<union> call_pairs cx e"
proof -
  obtain es c where st: "st = (es, c)" by fastforce
  have d: "distinct (map ends es)" and c: "consistent cx c" using assms by (simp_all add: st)
  obtain i c1 where f: "call_from cx e c = (i, c1)" by fastforce
  note f1 = memo_at [OF finds_call_from c, of e, unfolded f fst_conv snd_conv]
  obtain j c2 where t: "call_target cx e c1 = (j, c2)" by fastforce
  note t1 = memo_at [OF finds_call_target f1(2), of e, unfolded t fst_conv snd_conv]
  define sibs where "sibs = (case map_of (cc_sib c2) (pe_ToName e) of None \<Rightarrow> [] | Some sibs \<Rightarrow> sibs)"
  have sibs: "set sibs \<subseteq> sib_ids cx (pe_ToName e)" using recorded_siblings [OF t1(2)] by (simp add: sibs_def)
  have b: "bind_call cx e = (i, j)" using f1(3) t1(3) by (simp add: bind_call_def)
  have step: "call_step cx st e =
      (if i = [] then (es, c1) else if j = [] \<or> i = j \<or> seen_pair es i j then (es, c2)
       else (fold (add_sibling cx e i) sibs (es @ [pass_edge (cx_pid cx) ''CALLS'' [] e i j]), c2))"
    unfolding call_step_def st Let_def prod.case f t sibs_def by (rule refl)
  show ?thesis
  proof (cases "bindable cx e \<and> (i, j) \<notin> pairs es")
    case True
    let ?new = "es @ [pass_edge (cx_pid cx) ''CALLS'' [] e i j]"
    have new: "fst (call_step cx st e) = fold (add_sibling cx e i) sibs ?new"
      using step True by (auto simp: bindable_def b seen_pair_pairs)
    have cp: "call_pairs cx e = insert (i, j) ({i} \<times> sib_ids cx (pe_ToName e))" using True by (simp add: call_pairs_def b)
    have "distinct (map ends ?new)" using d True by (simp del: map_append)
    from siblings_ends [OF this, of cx e i sibs] show ?thesis
      unfolding new cp b using sibs by (simp add: st del: map_append) blast
  next
    case False
    then have "fst (call_step cx st e) = es" using step by (auto simp: bindable_def b seen_pair_pairs)
    then show ?thesis using False d by (auto simp: st b)
  qed
qed

lemma inside_known:
  assumes "inside cx es" "cx_graph cx = g" "\<forall>i \<in> preload_ids (cx_qnMap cx). known g (cx_pid cx) i"
  shows "\<forall>e \<in> set es. edge_known g e"
  using assms lookup_ids_known [of "cx_qnMap cx" g "cx_pid cx"] ends_edge_known [of "cx_pid cx" es "cx_ids cx" "cx_ids cx" g]
  by (auto simp: inside_def cx_ids_def)

lemma resolve_ctx_parts [simp]:
  "cx_graph (resolve_ctx ft pid roots qnMap g) = g" "cx_pid (resolve_ctx ft pid roots qnMap g) = pid"
  "cx_qnMap (resolve_ctx ft pid roots qnMap g) = qnMap"
  by (simp_all add: resolve_ctx_def)

lemma resolveCalls_step: "sound_step pid (preload_ids qnMap) g (snd (resolveCalls ft pid pend roots qnMap files g))"
proof (cases "pend = []")
  case False
  let ?cx = "resolve_ctx ft pid roots qnMap g"
  let ?st = "call_edges ?cx pend"
  have "inside ?cx (fst ?st) \<and> consistent ?cx (snd ?st)"
    unfolding call_edges_def by (rule foldl_keeps) (simp, rule call_step_inside)
  then have "own_edges pid (fst ?st)" "\<forall>i \<in> preload_ids qnMap. known g pid i \<Longrightarrow> \<forall>e \<in> set (fst ?st). edge_known g e"
    using inside_known [of ?cx "fst ?st" g] by (simp_all add: inside_def)
  from replace_edges_step [OF this, where ft = ft and kind = "''CALLS''" and files = files] show ?thesis using False by (simp add: resolveCalls_def)
qed (simp add: resolveCalls_def clear_scope_step)

text \<open>Reads.\<close>

definition lookup_ok :: "ctx \<Rightarrow> lookup \<Rightarrow> bool" where
  "lookup_ok cx l \<longleftrightarrow> pick_ok (cx_ids cx) (lk_id l) \<and> set (lk_funcIDs l) \<subseteq> cx_ids cx"

lemma lookup_ok_simps [simp]:
  "lookup_ok cx no_lookup" "lookup_ok cx (sym_lookup s) \<longleftrightarrow> pick_ok (cx_ids cx) (sy_ID s)"
  by (simp_all add: lookup_ok_def no_lookup_def sym_lookup_def)

lemma least_in: "foldl (\<lambda>m s. if sy_ID s < sy_ID m then s else m) s ss \<in> set (s # ss)"
proof (induction ss arbitrary: s)
  case (Cons t ss)
  show ?case using Cons [of "if sy_ID t < sy_ID s then t else s"] by (auto split: if_splits)
qed simp

lemma read_qn_ok: "lookup_ok cx (read_qn cx qn)"
proof (cases "cx_syms cx qn")
  case (Cons s ss)
  define m where "m = foldl (\<lambda>m s. if sy_ID s < sy_ID m then s else m) s ss"
  have ids: "sy_ID ` set (s # ss) \<subseteq> cx_ids cx" using cx_syms_ids [of cx qn] Cons by simp
  have "m \<in> set (s # ss)" unfolding m_def by (rule least_in)
  then have "sy_ID m \<in> cx_ids cx" using ids by blast
  then show ?thesis
    using ids Cons unfolding read_qn_def Let_def
    by (auto simp: lookup_ok_def no_lookup_def sym_lookup_def pick_ok_def m_def [symmetric] simp del: foldl_Cons)
qed (simp add: read_qn_def)

lemma find_ids: "find P (xs :: sym list) = Some s \<Longrightarrow> sy_ID ` set xs \<subseteq> I \<Longrightarrow> pick_ok I (sy_ID s)"
  using pick_ok_find [of xs I P] by (simp add: found_id_def)

lemma read_name_ok: "lookup_ok cx (read_name cx name lang d)"
proof -
  define ss where "ss = filter (\<lambda>s. lang = [] \<or> sy_Language s = lang) (filter (\<lambda>s. d = [] \<or> file_dir (sy_FilePath s) = d)
      (preferNonFixtureSyms (GetSymbolsByName (cx_graph cx) (cx_pid cx) name 10)))"
  have ss: "sy_ID ` set ss \<subseteq> cx_ids cx"
    using name_limit_ids [of cx name 10] preferNonFixture_sub by (fastforce simp: ss_def)
  define fs where "fs = filter (\<lambda>s. sy_Kind s = ''Function'') ss"
  have fs: "sy_ID ` set fs \<subseteq> cx_ids cx" using ss by (auto simp: fs_def)
  have ne: "sort (map sy_ID fs) = [] \<longleftrightarrow> fs = []" by (metis length_0_conv length_map length_sort)
  have ids: "set (sort (map sy_ID fs)) \<subseteq> cx_ids cx" "fs \<noteq> [] \<Longrightarrow> hd (sort (map sy_ID fs)) \<in> cx_ids cx"
    using fs hd_in_set [of "sort (map sy_ID fs)"] ne by auto
  show ?thesis
    unfolding read_name_def Let_def ss_def [symmetric] fs_def [symmetric]
    using ids find_ids [OF _ ss] by (auto simp: lookup_ok_def pick_ok_def no_lookup_def sym_lookup_def set_insort_key split: option.split list.split)
qed

lemma read_source_ok: "lookup_ok cx (read_source cx e)"
proof -
  have "lookup_ok cx (read_from_qn cx q f)" for q f
    using find_ids [OF _ cx_syms_ids] by (auto simp: read_from_qn_def Let_def read_qn_ok split: option.split)
  then show ?thesis by (simp add: read_source_def Let_def read_name_ok)
qed

lemma read_target_ok: "lookup_ok cx (read_target cx l e)"
  by (simp add: read_target_def Let_def read_name_ok read_qn_ok)

lemma inside_bindings:
  "inside cx (fst st) \<Longrightarrow> i \<in> cx_ids cx \<Longrightarrow> set targets \<subseteq> cx_ids cx \<Longrightarrow> inside cx (fst (fold (add_binding cx i) targets st))"
proof (induction targets arbitrary: st)
  case (Cons t ts)
  have "inside cx (fst (add_binding cx i t st))"
    using Cons.prems by (auto simp: add_binding_def inside_def own_edges_def ends_in_def derived_def split: prod.splits)
  then show ?case using Cons by simp
qed simp

lemma read_step_inside:
  assumes "inside cx (fst st)"
  shows "inside cx (fst (read_step cx st e))"
proof -
  obtain es sn where st: "st = (es, sn)" by fastforce
  define f where "f = read_source cx e"
  define t where "t = read_target cx f e"
  have ok: "lookup_ok cx f" "lookup_ok cx t" by (simp_all add: f_def t_def read_source_ok read_target_ok)
  have es: "inside cx es" using assms by (simp add: st)
  show ?thesis
  proof (cases "lk_id f = [] \<or> lk_id t = []")
    case False
    then have ft: "lk_id f \<in> cx_ids cx" "lk_id t \<in> cx_ids cx" "set (if lk_funcIDs t = [] then [lk_id t] else lk_funcIDs t) \<subseteq> cx_ids cx"
      using ok by (auto simp: lookup_ok_def pick_ok_def)
    from inside_bindings [of cx "(es, sn)", OF _ ft(1,3)] inside_snoc [OF es ft(1,2)] es show ?thesis
      unfolding read_step_def st Let_def prod.case f_def [symmetric] t_def [symmetric] by (simp split: if_split)
  next
    case True
    then have "read_step cx st e = (es, sn)"
      unfolding read_step_def st Let_def prod.case f_def [symmetric] t_def [symmetric] by (intro if_P) blast
    then show ?thesis using es by simp
  qed
qed

lemma replace_if_step:
  assumes "source \<in> {''resolve_pass'', ''binding_pass''}" "own_edges pid es" "\<forall>i \<in> K. known g pid i \<Longrightarrow> \<forall>e \<in> set es. edge_known g e"
  shows "sound_step pid K g (replace_if ft pid kind source files es g)"
  using replace_step [OF assms] by (simp add: replace_if_def)

lemma known_replace_if [simp]: "known (replace_if ft pid kind source files es g) p i \<longleftrightarrow> known g p i"
  by (simp add: replace_if_def)

lemma resolveReads_step: "sound_step pid (preload_ids qnMap) g (snd (resolveReads ft pid pend qnMap files g))"
proof (cases "pend = []")
  case True
  let ?h = "clear_scope ft pid ''WRITES'' files (clear_scope ft pid ''READS'' files g)"
  have h: "sound_step pid (preload_ids qnMap) g ?h" by (rule sound_step_trans) (rule clear_scope_step)+
  have "sound_step pid (preload_ids qnMap) ?h (DeleteEdgesByKindAndSourceForSourceFiles pid ''CALLS'' ''binding_pass'' files ?h)"
    by (rule scoped_delete_step) simp
  from h sound_step_trans [OF h this] have "sound_step pid (preload_ids qnMap) g (clear_reads ft pid files g)"
    by (simp add: clear_reads_def Let_def)
  then show ?thesis using True by (simp add: resolveReads_def)
next
  case False
  let ?cx = "resolve_ctx ft pid [] qnMap g"
  define es where "es = fst (foldl (read_step ?cx) ([], []) pend)"
  have "inside ?cx es" unfolding es_def
    by (rule foldl_keeps [where P = "\<lambda>st. inside ?cx (fst st)"]) (simp_all add: read_step_inside)
  then have own: "own_edges pid (filter P es)" and kn: "\<forall>i \<in> preload_ids qnMap. known g pid i \<Longrightarrow> \<forall>e \<in> set (filter P es). edge_known g e" for P
    using inside_known [of ?cx es g] by (auto simp: inside_def own_edges_def)
  have step: "sound_step pid (preload_ids qnMap) h (replace_if ft pid kind source files (filter P es) h)"
    if "source \<in> {''resolve_pass'', ''binding_pass''}" "\<And>p i. known h p i = known g p i" for h kind source P
    by (rule replace_if_step [OF that(1) own]) (use kn [of P] that(2) in \<open>simp add: edge_known_def\<close>)
  define g1 where "g1 = replace_if ft pid ''READS'' ''resolve_pass'' files (filter (\<lambda>e. ed_Kind e = ''READS'') es) g"
  define g2 where "g2 = replace_if ft pid ''WRITES'' ''resolve_pass'' files (filter (\<lambda>e. ed_Kind e = ''WRITES'') es) g1"
  define g3 where "g3 = replace_if ft pid ''CALLS'' ''binding_pass'' files (filter (\<lambda>e. ed_Kind e = ''CALLS'') es) g2"
  have "sound_step pid (preload_ids qnMap) g g1" unfolding g1_def by (rule step) simp_all
  moreover have "sound_step pid (preload_ids qnMap) g1 g2" unfolding g2_def by (rule step) (simp_all add: g1_def)
  moreover have "sound_step pid (preload_ids qnMap) g2 g3" unfolding g3_def by (rule step) (simp_all add: g1_def g2_def)
  ultimately have "sound_step pid (preload_ids qnMap) g g3" by (blast intro: sound_step_trans)
  then show ?thesis using False by (simp add: resolveReads_def Let_def es_def g1_def g2_def g3_def)
qed

section \<open>The passes satisfy the contract\<close>

interpretation imports_pass: graph_pass pid "preload_ids qnMap" "\<lambda>g. snd (resolveImports ft pid pend roots qnMap files g)" for pid qnMap ft pend roots files
  by unfold_locales (rule resolveImports_step)

interpretation calls_pass: graph_pass pid "preload_ids qnMap" "\<lambda>g. snd (resolveCalls ft pid pend roots qnMap files g)" for pid qnMap ft pend roots files
  by unfold_locales (rule resolveCalls_step)

interpretation reads_pass: graph_pass pid "preload_ids qnMap" "\<lambda>g. snd (resolveReads ft pid pend qnMap files g)" for pid qnMap ft pend files
  by unfold_locales (rule resolveReads_step)

interpretation uses_pass: graph_pass pid "{}" "\<lambda>g. snd (resolveUsesVar lang_of ft pid pend files g)" for pid lang_of ft pend files
  by unfold_locales (rule resolveUsesVar_step)

lemma sound_step_mono: "sound_step pid K g g' \<Longrightarrow> K \<subseteq> L \<Longrightarrow> sound_step pid L g g'"
  by (auto simp: sound_step_def)

lemma run_pass_step: "graph_pass pid (preload_ids qnMap) (run_pass lang_of ft branch roots pid qnMap files p pend)"
proof unfold_locales
  fix g
  have 1: "sound_step pid (preload_ids qnMap) g (snd (resolveReferences ft branch pid pend files g))"
    "sound_step pid (preload_ids qnMap) g (snd (resolveFilePathEdges lang_of ft branch pid k pend files g))" for k
    using sound_step_mono [OF resolveReferences_step] sound_step_mono [OF resolveFilePathEdges_step] by simp_all
  show "sound_step pid (preload_ids qnMap) g (run_pass lang_of ft branch roots pid qnMap files p pend g)"
    using 1 by (cases p) (simp_all add: run_pass_def imports_pass.sound calls_pass.sound reads_pass.sound)
qed

text \<open>So does the whole block; the map it preloads holds ids of the graph it starts from.\<close>

lemma block_map_ids: "\<forall>i \<in> preload_ids (block_map preload_ok pid work g). known g pid i"
  by (auto simp: block_map_def preload_ids_def LoadAllSymbolsByQN_def known_def syms_of_def)

lemma run_work_step:
  assumes "\<And>p pend. graph_pass pid K (run p pend)"
  shows "graph_pass pid K (run_work run scoped work)"
proof -
  have i: "graph_pass pid K id" using graph_pass_id by (simp add: id_def)
  have "graph_pass pid K (fold (\<lambda>(p, pend). if pend = [] then id else run p pend) work)"
    "graph_pass pid K (\<lambda>g. if scoped then fold (\<lambda>(p, pend). if pend = [] then run p [] else id) work g else g)"
    using graph_pass_fold [of work pid K "\<lambda>(p, pend). if pend = [] then run p [] else id"] graph_pass_id
    by (cases scoped; auto intro!: graph_pass_fold simp: assms i)+
  from graph_pass_comp [OF this(2,1)] show ?thesis unfolding run_work_def [abs_def] .
qed

text \<open>The map a block preloads holds ids of the graph it starts from, so the block needs no ids given beforehand.\<close>

lemma resolve_block_step: "sound_step pid {} g (resolve_block lang_of ft preload_ok branch roots pid scope pend g)"
proof -
  define files where "files = (case scope of None \<Rightarrow> [] | Some fs \<Rightarrow> fs)"
  define work where "work = block_work (load_kind ft pid scope g) pend"
  define h where "h = run_work (run_pass lang_of ft branch roots pid (block_map preload_ok pid work g) files) (scope \<noteq> None) work g"
  have "sound_step pid (preload_ids (block_map preload_ok pid work g)) g h"
    unfolding h_def by (rule graph_pass.sound [OF run_work_step [OF run_pass_step]])
  then have h: "sound_step pid {} g h" using block_map_ids [of preload_ok pid work g] by (simp add: sound_step_def)
  have "resolve_block lang_of ft preload_ok branch roots pid scope pend g \<in>
      {h, snd (resolveUsesVar lang_of ft pid (load_kind ft pid scope h ''USES_VAR'' (pend ''USES_VAR'')) files h)}"
    by (simp add: resolve_block_def Let_def work_def h_def files_def)
  then show ?thesis using h sound_step_trans [OF h uses_pass.sound] by auto
qed

interpretation block: graph_pass pid "{}" "resolve_block lang_of ft preload_ok branch roots pid scope pend" for pid lang_of ft preload_ok branch roots scope pend
  by unfold_locales (rule resolve_block_step)

lemma calls_built:
  "consistent cx (snd (call_edges cx pend)) \<and> distinct (map ends (fst (call_edges cx pend))) \<and>
   bind_call cx ` {e \<in> set pend. bindable cx e} \<subseteq> pairs (fst (call_edges cx pend)) \<and>
   pairs (fst (call_edges cx pend)) \<subseteq> \<Union> (call_pairs cx ` set pend)"
proof (induction pend rule: rev_induct)
  case (snoc e pend)
  define st where "st = call_edges cx pend"
  have s: "call_edges cx (pend @ [e]) = call_step cx st e" by (simp add: st_def call_edges_def)
  have "inside cx (fst st) \<and> consistent cx (snd st)"
    unfolding st_def call_edges_def by (rule foldl_keeps) (simp, rule call_step_inside)
  then have c: "consistent cx (snd (call_step cx st e))" using call_step_inside by blast
  note step = call_step_ends [of cx st e] and IH = snoc [folded st_def]
  have img: "bind_call cx ` {x \<in> set (pend @ [e]). bindable cx x} =
      bind_call cx ` {x \<in> set pend. bindable cx x} \<union> (if bindable cx e then {bind_call cx e} else {})" by auto
  have un: "\<Union> (call_pairs cx ` set (pend @ [e])) = \<Union> (call_pairs cx ` set pend) \<union> call_pairs cx e" by auto
  show ?case unfolding s img un using c step IH by (simp split: if_split) blast
qed (simp add: call_edges_def)

section \<open>Properties\<close>

text \<open>
  C5. The resolve block keeps the graph sound: run any number of times, with any candidates, scope and
  failures, it never drops a symbol, never touches another project or an edge or table it does not own,
  and leaves no derived edge with an end outside the symbols table.
\<close>

theorem resolve_blocks_sound:
  assumes "graph_closed g"
  shows "let g' = (resolve_block lang_of ft preload_ok branch roots pid scope pend ^^ n) g in
    graph_closed g' \<and> untouched pid g g' \<and> (\<forall>p i. known g p i \<longrightarrow> known g' p i)"
  using block.repeated [of pid g n lang_of ft preload_ok branch roots scope pend] assms
  by (simp add: sound_step_def Let_def)

text \<open>
  C6. A pass over calls makes exactly one edge for each pair that some call binds to, where what a call
  binds to does not depend on the other calls or their order; the only other edges go from a bound
  source to a build-tag sibling of the called name.
\<close>

theorem call_edges_exact:
  "distinct (map ends (fst (call_edges cx pend))) \<and>
   (\<forall>e \<in> set pend. bindable cx e \<longrightarrow> bind_call cx e \<in> pairs (fst (call_edges cx pend))) \<and>
   (\<forall>p \<in> pairs (fst (call_edges cx pend)). \<exists>e \<in> set pend. bindable cx e \<and>
      (p = bind_call cx e \<or> fst p = fst (bind_call cx e) \<and> snd p \<in> sib_ids cx (pe_ToName e)))"
proof -
  have "\<exists>e \<in> set pend. p \<in> call_pairs cx e" if "p \<in> pairs (fst (call_edges cx pend))" for p
    using calls_built [of cx pend] that by auto
  then show ?thesis using calls_built [of cx pend] by (fastforce simp: call_pairs_def split: if_splits)
qed

text \<open>A small project: a caller and two methods of the same name in build-tag siblings, and another directory.\<close>

definition go_func :: "string \<Rightarrow> string \<Rightarrow> string \<Rightarrow> sym" where
  "go_func file pkg name =
     \<lparr>sy_ID = MakeSymbolID file (pkg @ ''.'' @ name) ''Function'', sy_ProjectID = ''p'', sy_FilePath = file, sy_Name = name,
      sy_QN = pkg @ ''.'' @ name, sy_Kind = ''Function'', sy_Language = ''Go'', sy_StartByte = 0, sy_EndByte = 1,
      sy_Signature = [], sy_Confidence = 1\<rparr>"

definition go_call :: "string \<Rightarrow> string \<Rightarrow> string \<Rightarrow> pending" where
  "go_call file caller callee =
     \<lparr>pe_FromQN = caller, pe_ToName = callee, pe_Kind = ''CALLS'', pe_FromFile = file, pe_Confidence = 1,
      pe_ReceiverType = [], pe_BaseType = []\<rparr>"

definition two_dirs :: graph where
  "two_dirs = \<lparr>gr_symbols = [go_func ''a/m.go'' ''a'' ''run'', go_func ''a/f_linux.go'' ''a'' ''open'',
      go_func ''a/f_windows.go'' ''a'' ''open'', go_func ''b/m.go'' ''b'' ''run'', go_func ''b/f.go'' ''b'' ''open''],
    gr_edges = [], gr_fields = [], gr_pending = []\<rparr>"

definition no_faults :: pass_faults where
  "no_faults = \<lparr>pf_upsert = False, pf_replace = (\<lambda>_ _. False), pf_delete = False, pf_fields = False, pf_symbols = False, pf_load = (\<lambda>_. False)\<rparr>"

definition dirs_ctx :: ctx where
  "dirs_ctx = resolve_ctx no_faults ''p'' [] None two_dirs"

theorem resolve_blocks_sound_witness:
  "let g' = (resolve_block (\<lambda>_. ''Go'') no_faults True [] [] ''p'' None
       (\<lambda>k. if k = ''CALLS'' then [go_call ''a/m.go'' ''a.run'' ''open''] else []) ^^ 2) two_dirs in
   graph_closed g' \<and> untouched ''p'' two_dirs g' \<and> (\<forall>p i. known two_dirs p i \<longrightarrow> known g' p i)"
  by (rule resolve_blocks_sound) (simp add: two_dirs_def graph_closed_def)

lemma dirs_edges:
  "map ends (fst (call_edges dirs_ctx [go_call ''a/m.go'' ''a.run'' ''open'', go_call ''b/m.go'' ''b.run'' ''open''])) =
     [(''a/m.go::a.run#Function'', ''a/f_linux.go::a.open#Function''),
      (''a/m.go::a.run#Function'', ''a/f_windows.go::a.open#Function''),
      (''b/m.go::b.run#Function'', ''b/f.go::b.open#Function''),
      (''b/m.go::b.run#Function'', ''a/f_windows.go::a.open#Function'')]"
  by code_simp

lemma dirs_edges_swapped:
  "map ends (fst (call_edges dirs_ctx [go_call ''b/m.go'' ''b.run'' ''open'', go_call ''a/m.go'' ''a.run'' ''open''])) =
     [(''b/m.go::b.run#Function'', ''b/f.go::b.open#Function''),
      (''a/m.go::a.run#Function'', ''a/f_linux.go::a.open#Function''),
      (''a/m.go::a.run#Function'', ''a/f_windows.go::a.open#Function'')]"
  by code_simp

lemma dirs_bindable: "bindable dirs_ctx (go_call ''b/m.go'' ''b.run'' ''open'')"
  by code_simp

theorem call_edges_exact_witness:
  "bind_call dirs_ctx (go_call ''b/m.go'' ''b.run'' ''open'')
     \<in> pairs (fst (call_edges dirs_ctx [go_call ''a/m.go'' ''a.run'' ''open'', go_call ''b/m.go'' ''b.run'' ''open'']))"
  using call_edges_exact [of dirs_ctx "[go_call ''a/m.go'' ''a.run'' ''open'', go_call ''b/m.go'' ''b.run'' ''open'']"] dirs_bindable
  by simp


text \<open>A Python file imports a module that is only indexed later.\<close>

definition py_module :: "string \<Rightarrow> string \<Rightarrow> sym" where
  "py_module file qn =
     \<lparr>sy_ID = MakeSymbolID file qn ''Module'', sy_ProjectID = ''p'', sy_FilePath = file, sy_Name = qn, sy_QN = qn,
      sy_Kind = ''Module'', sy_Language = ''Python'', sy_StartByte = 0, sy_EndByte = 1, sy_Signature = [], sy_Confidence = 1\<rparr>"

definition py_import :: pending where
  "py_import = \<lparr>pe_FromQN = ''app'', pe_ToName = ''util'', pe_Kind = ''IMPORTS'', pe_FromFile = ''app.py'', pe_Confidence = 1,
     pe_ReceiverType = [], pe_BaseType = []\<rparr>"

definition py_before :: graph where
  "py_before = \<lparr>gr_symbols = [py_module ''app.py'' ''app''], gr_edges = [], gr_fields = [], gr_pending = []\<rparr>"

definition imports_of :: "graph \<Rightarrow> graph" where
  "imports_of g = snd (resolveImports no_faults ''p'' [py_import] [] None [] g)"

lemma module_first: "map ends (gr_edges (imports_of (upsert_symbol (py_module ''util.py'' ''util'') py_before))) = [(''app.py::app#Module'', ''util.py::util#Module'')]"
  by code_simp

lemma module_later:
  "map ends (gr_edges (imports_of (upsert_symbol (py_module ''util.py'' ''util'') (imports_of py_before)))) =
     [(''app.py::app#Module'', ''@external/util::util#Module'')]"
  by code_simp


end
