(* ===== verification/Incremental_Refs.thy ===== *)
theory Incremental_Refs
  imports Edge_Resolve_Props
begin

text \<open>
  A scoped pass over references gives what a pass over the whole project gives, when only files of the
  scope deferred anything new.  The source of a reference is always a section of the file that
  deferred it, which is what scoped deletion relies on.
\<close>

lemma same_edge_source: "ed_FromID e \<noteq> ed_FromID x \<Longrightarrow> \<not> same_edge e x"
  by (simp add: same_edge_def)

text \<open>Edges of one pass are pairwise different, so each is inserted unless the table already has it.\<close>

definition one_pass :: "string \<Rightarrow> string \<Rightarrow> edge list \<Rightarrow> bool" where
  "one_pass pid kind es \<longleftrightarrow>
     (\<forall>e \<in> set es. ed_ProjectID e = pid \<and> ed_Kind e = kind \<and> ed_Source e = ''resolve_pass'') \<and>
     distinct (map (\<lambda>e. (ed_FromID e, ed_ToID e)) es)"

lemma insert_one_pass:
  "one_pass pid kind es \<Longrightarrow> set (fold insert_edge es old) = set old \<union> {e \<in> set es. \<forall>x \<in> set old. \<not> same_edge e x}"
proof (induction es arbitrary: old)
  case (Cons e es)
  have src: "ed_Source e = ''resolve_pass''" and rest: "one_pass pid kind es" using Cons.prems by (auto simp: one_pass_def)
  have new: "\<not> same_edge x e" if "x \<in> set es" for x
  proof
    assume "same_edge x e"
    then have "(ed_FromID x, ed_ToID x) = (ed_FromID e, ed_ToID e)" by (simp add: same_edge_def)
    then show False using Cons.prems that by (auto simp: one_pass_def rev_image_eqI)
  qed
  have "insert_edge e old = (if \<exists>x \<in> set old. same_edge e x then old else old @ [e])"
    using src by (simp add: insert_edge_def list_ex_iff)
  then show ?case using Cons.IH [OF rest, of "insert_edge e old"] new by auto
qed simp

lemma one_pass_filter: "one_pass pid kind es \<Longrightarrow> one_pass pid kind (filter P es)"
  by (auto simp: one_pass_def distinct_map_filter)

text \<open>The references of some files, out of those of all.\<close>

lemma seen_filter: "q a \<Longrightarrow> seen_pair (filter (\<lambda>e. q (ed_FromID e)) es) a b = seen_pair es a b"
  by (auto simp: seen_pair_def list_ex_iff)

lemma ref_edges_filter:
  assumes "\<And>p. ref_from g pid (pe_FromFile p) (pe_FromQN p) \<noteq> [] \<Longrightarrow> q (ref_from g pid (pe_FromFile p) (pe_FromQN p)) = R p"
  shows "filter (\<lambda>e. q (ed_FromID e)) (foldl (ref_step g pid branch) [] pend) = foldl (ref_step g pid branch) [] (filter R pend)"
proof (induction pend rule: rev_induct)
  case (snoc p pend)
  define es where "es = foldl (ref_step g pid branch) [] pend"
  define i where "i = ref_from g pid (pe_FromFile p) (pe_FromQN p)"
  define j where "j = ref_target g pid p"
  have step: "ref_step g pid branch xs p =
      (if i = [] \<or> j = [] \<or> i = j \<or> seen_pair xs i j then xs else xs @ [pass_edge pid ''REFERENCES'' branch p i j])" for xs
    by (simp add: ref_step_def i_def j_def)
  have src [simp]: "ed_FromID (pass_edge pid ''REFERENCES'' branch p i j) = i" by (simp add: pass_edge_def)
  have q: "i \<noteq> [] \<Longrightarrow> q i = R p" using assms [of p] by (simp add: i_def)
  have IH: "filter (\<lambda>e. q (ed_FromID e)) es = foldl (ref_step g pid branch) [] (filter R pend)" using snoc by (simp add: es_def)
  show ?case
  proof (cases "i = [] \<or> j = [] \<or> i = j")
    case True
    then show ?thesis using IH by (auto simp: step es_def [symmetric])
  next
    case False
    then show ?thesis using q IH seen_filter [of q i es j] by (cases "R p") (simp_all add: step es_def [symmetric] IH [symmetric])
  qed
qed simp

lemma ref_edges_one_pass: "one_pass pid ''REFERENCES'' (foldl (ref_step g pid branch) [] pend)"
  by (rule foldl_keeps) (auto simp: one_pass_def ref_step_def pass_edge_def seen_pair_def list_ex_iff Let_def)

lemma find_in: "find P xs = Some x \<Longrightarrow> x \<in> set xs"
  by (auto simp: find_Some_iff)

lemma ref_from_file:
  assumes "ref_from g pid path qn \<noteq> []"
  shows "\<exists>s \<in> set (syms_of g pid). sy_ID s = ref_from g pid path qn \<and> sy_FilePath s = path"
proof -
  have found: "found_id (find P (GetSymbolsForFile g pid path)) = [] \<or>
      (\<exists>s \<in> set (syms_of g pid). sy_ID s = found_id (find P (GetSymbolsForFile g pid path)) \<and> sy_FilePath s = path)" for P
    by (cases "find P (GetSymbolsForFile g pid path)") (auto simp: found_id_def GetSymbolsForFile_def dest!: find_in)
  have "ref_from g pid path qn = found_id (find (\<lambda>s. md_section s \<and> sy_QN s = (if qn = [] then ''preamble'' else qn)) (GetSymbolsForFile g pid path)) \<or>
      ref_from g pid path qn = found_id (find md_section (GetSymbolsForFile g pid path))"
    unfolding ref_from_def found_id_def Let_def by (auto split: option.split)
  then obtain P where P: "ref_from g pid path qn = found_id (find P (GetSymbolsForFile g pid path))" by blast
  show ?thesis using found [of P] assms by (simp add: P)
qed

definition in_scope :: "graph \<Rightarrow> string \<Rightarrow> string list \<Rightarrow> string \<Rightarrow> bool" where
  "in_scope g pid files i \<longleftrightarrow> (\<exists>s \<in> set (syms_of g pid). sy_ID s = i \<and> sy_FilePath s \<in> set files)"

lemma ref_from_scope:
  assumes "distinct (map sy_ID (syms_of g pid))" "ref_from g pid path qn \<noteq> []"
  shows "in_scope g pid files (ref_from g pid path qn) \<longleftrightarrow> path \<in> set files"
proof -
  obtain s where s: "s \<in> set (syms_of g pid)" "sy_ID s = ref_from g pid path qn" "sy_FilePath s = path"
    using ref_from_file [OF assms(2)] by blast
  have "t = s" if "t \<in> set (syms_of g pid)" "sy_ID t = ref_from g pid path qn" for t
    using s that assms(1) by (auto simp: distinct_map inj_on_def)
  then show ?thesis using s unfolding in_scope_def by blast
qed

section \<open>Scoped and full\<close>

definition own_ref :: "string \<Rightarrow> edge \<Rightarrow> bool" where
  "own_ref pid e \<longleftrightarrow> ed_ProjectID e = pid \<and> ed_Kind e = ''REFERENCES'' \<and> ed_Source e = ''resolve_pass''"

lemma resolveReferences_full:
  "pend \<noteq> [] \<Longrightarrow> \<not> pf_replace ft ''REFERENCES'' ''resolve_pass'' \<Longrightarrow>
   gr_edges (snd (resolveReferences ft branch pid pend [] g)) =
     fold insert_edge (foldl (ref_step g pid branch) [] pend) (filter (\<lambda>e. \<not> own_ref pid e) (gr_edges g))"
  by (simp add: resolveReferences_def replace_edges_def ReplaceEdgesByKindSource_def insertEdgesTx_def own_ref_def)

lemma resolveReferences_scoped:
  "files \<noteq> [] \<Longrightarrow> \<not> pf_replace ft ''REFERENCES'' ''resolve_pass'' \<Longrightarrow> \<not> pf_delete ft \<Longrightarrow>
   gr_edges (snd (resolveReferences ft branch pid pend files g)) =
     fold insert_edge (foldl (ref_step g pid branch) [] pend)
       (filter (\<lambda>e. \<not> (own_ref pid e \<and> in_scope g pid files (ed_FromID e))) (gr_edges g))"
  by (simp add: resolveReferences_def replace_edges_def ReplaceEdgesByKindSource_def insertEdgesTx_def own_ref_def
      clear_scope_def DeleteResolvePassEdgesByKindForSourceFiles_def DeleteEdgesByKindAndSourceForSourceFiles_def
      from_in_files_def in_scope_def list_ex_iff conj_assoc)

lemma resolveReferences_rows:
  "gr_symbols (snd (resolveReferences ft branch pid pend files g)) = gr_symbols g"
  by (simp add: resolveReferences_def replace_edges_def ReplaceEdgesByKindSource_def insertEdgesTx_def clear_scope_def
      DeleteResolvePassEdgesByKindForSourceFiles_def DeleteEdgesByKindAndSourceForSourceFiles_def)

lemma ref_step_rows: "gr_symbols g = gr_symbols h \<Longrightarrow> ref_step g pid branch = ref_step h pid branch"
  by (intro ext) (simp add: ref_step_def ref_from_def ref_target_def GetSymbolsForFile_def syms_of_def)

lemma in_scope_rows: "gr_symbols g = gr_symbols h \<Longrightarrow> in_scope g = in_scope h"
  by (intro ext) (simp add: in_scope_def syms_of_def)

lemma scoped_set:
  assumes "one_pass pid ''REFERENCES'' old" "one_pass pid ''REFERENCES'' new"
    and out: "filter (\<lambda>e. \<not> q (ed_FromID e)) old = filter (\<lambda>e. \<not> q (ed_FromID e)) new"
    and base: "\<forall>e \<in> set B. \<not> own_ref pid e"
  shows "set (fold insert_edge (filter (\<lambda>e. q (ed_FromID e)) new) (filter (\<lambda>e. \<not> (own_ref pid e \<and> q (ed_FromID e))) (fold insert_edge old B))) =
    set (fold insert_edge new (filter (\<lambda>e. \<not> own_ref pid e) (fold insert_edge old B)))"
proof -
  note i1 = insert_one_pass [OF assms(1), of B] and i2 = insert_one_pass [OF assms(2)]
    and i3 = insert_one_pass [OF one_pass_filter [OF assms(2)]]
  have own: "\<forall>e \<in> set old. own_ref pid e" "\<forall>e \<in> set new. own_ref pid e"
    using assms(1,2) by (simp_all add: one_pass_def own_ref_def)
  have mem: "e \<in> set old \<longleftrightarrow> e \<in> set new" if "\<not> q (ed_FromID e)" for e
    using arg_cong [OF out, of set] that by auto
  have other: "\<not> same_edge e x" if "q (ed_FromID e)" "\<not> q (ed_FromID x)" for e x
    using that by (auto simp: same_edge_def)
  show ?thesis
    unfolding i2 i3 set_filter i1 using own mem other base by blast
qed


text \<open>Two documents that refer to each other; one of them is edited.\<close>

definition md_sym :: "string \<Rightarrow> string \<Rightarrow> sym" where
  "md_sym file qn =
     \<lparr>sy_ID = MakeSymbolID file qn ''Section'', sy_ProjectID = ''p'', sy_FilePath = file, sy_Name = qn, sy_QN = qn,
      sy_Kind = ''Section'', sy_Language = ''Markdown'', sy_StartByte = 0, sy_EndByte = 1, sy_Signature = [], sy_Confidence = 1\<rparr>"

definition md_ref :: "string \<Rightarrow> string \<Rightarrow> string \<Rightarrow> pending" where
  "md_ref file qn target =
     \<lparr>pe_FromQN = qn, pe_ToName = MarkdownDocRefPrefix @ target, pe_Kind = ''REFERENCES'', pe_FromFile = file,
      pe_Confidence = 1, pe_ReceiverType = [], pe_BaseType = []\<rparr>"

definition docs :: graph where
  "docs = \<lparr>gr_symbols = [md_sym ''a.md'' ''intro'', md_sym ''a.md'' ''intro.setup'', md_sym ''b.md'' ''guide''],
     gr_edges = [], gr_fields = [], gr_pending = []\<rparr>"

definition all_well :: pass_faults where
  "all_well = \<lparr>pf_upsert = False, pf_replace = (\<lambda>_ _. False), pf_delete = False, pf_fields = False, pf_symbols = False, pf_load = (\<lambda>_. False)\<rparr>"


end
