(* ===== verification/Spec2Isabelle.thy ===== *)
theory Spec2Isabelle
  imports Cypher_Roundtrip Cypher_Traversal Trace_Paths Supervisor_Props Index_Lock_Props
    Line_Diff_Props Route_Echo_Props Http_Gateway_Props Project_Resolve_Props Call_Telemetry_Props Call_Resolve_Props Incremental_Refs
begin

text \<open>
  Verification of pincher, a code-intelligence server written in Go.

  \<^bold>\<open>The program.\<close>  pincher indexes a source tree into a SQLite graph of symbols and edges
  (\<^verbatim>\<open>internal/ast\<close>, \<^verbatim>\<open>internal/index\<close>, \<^verbatim>\<open>internal/db\<close>) and answers queries about it over MCP
  (\<^verbatim>\<open>internal/server\<close>).  Graph queries are written in pinchQL, a Cypher dialect with its own
  tokenizer, parser, planner and executor (\<^verbatim>\<open>internal/cypher/engine.go\<close>).  Traces through the call
  graph read a precomputed closure table or run a recursive query (\<^verbatim>\<open>internal/db/closure.go\<close>,
  \<^verbatim>\<open>traceViaCTE\<close> in \<^verbatim>\<open>internal/db/db.go\<close>, \<^verbatim>\<open>TraceByID\<close> in \<^verbatim>\<open>internal/index/indexer.go\<close>).  A supervisor
  process keeps the client's session alive across exits of the server
  (\<^verbatim>\<open>internal/supervisor/supervisor.go\<close>).  Indexers in several processes exclude each other with a
  lockfile per project, and a reaper clears the locks of orphans (\<^verbatim>\<open>internal/index/lockfile.go\<close>,
  \<^verbatim>\<open>internal/index/orphan.go\<close>).  The tools are also served over HTTP, behind a bearer check and a rate
  limiter (\<^verbatim>\<open>ServeHTTP\<close> in \<^verbatim>\<open>internal/server/server.go\<close>); one of them fetches documents from the network
  and must not reach private addresses.  A tool call names its project by id, path or name, which is
  resolved against the project table of the store (\<^verbatim>\<open>resolveProjectID\<close>, \<^verbatim>\<open>internal/db/path.go\<close>); the
  table is shared by processes of different versions and repaired when the store is opened.  Calls
  leave telemetry, and route consults leave echoes that complete later reports
  (\<^verbatim>\<open>internal/server/router_tools.go\<close>).

  \<^bold>\<open>The theories.\<close>

  \<^item> \<open>Pincher_Prelude\<close>: Go strings and numbers (\<^verbatim>\<open>strconv.Atoi\<close>, \<^verbatim>\<open>Itoa\<close>, prefixes, trimming), lemmas
    on lists and association lists, the named collections.
  \<^item> \<open>Cypher_AST\<close>: tokens, patterns, conditions, the WHERE tree and the query record; flattening
    of the tree and back.
  \<^item> \<open>Cypher_Lexer\<close>: \<^verbatim>\<open>tokenize\<close>, \<^verbatim>\<open>unescapeString\<close>.  A slice out of range is \<^term>\<open>None\<close>.
  \<^item> \<open>Cypher_Vocab\<close>: property and keyword tables, literal coercion, hop ranges, the one-edit typo test.
  \<^item> \<open>Cypher_Parser\<close>, \<open>Cypher_Parser_Props\<close>, \<open>Cypher_Roundtrip\<close>: the recursive-descent parser with
    every error site; termination, well-formedness of accepted queries, print/parse round trip.
  \<^item> \<open>Go_Values\<close>: dynamically typed cells, their printing and Go maps as association lists.
  \<^item> \<open>Cypher_Eval\<close>, \<open>Cypher_SQL\<close>: the two meanings of WHERE, in process and as SQL with bind
    arguments, and where they agree.
  \<^item> \<open>Cypher_Warnings\<close>, \<open>Cypher_Result\<close>: advisories; projection, GROUP BY, aggregates, DISTINCT,
    ORDER BY, LIMIT.
  \<^item> \<open>Cypher_Exec\<close>: \<^verbatim>\<open>Execute\<close> and the node scan, join and traversal below it, over a database that is
    a parameter.  \<open>Cypher_Statements\<close>, \<open>Cypher_Exec_Props\<close>, \<open>Cypher_Scans\<close> and \<open>Cypher_Traversal\<close>
    hold its properties.
  \<^item> \<open>Trace_Closure\<close>, \<open>Trace_Closure_Props\<close>, \<open>Trace_Paths\<close>: the closure table and both trace paths.
  \<^item> \<open>Supervisor\<close>, \<open>Supervisor_Props\<close>: the supervisor as a state machine.
  \<^item> \<open>Index_Lock\<close>, \<open>Index_Lock_Props\<close>: the project lock, alone and call by call among concurrent
    processes, and the reaper.
  \<^item> \<open>Project_Store\<close>, \<open>Project_Store_Props\<close>: project rows, version stamps, deletion and the repair of
    duplicates, over tables with the foreign keys of the schema.
  \<^item> \<open>Project_Resolve\<close>, \<open>Project_Resolve_Props\<close>: lexical paths, the canonical id of a directory and
    \<^verbatim>\<open>resolveProjectID\<close> with its cache.
  \<^item> \<open>Net_Addr\<close>, \<open>Net_Addr_Props\<close>: addresses as the standard library splits and parses them, the
    fetch guard and the listen gate.
  \<^item> \<open>Http_Gateway\<close>, \<open>Http_Gateway_Props\<close>: from a request to an endpoint, a tool call or an error.
  \<^item> \<open>Json_Value\<close>: decoded JSON.  \<open>Route_Echo\<close>, \<open>Route_Echo_Props\<close>: the echo cache, its sidecar file and
    the route tool.
  \<^item> \<open>Line_Diff\<close>, \<open>Line_Diff_Props\<close>: the line diff and the reading of git output.
  \<^item> \<open>Graph_Store\<close>: the tables of symbols, edges, fields and deferred edges with their statements.
    \<open>Edge_Lookup\<close>, \<open>Edge_Resolve\<close>, \<open>Call_Resolve\<close>: the passes of \<^verbatim>\<open>internal/index/indexer.go\<close> that bind
    deferred edges to symbols, and the block that runs them; \<open>Edge_Resolve_Props\<close>,
    \<open>Call_Resolve_Props\<close>, \<open>Incremental_Refs\<close> hold their properties.
  \<^item> \<open>Call_Telemetry\<close>, \<open>Call_Telemetry_Props\<close>: the call buffer, the latency counters and the event bus
    under interleaving.

  \<^bold>\<open>What is shown.\<close>

  \<^item> Query text: every text that does not end in a backslash tokenizes, into well-shaped tokens; any
    byte string survives quoting; accepted queries are well formed; a printed WHERE tree parses back
    to itself; the typo test is exactly edit distance at most one; hop ranges are ordered.
  \<^item> WHERE: the flat condition list and the tree agree, the regex cache is transparent, the pushed
    SQL keeps exactly the rows the evaluator keeps on text columns, no literal reaches SQL text, and
    every statement binds as many arguments as it has placeholders.
  \<^item> Execution: a query depends only on statements filtered on the caller's project unless it opted
    out; a node scan returns exactly the rows satisfying the whole WHERE; a join keeps one row per
    edge, the most confident; traversal rows satisfy WHERE and the inline properties; the row cap
    and LIMIT hold.
  \<^item> Results: groups partition the rows, ORDER BY is the stable sort, projected columns hold the
    RETURN values; unknown-name warnings are exact.
  \<^item> Traces: a successful build is exactly the shortest-path closure of the project's call edges and
    touches no other project; a failed one changes nothing; both trace paths find the same symbols
    at the same depths.
  \<^item> Supervisor: an invariant of every interleaving (no internal answer reaches the client, probes
    have timers, flags agree with the mode, bounded breaker history), no request is dropped, the
    breaker counts its window exactly, the handshake is replayed exactly, the retries take the
    first success.
  \<^item> Lock: a live holder excludes others until it releases; at most one owner in every interleaving
    without a reclaim; left alone, the calls are the function; the reaper kills only confirmed orphans.
  \<^item> Project table: release stamps never go back; deletion is complete but for loop checkpoints; the
    repair leaves one project per directory and is idempotent, on tables without closure rows.
  \<^item> Resolution: a name resolves to the best match; a cached answer is at most a minute old and of the
    same session; nesting of cleaned paths is nesting of directories, with one exception.
  \<^item> Gateway: nothing private without the key; the sliding window is exact; the rate key is the host;
    replies carry a clean correlation id.  A fetch dials public addresses only, through every
    redirect, and the guard blocks exactly the documented networks.
  \<^item> Echo cache: it refines a least-recently-used list, survives a restart, and completes exactly the
    fields a report lacks.  Diffs replay to both texts and are minimal; changed symbols are exact.
  \<^item> Telemetry: every event is accounted for in every interleaving; lock-free counters add up; the bus
    never sends on a closed channel.
  \<^item> Edge resolution: every pass, and the block of all passes, keeps the graph sound whatever write
    fails; what a call binds to depends on the graph and the call alone, not on caches or order; a
    scoped pass over references equals a full one.
  \<^item> Defects are theorems too: the platform variants that leak into another directory's calls, the
    placeholder that an import keeps after its module is indexed, the panic on a dangling escape, the negated equality on a start node
    that returns nothing, the negation dropped by SQL on NULL, the stale probe that kills a fresh
    process, the lock held twice because an unwritten lockfile is taken for a corrupt one, the repair
    that closure rows block for good, the unparseable version that displaces a release.

  \<^bold>\<open>Parameters.\<close>  Code outside the repository is an argument: float arithmetic and formatting,
  regular expressions, number parsing (record \<open>golib\<close>), JSON decoding (\<open>jsonlib\<close>), the database
  (\<open>db\<close> of the executor; for traces, lists of rows with a fault function), the process spawner and
  the clock (\<open>spawn_env\<close>), cancellation (\<open>ctx\<close>), the operating system below the lock (\<open>oslib\<close>, \<open>io\<close>), the
  name service and the servers a fetch meets, the digest and the tool handlers behind the gateway
  (\<open>toolbox\<close>), the router and the JSON codec of the echo cache (\<open>codec\<close>), the file system below path
  canonicalisation (\<open>fs\<close>), the registry of extractors (\<open>lang_of\<close>) and the write that fails
  (\<open>pass_faults\<close>).  Orders that Go leaves open, such as ranging over
  a map, are parameters as well.

  \<^bold>\<open>Fuel.\<close>  The mutually recursive WHERE parser takes fuel \<open>3 * left + 3\<close> for \<open>left\<close> remaining
  tokens; every third call consumes a token, and it is proved that the result does not change with
  more.  All other functions terminate by structure or by a measure.  The recursive trace query runs
  one round per depth, as its bound in SQL does.

  \<^bold>\<open>Interfaces.\<close>  \<open>go_map\<close> (lookup and update of a Go map), \<open>sql_like\<close> (the LIKE operator),
  \<open>consistent_order\<close> (a comparator a stable sort may rely on), \<open>side_handler\<close> (a goroutine that
  runs beside the supervisor's pump), \<open>lru_cache\<close> (what a least-recently-used cache promises its
  clients) and \<open>graph_pass\<close> (what a resolve pass may do to the graph) are locales, each interpreted on the definitions of the model.

  \<^bold>\<open>Not modelled.\<close>  Symbol extraction (\<^verbatim>\<open>internal/ast\<close>, \<^verbatim>\<open>internal/tsbridge\<close>) rests on regular
  expressions and third-party grammars.  The remaining statements and migrations of \<^verbatim>\<open>internal/db\<close>, the
  walks of \<^verbatim>\<open>internal/index\<close>, \<^verbatim>\<open>internal/init\<close> and the commands are file and database I/O.  In
  \<^verbatim>\<open>internal/server\<close> the tool handlers, the dashboard, the encoders (\<^verbatim>\<open>toon.go\<close>), page cursors and
  budgets are left out; the encoders and \<^verbatim>\<open>db/loop.go\<close> are the next candidates.  Of the supervisor, pipes and processes, the final drain of \<^verbatim>\<open>Run\<close>, version
  detection and the uptime and last-emit timestamps are left out.  Wording of messages is replaced by
  constructors carrying the interpolated values.
\<close>

end
